theory Spec2Isabelle
  imports Complex_Main "HOL-Library.AList"
begin

section \<open>The stochastic maximum-flow notebook\<close>

text \<open>
  The notebook \<^verbatim>\<open>maxflow/maxflow.ipynb\<close> runs its cells top to bottom: it fixes a
  network, draws the scenario table \<^verbatim>\<open>xi\<close>, assembles a Pyomo model cell by cell
  (core flow model, Type-I, Type-II and CVaR constraints) and solves it twice.
  The literals of the notebook are collected in a record, so that each cell is a
  function of the configuration; \<open>example\<close> below holds the notebook's own values.
\<close>

subsection \<open>Python values and exceptions\<close>

datatype error = KeyError | IndexError | ValueError | ZeroDivisionError

type_synonym node = nat
type_synonym edge = "node \<times> node"

text \<open>
  A Python \<^verbatim>\<open>dict\<close> is an association list in insertion order: \<^verbatim>\<open>d[k]\<close> raises
  KeyError on a missing key, and \<^verbatim>\<open>d[k] = v\<close> overwrites in place or appends
  (\<^const>\<open>AList.update\<close>). A Python list read at an index raises IndexError
  out of range (the indices used by the notebook come from \<^verbatim>\<open>range\<close>, so they are
  never negative).
\<close>

definition getitem :: "('k \<times> 'v) list \<Rightarrow> 'k \<Rightarrow> error + 'v" where
  "getitem d k = (case map_of d k of None \<Rightarrow> Inl KeyError | Some v \<Rightarrow> Inr v)"

definition list_getitem :: "'a list \<Rightarrow> nat \<Rightarrow> error + 'a" where
  "list_getitem xs i = (if i < length xs then Inr (xs ! i) else Inl IndexError)"

record config =
  nodes :: "node list"
  edges :: "(edge \<times> int) list"
  source :: node
  sink :: node
  num_scenarios :: nat
  perf_thresholds :: "real list"
  alpha_thresholds :: "real list"
  perf_target :: real
  beta_threshold :: real
  cvar_thresholds :: "real list"
  cvar_epsilons :: "real list"

definition example :: config where
  "example = \<lparr>
     nodes = [0, 1, 2, 3, 4, 5],
     edges = [((0, 1), 16), ((0, 2), 13), ((1, 3), 12), ((1, 2), 10), ((2, 1), 4),
              ((2, 4), 14), ((3, 2), 9), ((4, 3), 7), ((4, 5), 4), ((3, 5), 20),
              ((5, 0), 99)],
     source = 0,
     sink = 5,
     num_scenarios = 100,
     perf_thresholds = [20, 18, 15],
     alpha_thresholds = [0.50, 0.75, 1.00],
     perf_target = 23,
     beta_threshold = 0.75,
     cvar_thresholds = [4, 7.5],
     cvar_epsilons = [0.50, 0.10] \<rparr>"

subsection \<open>The random generator\<close>

text \<open>
  \<^verbatim>\<open>random.randint(a, b)\<close> belongs to Python's standard library, not to the
  repository: it returns an integer \<open>N\<close> with \<open>a \<le> N \<le> b\<close> and raises ValueError
  when the range is empty. The hidden generator state (what \<^verbatim>\<open>random.seed(seed)\<close>
  sets) is taken as a parameter, a stream of raw draws of which one call consumes
  one. Every value of the range is the result for some draw (\<open>randint_onto\<close>
  below), so no outcome of the library is excluded.
\<close>

type_synonym rng = "nat \<Rightarrow> nat"

definition randint :: "rng \<Rightarrow> int \<Rightarrow> int \<Rightarrow> error + (int \<times> rng)" where
  "randint g a b =
     (if b < a then Inl ValueError
      else Inr (a + int (g 0 mod nat (b - a + 1)), \<lambda>i. g (Suc i)))"

subsection \<open>The scenario table\<close>

text \<open>
  \<^verbatim>\<open>
  xi = {(n, m, scenario): edges[source, sink]
                          if (n, m) == (source, sink) else
                          random.randint(0, edges[n, m])
        for (n, m) in edges
        for scenario in range(num_scenarios)}
  \<close>
  The comprehension walks the edges in dictionary order and, for each, the
  scenarios in order; the state threaded through is the table built so far and
  the generator.
\<close>

type_synonym xi_table = "((node \<times> node \<times> nat) \<times> int) list"

definition xi_value :: "config \<Rightarrow> edge \<Rightarrow> rng \<Rightarrow> error + (int \<times> rng)" where
  "xi_value cfg e g =
     (if e = (source cfg, sink cfg)
      then (case getitem (edges cfg) (source cfg, sink cfg) of
              Inl err \<Rightarrow> Inl err
            | Inr c \<Rightarrow> Inr (c, g))
      else (case getitem (edges cfg) e of
              Inl err \<Rightarrow> Inl err
            | Inr c \<Rightarrow> randint g 0 c))"

fun xi_scenarios ::
  "config \<Rightarrow> edge \<Rightarrow> nat list \<Rightarrow> xi_table \<times> rng \<Rightarrow> error + (xi_table \<times> rng)" where
  "xi_scenarios cfg e [] st = Inr st"
| "xi_scenarios cfg e (scenario # rest) st =
     (case xi_value cfg e (snd st) of
        Inl err \<Rightarrow> Inl err
      | Inr (v, g') \<Rightarrow>
          xi_scenarios cfg e rest
            (AList.update (fst e, snd e, scenario) v (fst st), g'))"

fun xi_edges ::
  "config \<Rightarrow> edge list \<Rightarrow> xi_table \<times> rng \<Rightarrow> error + (xi_table \<times> rng)" where
  "xi_edges cfg [] st = Inr st"
| "xi_edges cfg (e # rest) st =
     (case xi_scenarios cfg e [0..<num_scenarios cfg] st of
        Inl err \<Rightarrow> Inl err
      | Inr st' \<Rightarrow> xi_edges cfg rest st')"

definition xi :: "rng \<Rightarrow> config \<Rightarrow> error + (xi_table \<times> rng)" where
  "xi g cfg = xi_edges cfg (map fst (edges cfg)) ([], g)"

subsection \<open>Pyomo expressions\<close>

text \<open>
  The Pyomo library is not part of the repository; the notebook uses it to hold
  index sets, parameters, variables with a domain, constraints built by calling
  a rule at every index, and objectives. The model below keeps exactly that:
  a variable is named by its component and index, an expression is the syntax
  tree the Python operators build, and a relation is what a rule returns.
\<close>

datatype var =
    X node node
  | Y node node nat
  | Indicator nat nat
  | Cvar_beta nat
  | Cvar_nu nat nat

datatype domain = NonNegativeReals | Binary | Reals

datatype expr =
    Num real
  | V var
  | Plus expr expr
  | Minus expr expr
  | Over expr real

datatype rel = LE expr expr | GE expr expr | EQ expr expr

fun eval :: "(var \<Rightarrow> real) \<Rightarrow> expr \<Rightarrow> real" where
  "eval \<rho> (Num c) = c"
| "eval \<rho> (V v) = \<rho> v"
| "eval \<rho> (Plus a b) = eval \<rho> a + eval \<rho> b"
| "eval \<rho> (Minus a b) = eval \<rho> a - eval \<rho> b"
| "eval \<rho> (Over a c) = eval \<rho> a / c"

fun holds :: "(var \<Rightarrow> real) \<Rightarrow> rel \<Rightarrow> bool" where
  "holds \<rho> (LE a b) = (eval \<rho> a \<le> eval \<rho> b)"
| "holds \<rho> (GE a b) = (eval \<rho> a \<ge> eval \<rho> b)"
| "holds \<rho> (EQ a b) = (eval \<rho> a = eval \<rho> b)"

fun in_domain :: "domain \<Rightarrow> real \<Rightarrow> bool" where
  "in_domain NonNegativeReals r = (0 \<le> r)"
| "in_domain Binary r = (r = 0 \<or> r = 1)"
| "in_domain Reals r = True"

text \<open>
  An expression without a variable is a plain Python number. Comparing two plain
  numbers gives a Python \<^verbatim>\<open>bool\<close>, which \<^verbatim>\<open>Constraint\<close> refuses with ValueError;
  dividing by zero raises ZeroDivisionError, for plain numbers and for
  expressions alike.
\<close>

fun is_const :: "expr \<Rightarrow> bool" where
  "is_const (Num c) = True"
| "is_const (V v) = False"
| "is_const (Plus a b) = (is_const a \<and> is_const b)"
| "is_const (Minus a b) = (is_const a \<and> is_const b)"
| "is_const (Over a c) = is_const a"

fun trivial :: "rel \<Rightarrow> bool" where
  "trivial (LE a b) = (is_const a \<and> is_const b)"
| "trivial (GE a b) = (is_const a \<and> is_const b)"
| "trivial (EQ a b) = (is_const a \<and> is_const b)"

definition andthen :: "error + 'a \<Rightarrow> ('a \<Rightarrow> error + 'b) \<Rightarrow> error + 'b" where
  "andthen r f = (case r of Inl err \<Rightarrow> Inl err | Inr a \<Rightarrow> f a)"

definition truediv :: "expr \<Rightarrow> real \<Rightarrow> error + expr" where
  "truediv a c = (if c = 0 then Inl ZeroDivisionError else Inr (Over a c))"

text \<open>
  Python's \<^verbatim>\<open>sum(f(i) for i in idx)\<close> starts from the number 0 and adds the terms
  from left to right; a term that raises ends the sum.
\<close>

fun sum_from :: "expr \<Rightarrow> ('i \<Rightarrow> error + expr) \<Rightarrow> 'i list \<Rightarrow> error + expr" where
  "sum_from acc f [] = Inr acc"
| "sum_from acc f (i # idx) =
     (case f i of Inl err \<Rightarrow> Inl err | Inr a \<Rightarrow> sum_from (Plus acc a) f idx)"

definition py_sum :: "('i \<Rightarrow> error + expr) \<Rightarrow> 'i list \<Rightarrow> error + expr" where
  "py_sum f idx = sum_from (Num 0) f idx"

subsection \<open>The model object\<close>

datatype con =
    Con_flow_balance node nat
  | Con_max_flow_capacity node node nat
  | Con_eff_flow_capacity node node nat
  | Con_indicator nat nat
  | Con_type1_service_level nat
  | Con_type2_service_level
  | Con_cvar_main nat
  | Con_cvar_aux nat nat

datatype sense = minimize | maximize

datatype objname = Obj_min_budget | Obj_max_flow

record objective =
  obj_name :: objname
  obj_sense :: sense
  obj_expr :: expr
  obj_active :: bool

record model =
  model_nodes :: "node list"
  model_edges :: "edge list"
  model_scenarios :: "nat list"
  model_s :: node
  model_t :: node
  model_flow_capacity :: "(edge \<times> int) list"
  model_xi :: xi_table
  model_type1_con_set :: "nat list"
  model_cvar_con_set :: "nat list"
  model_vars :: "(var \<times> domain) list"
  model_fixed :: "(var \<times> real) list"
  model_constraints :: "(con \<times> rel) list"
  model_objectives :: "objective list"

text \<open>Reading a variable at an index outside its index set raises KeyError.\<close>

definition var_getitem :: "model \<Rightarrow> var \<Rightarrow> error + expr" where
  "var_getitem m v = (if v \<in> set (map fst (model_vars m)) then Inr (V v) else Inl KeyError)"

text \<open>
  \<^verbatim>\<open>Constraint(index, rule=r)\<close> calls the rule at every index in order and keeps
  the relations; the first exception ends the construction.
\<close>

fun collect :: "('i \<Rightarrow> error + 'a) \<Rightarrow> 'i list \<Rightarrow> error + ('i \<times> 'a) list" where
  "collect f [] = Inr []"
| "collect f (i # idx) =
     (case f i of
        Inl err \<Rightarrow> Inl err
      | Inr a \<Rightarrow> (case collect f idx of Inl err \<Rightarrow> Inl err | Inr rest \<Rightarrow> Inr ((i, a) # rest)))"

definition checked :: "error + rel \<Rightarrow> error + rel" where
  "checked r = andthen r (\<lambda>c. if trivial c then Inl ValueError else Inr c)"

definition Constraint ::
  "('i \<Rightarrow> con) \<Rightarrow> 'i list \<Rightarrow> ('i \<Rightarrow> error + rel) \<Rightarrow> model \<Rightarrow> error + model" where
  "Constraint name idx rule m =
     andthen (collect (\<lambda>i. checked (rule i)) idx)
       (\<lambda>cs. Inr (m\<lparr>model_constraints :=
                      model_constraints m @ map (\<lambda>(i, c). (name i, c)) cs\<rparr>))"

definition Var :: "var list \<Rightarrow> domain \<Rightarrow> model \<Rightarrow> model" where
  "Var vs d m = m\<lparr>model_vars := model_vars m @ map (\<lambda>v. (v, d)) vs\<rparr>"

definition Objective :: "objname \<Rightarrow> sense \<Rightarrow> error + expr \<Rightarrow> model \<Rightarrow> error + model" where
  "Objective name sns rule m =
     andthen rule
       (\<lambda>e. Inr (m\<lparr>model_objectives := model_objectives m @
                      [\<lparr>obj_name = name, obj_sense = sns, obj_expr = e, obj_active = True\<rparr>]\<rparr>))"

subsection \<open>Core model\<close>

text \<open>
  \<^verbatim>\<open>
  def con_flow_balance(model, node, scenario):
      in_edges = [(n, m) for (n, m) in model.edges if m == node]
      out_edges = [(n, m) for (n, m) in model.edges if n == node]
      return sum(model.y[edge, scenario] for edge in in_edges)
          == sum(model.y[edge, scenario] for edge in out_edges)
  def con_max_flow_capacity(model, n, m, scenario):
      return model.y[n, m, scenario] <= model.flow_capacity[n, m]
  def con_eff_flow_capacity(model, n, m, scenario):
      return model.y[n, m, scenario] <= model.xi[n, m, scenario] + model.x[n, m]
  def obj_min_budget(model):
      return sum(model.x[edge] for edge in model.edges)
  \<close>
\<close>

definition con_flow_balance :: "model \<Rightarrow> node \<times> nat \<Rightarrow> error + rel" where
  "con_flow_balance mdl = (\<lambda>(node, scenario).
     (let in_edges = filter (\<lambda>(n, m). m = node) (model_edges mdl);
          out_edges = filter (\<lambda>(n, m). n = node) (model_edges mdl)
      in andthen (py_sum (\<lambda>(n, m). var_getitem mdl (Y n m scenario)) in_edges) (\<lambda>lhs.
         andthen (py_sum (\<lambda>(n, m). var_getitem mdl (Y n m scenario)) out_edges) (\<lambda>rhs.
         Inr (EQ lhs rhs)))))"

definition con_max_flow_capacity :: "model \<Rightarrow> edge \<times> nat \<Rightarrow> error + rel" where
  "con_max_flow_capacity mdl = (\<lambda>((n, m), scenario).
     andthen (var_getitem mdl (Y n m scenario)) (\<lambda>lhs.
     andthen (getitem (model_flow_capacity mdl) (n, m)) (\<lambda>c.
     Inr (LE lhs (Num (real_of_int c))))))"

definition con_eff_flow_capacity :: "model \<Rightarrow> edge \<times> nat \<Rightarrow> error + rel" where
  "con_eff_flow_capacity mdl = (\<lambda>((n, m), scenario).
     andthen (var_getitem mdl (Y n m scenario)) (\<lambda>lhs.
     andthen (getitem (model_xi mdl) (n, m, scenario)) (\<lambda>c.
     andthen (var_getitem mdl (X n m)) (\<lambda>x.
     Inr (LE lhs (Plus (Num (real_of_int c)) x))))))"

definition obj_min_budget :: "model \<Rightarrow> error + expr" where
  "obj_min_budget mdl = py_sum (\<lambda>(n, m). var_getitem mdl (X n m)) (model_edges mdl)"

text \<open>
  The cell that creates the model, its sets, parameters and variables, the
  three constraint families and the budget objective, in the cell's order.
\<close>

definition core_model :: "config \<Rightarrow> xi_table \<Rightarrow> error + model" where
  "core_model cfg tbl =
     (let m0 = \<lparr> model_nodes = nodes cfg,
                 model_edges = map fst (edges cfg),
                 model_scenarios = [0..<num_scenarios cfg],
                 model_s = source cfg,
                 model_t = sink cfg,
                 model_flow_capacity = edges cfg,
                 model_xi = tbl,
                 model_type1_con_set = [],
                 model_cvar_con_set = [],
                 model_vars = [],
                 model_fixed = [],
                 model_constraints = [],
                 model_objectives = [] \<rparr>;
          m1 = Var (map (\<lambda>(n, m). X n m) (model_edges m0)) NonNegativeReals m0;
          m2 = Var (map (\<lambda>((n, m), scenario). Y n m scenario)
                      (List.product (model_edges m1) (model_scenarios m1)))
                 NonNegativeReals m1
      in andthen (Constraint (\<lambda>(node, scenario). Con_flow_balance node scenario)
                    (List.product (model_nodes m2) (model_scenarios m2))
                    (con_flow_balance m2) m2) (\<lambda>m3.
         andthen (Constraint (\<lambda>((n, m), scenario). Con_max_flow_capacity n m scenario)
                    (List.product (model_edges m3) (model_scenarios m3))
                    (con_max_flow_capacity m3) m3) (\<lambda>m4.
         andthen (Constraint (\<lambda>((n, m), scenario). Con_eff_flow_capacity n m scenario)
                    (List.product (model_edges m4) (model_scenarios m4))
                    (con_eff_flow_capacity m4) m4) (\<lambda>m5.
         Objective Obj_min_budget minimize (obj_min_budget m5) m5))))"

subsection \<open>Type-I service-level constraints\<close>

text \<open>
  \<^verbatim>\<open>
  def con_indicator(model, scenario, type1_con):
      return model.indicator[scenario, type1_con]
          <= model.y[model.t, model.s, scenario] / perf_thresholds[type1_con]
  def con_type1_service_level(model, type1_con):
      return sum(model.indicator[scenario, type1_con] for scenario in model.scenarios)
          / num_scenarios >= alpha_thresholds[type1_con]
  \<close>
\<close>

definition con_indicator :: "config \<Rightarrow> model \<Rightarrow> nat \<times> nat \<Rightarrow> error + rel" where
  "con_indicator cfg mdl = (\<lambda>(scenario, type1_con).
     andthen (var_getitem mdl (Indicator scenario type1_con)) (\<lambda>lhs.
     andthen (var_getitem mdl (Y (model_t mdl) (model_s mdl) scenario)) (\<lambda>y.
     andthen (list_getitem (perf_thresholds cfg) type1_con) (\<lambda>b.
     andthen (truediv y b) (\<lambda>rhs.
     Inr (LE lhs rhs))))))"

definition con_type1_service_level :: "config \<Rightarrow> model \<Rightarrow> nat \<Rightarrow> error + rel" where
  "con_type1_service_level cfg mdl type1_con =
     andthen (py_sum (\<lambda>scenario. var_getitem mdl (Indicator scenario type1_con))
                (model_scenarios mdl)) (\<lambda>total.
     andthen (truediv total (real (num_scenarios cfg))) (\<lambda>lhs.
     andthen (list_getitem (alpha_thresholds cfg) type1_con) (\<lambda>alpha.
     Inr (GE lhs (Num alpha)))))"

definition type1_cell :: "config \<Rightarrow> model \<Rightarrow> error + model" where
  "type1_cell cfg mdl =
     (let num_type1_constraints = length (perf_thresholds cfg);
          m1 = mdl\<lparr>model_type1_con_set := [0..<num_type1_constraints]\<rparr>;
          m2 = Var (map (\<lambda>(scenario, i). Indicator scenario i)
                      (List.product (model_scenarios m1) (model_type1_con_set m1)))
                 Binary m1
      in andthen (Constraint (\<lambda>(scenario, i). Con_indicator scenario i)
                    (List.product (model_scenarios m2) (model_type1_con_set m2))
                    (con_indicator cfg m2) m2) (\<lambda>m3.
         Constraint Con_type1_service_level (model_type1_con_set m3)
           (con_type1_service_level cfg m3) m3))"

subsection \<open>Type-II service-level constraint\<close>

text \<open>
  \<^verbatim>\<open>
  def con_type2_service_level(model):
      return sum(model.y[model.t, model.s, scenario] for scenario in model.scenarios)
          / num_scenarios >= perf_target * beta_threshold
  \<close>
\<close>

definition con_type2_service_level :: "config \<Rightarrow> model \<Rightarrow> unit \<Rightarrow> error + rel" where
  "con_type2_service_level cfg mdl u =
     andthen (py_sum (\<lambda>scenario. var_getitem mdl (Y (model_t mdl) (model_s mdl) scenario))
                (model_scenarios mdl)) (\<lambda>total.
     andthen (truediv total (real (num_scenarios cfg))) (\<lambda>lhs.
     Inr (GE lhs (Num (perf_target cfg * beta_threshold cfg)))))"

definition type2_cell :: "config \<Rightarrow> model \<Rightarrow> error + model" where
  "type2_cell cfg mdl =
     Constraint (\<lambda>u. Con_type2_service_level) [()] (con_type2_service_level cfg mdl) mdl"

subsection \<open>CVaR constraints\<close>

text \<open>
  \<^verbatim>\<open>
  def con_cvar_main(model, cvar_con):
      return model.cvar_beta[cvar_con]
          + sum(model.cvar_nu[scenario, cvar_con] for scenario in model.scenarios)
            / (num_scenarios * cvar_epsilons[cvar_con]) <= cvar_thresholds[cvar_con]
  def con_cvar_aux(model, scenario, cvar_con):
      loss = perf_target - model.y[model.t, model.s, scenario]
      return model.cvar_nu[scenario, cvar_con] >= loss - model.cvar_beta[cvar_con]
  \<close>
  The cell assigns \<^verbatim>\<open>perf_target = 23\<close> again, the value it already has.
\<close>

definition con_cvar_main :: "config \<Rightarrow> model \<Rightarrow> nat \<Rightarrow> error + rel" where
  "con_cvar_main cfg mdl cvar_con =
     andthen (var_getitem mdl (Cvar_beta cvar_con)) (\<lambda>beta.
     andthen (py_sum (\<lambda>scenario. var_getitem mdl (Cvar_nu scenario cvar_con))
                (model_scenarios mdl)) (\<lambda>total.
     andthen (list_getitem (cvar_epsilons cfg) cvar_con) (\<lambda>eps.
     andthen (truediv total (real (num_scenarios cfg) * eps)) (\<lambda>mean.
     andthen (list_getitem (cvar_thresholds cfg) cvar_con) (\<lambda>zeta.
     Inr (LE (Plus beta mean) (Num zeta)))))))"

definition con_cvar_aux :: "config \<Rightarrow> model \<Rightarrow> nat \<times> nat \<Rightarrow> error + rel" where
  "con_cvar_aux cfg mdl = (\<lambda>(scenario, cvar_con).
     andthen (var_getitem mdl (Y (model_t mdl) (model_s mdl) scenario)) (\<lambda>y.
     (let loss = Minus (Num (perf_target cfg)) y
      in andthen (var_getitem mdl (Cvar_nu scenario cvar_con)) (\<lambda>nu.
         andthen (var_getitem mdl (Cvar_beta cvar_con)) (\<lambda>beta.
         Inr (GE nu (Minus loss beta)))))))"

definition cvar_cell :: "config \<Rightarrow> model \<Rightarrow> error + model" where
  "cvar_cell cfg mdl =
     (let num_cvar_constraints = length (cvar_thresholds cfg);
          m1 = mdl\<lparr>model_cvar_con_set := [0..<num_cvar_constraints]\<rparr>;
          m2 = Var (map Cvar_beta (model_cvar_con_set m1)) Reals m1;
          m3 = Var (map (\<lambda>(scenario, i). Cvar_nu scenario i)
                      (List.product (model_scenarios m2) (model_cvar_con_set m2)))
                 NonNegativeReals m2
      in andthen (Constraint Con_cvar_main (model_cvar_con_set m3)
                    (con_cvar_main cfg m3) m3) (\<lambda>m4.
         Constraint (\<lambda>(scenario, i). Con_cvar_aux scenario i)
           (List.product (model_scenarios m4) (model_cvar_con_set m4))
           (con_cvar_aux cfg m4) m4))"

subsection \<open>Assembly and the two solves\<close>

text \<open>
  The state of the notebook after each cell; \<open>assemble\<close> is everything it runs
  before the first call of the solver.
\<close>

definition assemble_core :: "rng \<Rightarrow> config \<Rightarrow> error + model" where
  "assemble_core g cfg = andthen (xi g cfg) (\<lambda>(tbl, g'). core_model cfg tbl)"

definition assemble_type1 :: "rng \<Rightarrow> config \<Rightarrow> error + model" where
  "assemble_type1 g cfg = andthen (assemble_core g cfg) (type1_cell cfg)"

definition assemble_type2 :: "rng \<Rightarrow> config \<Rightarrow> error + model" where
  "assemble_type2 g cfg = andthen (assemble_type1 g cfg) (type2_cell cfg)"

definition assemble :: "rng \<Rightarrow> config \<Rightarrow> error + model" where
  "assemble g cfg = andthen (assemble_type2 g cfg) (cvar_cell cfg)"

text \<open>
  A point gives every variable a value. It is feasible for a model when every
  declared variable lies in its domain, every constraint holds and every fixed
  variable has the value it was fixed at. The objectives play no part.
\<close>

definition feasible :: "model \<Rightarrow> (var \<Rightarrow> real) \<Rightarrow> bool" where
  "feasible m \<rho> \<longleftrightarrow>
     list_all (\<lambda>(v, d). in_domain d (\<rho> v)) (model_vars m) \<and>
     list_all (\<lambda>(c, r). holds \<rho> r) (model_constraints m) \<and>
     list_all (\<lambda>(v, c). \<rho> v = c) (model_fixed m)"

text \<open>
  \<^verbatim>\<open>
  for key in model.x:
      model.x[key].fix(model.x[key].value)
  model.obj_min_budget.deactivate()
  def obj_max_flow(model):
      return sum(model.y[model.t, model.s, scenario] for scenario in model.scenarios)
          / num_scenarios
  model.obj_max_flow = penv.Objective(sense=penv.maximize, rule=obj_max_flow)
  \<close>
  After a successful first solve the variables carry the solver's point \<open>\<rho>\<close>.
\<close>

definition fix_x :: "(var \<Rightarrow> real) \<Rightarrow> model \<Rightarrow> model" where
  "fix_x \<rho> m =
     m\<lparr>model_fixed := model_fixed m @ map (\<lambda>(n, m'). (X n m', \<rho> (X n m'))) (model_edges m)\<rparr>"

definition deactivate :: "objname \<Rightarrow> model \<Rightarrow> model" where
  "deactivate name m =
     m\<lparr>model_objectives :=
         map (\<lambda>ob. if obj_name ob = name then ob\<lparr>obj_active := False\<rparr> else ob)
           (model_objectives m)\<rparr>"

definition obj_max_flow :: "config \<Rightarrow> model \<Rightarrow> error + expr" where
  "obj_max_flow cfg mdl =
     andthen (py_sum (\<lambda>scenario. var_getitem mdl (Y (model_t mdl) (model_s mdl) scenario))
                (model_scenarios mdl)) (\<lambda>total.
     truediv total (real (num_scenarios cfg)))"

definition phase2 :: "config \<Rightarrow> (var \<Rightarrow> real) \<Rightarrow> model \<Rightarrow> error + model" where
  "phase2 cfg \<rho> mdl =
     (let m1 = fix_x \<rho> mdl;
          m2 = deactivate Obj_min_budget m1
      in Objective Obj_max_flow maximize (obj_max_flow cfg m2) m2)"

subsection \<open>Predicates used in the proofs\<close>

text \<open>
  \<open>shifted g0 g\<close>: the generator \<open>g\<close> is \<open>g0\<close> after some number of draws.
  \<open>entry_ok\<close>: a table value is what the comprehension computes for its edge,
  the capacity itself for the pair (source, sink) and a draw below the capacity
  otherwise. \<open>capacities_ok\<close>: every listed edge has a capacity, and it is not
  negative unless the edge is the pair (source, sink).
\<close>

definition shifted :: "rng \<Rightarrow> rng \<Rightarrow> bool" where
  "shifted g0 g \<longleftrightarrow> (\<exists>n. g = (\<lambda>i. g0 (i + n)))"

definition entry_ok :: "config \<Rightarrow> rng \<Rightarrow> edge \<Rightarrow> int \<Rightarrow> bool" where
  "entry_ok cfg g0 e v \<longleftrightarrow>
     (\<exists>c. map_of (edges cfg) e = Some c \<and>
        (if e = (source cfg, sink cfg) then v = c
         else 0 \<le> c \<and> (\<exists>k. v = int (g0 k mod nat (c + 1)))))"

definition table_ok :: "config \<Rightarrow> rng \<Rightarrow> xi_table \<Rightarrow> bool" where
  "table_ok cfg g0 tbl \<longleftrightarrow>
     (\<forall>n m sc v. map_of tbl (n, m, sc) = Some v \<longrightarrow> entry_ok cfg g0 (n, m) v)"

definition capacities_ok :: "config \<Rightarrow> edge list \<Rightarrow> bool" where
  "capacities_ok cfg es \<longleftrightarrow>
     list_all (\<lambda>e. case map_of (edges cfg) e of
                     None \<Rightarrow> False
                   | Some c \<Rightarrow> e = (source cfg, sink cfg) \<or> 0 \<le> c) es"




subsection \<open>Closed forms of the assembled components\<close>

text \<open>
  What each cell adds, written without the exceptions: the sum of a list of
  variables as Python's \<^verbatim>\<open>sum\<close> builds it, the relation each rule returns at an
  index, and the variables and constraints of each cell. The lemmas of the later
  sections show that a cell that returns a model has added exactly these.
\<close>

definition sum_vars :: "var list \<Rightarrow> expr" where
  "sum_vars vs = foldl Plus (Num 0) (map V vs)"

definition flow_balance_rel :: "edge list \<Rightarrow> node \<times> nat \<Rightarrow> rel" where
  "flow_balance_rel es = (\<lambda>(node, sc).
     EQ (sum_vars (map (\<lambda>(n, m). Y n m sc) (filter (\<lambda>(n, m). m = node) es)))
        (sum_vars (map (\<lambda>(n, m). Y n m sc) (filter (\<lambda>(n, m). n = node) es))))"

definition max_flow_capacity_rel :: "(edge \<times> int) list \<Rightarrow> edge \<times> nat \<Rightarrow> rel" where
  "max_flow_capacity_rel caps = (\<lambda>((n, m), sc).
     LE (V (Y n m sc)) (Num (real_of_int (the (map_of caps (n, m))))))"

definition eff_flow_capacity_rel :: "xi_table \<Rightarrow> edge \<times> nat \<Rightarrow> rel" where
  "eff_flow_capacity_rel tbl = (\<lambda>((n, m), sc).
     LE (V (Y n m sc)) (Plus (Num (real_of_int (the (map_of tbl (n, m, sc))))) (V (X n m))))"

definition core_vars :: "config \<Rightarrow> (var \<times> domain) list" where
  "core_vars cfg =
     map (\<lambda>(n, m). (X n m, NonNegativeReals)) (map fst (edges cfg)) @
     map (\<lambda>((n, m), sc). (Y n m sc, NonNegativeReals))
       (List.product (map fst (edges cfg)) [0..<num_scenarios cfg])"

definition core_constraints :: "config \<Rightarrow> xi_table \<Rightarrow> (con \<times> rel) list" where
  "core_constraints cfg tbl =
     map (\<lambda>(node, sc). (Con_flow_balance node sc, flow_balance_rel (map fst (edges cfg)) (node, sc)))
       (List.product (nodes cfg) [0..<num_scenarios cfg]) @
     map (\<lambda>((n, m), sc). (Con_max_flow_capacity n m sc, max_flow_capacity_rel (edges cfg) ((n, m), sc)))
       (List.product (map fst (edges cfg)) [0..<num_scenarios cfg]) @
     map (\<lambda>((n, m), sc). (Con_eff_flow_capacity n m sc, eff_flow_capacity_rel tbl ((n, m), sc)))
       (List.product (map fst (edges cfg)) [0..<num_scenarios cfg])"

definition budget_objective :: "config \<Rightarrow> objective" where
  "budget_objective cfg =
     \<lparr>obj_name = Obj_min_budget, obj_sense = minimize,
      obj_expr = sum_vars (map (\<lambda>(n, m). X n m) (map fst (edges cfg))),
      obj_active = True\<rparr>"

definition indicator_rel :: "config \<Rightarrow> model \<Rightarrow> nat \<times> nat \<Rightarrow> rel" where
  "indicator_rel cfg m = (\<lambda>(sc, i).
     LE (V (Indicator sc i))
        (Over (V (Y (model_t m) (model_s m) sc)) (perf_thresholds cfg ! i)))"

definition type1_rel :: "config \<Rightarrow> model \<Rightarrow> nat \<Rightarrow> rel" where
  "type1_rel cfg m i =
     GE (Over (sum_vars (map (\<lambda>sc. Indicator sc i) (model_scenarios m)))
              (real (num_scenarios cfg)))
        (Num (alpha_thresholds cfg ! i))"

definition indicator_vars :: "config \<Rightarrow> model \<Rightarrow> (var \<times> domain) list" where
  "indicator_vars cfg m =
     map (\<lambda>(sc, i). (Indicator sc i, Binary))
       (List.product (model_scenarios m) [0..<length (perf_thresholds cfg)])"

definition type1_constraints :: "config \<Rightarrow> model \<Rightarrow> (con \<times> rel) list" where
  "type1_constraints cfg m =
     map (\<lambda>(sc, i). (Con_indicator sc i, indicator_rel cfg m (sc, i)))
       (List.product (model_scenarios m) [0..<length (perf_thresholds cfg)]) @
     map (\<lambda>i. (Con_type1_service_level i, type1_rel cfg m i))
       [0..<length (perf_thresholds cfg)]"

definition type2_rel :: "config \<Rightarrow> model \<Rightarrow> rel" where
  "type2_rel cfg m =
     GE (Over (sum_vars (map (\<lambda>sc. Y (model_t m) (model_s m) sc) (model_scenarios m)))
              (real (num_scenarios cfg)))
        (Num (perf_target cfg * beta_threshold cfg))"

definition cvar_main_rel :: "config \<Rightarrow> model \<Rightarrow> nat \<Rightarrow> rel" where
  "cvar_main_rel cfg m i =
     LE (Plus (V (Cvar_beta i))
              (Over (sum_vars (map (\<lambda>sc. Cvar_nu sc i) (model_scenarios m)))
                    (real (num_scenarios cfg) * cvar_epsilons cfg ! i)))
        (Num (cvar_thresholds cfg ! i))"

definition cvar_aux_rel :: "config \<Rightarrow> model \<Rightarrow> nat \<times> nat \<Rightarrow> rel" where
  "cvar_aux_rel cfg m = (\<lambda>(sc, i).
     GE (V (Cvar_nu sc i))
        (Minus (Minus (Num (perf_target cfg)) (V (Y (model_t m) (model_s m) sc)))
               (V (Cvar_beta i))))"

definition cvar_vars :: "config \<Rightarrow> model \<Rightarrow> (var \<times> domain) list" where
  "cvar_vars cfg m =
     map (\<lambda>i. (Cvar_beta i, Reals)) [0..<length (cvar_thresholds cfg)] @
     map (\<lambda>(sc, i). (Cvar_nu sc i, NonNegativeReals))
       (List.product (model_scenarios m) [0..<length (cvar_thresholds cfg)])"

definition cvar_constraints :: "config \<Rightarrow> model \<Rightarrow> (con \<times> rel) list" where
  "cvar_constraints cfg m =
     map (\<lambda>i. (Con_cvar_main i, cvar_main_rel cfg m i)) [0..<length (cvar_thresholds cfg)] @
     map (\<lambda>(sc, i). (Con_cvar_aux sc i, cvar_aux_rel cfg m (sc, i)))
       (List.product (model_scenarios m) [0..<length (cvar_thresholds cfg)])"

subsection \<open>Two small configurations\<close>

text \<open>
  A network of two nodes with the edge (0, 1) and its return edge (1, 0), one
  scenario and one constraint of each family; a point of its model; and the same
  network with a third edge (1, 2) whose head is not in the node list.
\<close>

definition tiny :: config where
  "tiny = \<lparr>
     nodes = [0, 1],
     edges = [((0, 1), 5), ((1, 0), 9)],
     source = 0,
     sink = 1,
     num_scenarios = 1,
     perf_thresholds = [2],
     alpha_thresholds = [1],
     perf_target = 3,
     beta_threshold = 0.5,
     cvar_thresholds = [2],
     cvar_epsilons = [0.5] \<rparr>"

definition tiny_point :: "var \<Rightarrow> real" where
  "tiny_point v =
     (case v of X n m \<Rightarrow> 0 | Y n m sc \<Rightarrow> 3 | Indicator sc i \<Rightarrow> 1
      | Cvar_beta i \<Rightarrow> 0 | Cvar_nu sc i \<Rightarrow> 0)"

definition stray :: config where
  "stray = \<lparr>
     nodes = [0, 1],
     edges = [((0, 1), 5), ((1, 0), 9), ((1, 2), 4)],
     source = 0,
     sink = 1,
     num_scenarios = 1,
     perf_thresholds = [2],
     alpha_thresholds = [1],
     perf_target = 3,
     beta_threshold = 0.5,
     cvar_thresholds = [2],
     cvar_epsilons = [0.5] \<rparr>"

subsection \<open>The example network: a point and a side condition\<close>

text \<open>
  \<open>well_formed\<close> collects what the cells need in order not to raise: capacities
  that \<open>randint\<close> accepts, at least one scenario, an edge at every listed node,
  the return edge (sink, source) among the edges, performance thresholds and
  CVaR levels other than 0, and threshold lists long enough. \<open>example_point\<close> is
  a point of the example model: a flow of 23 through the network, every
  reinforcement at 99, every indicator at 1 and the CVaR variables at 0.
\<close>

definition well_formed :: "config \<Rightarrow> bool" where
  "well_formed cfg \<longleftrightarrow>
     capacities_ok cfg (map fst (edges cfg)) \<and>
     0 < num_scenarios cfg \<and>
     list_all (\<lambda>node. list_ex (\<lambda>(n, m). m = node \<or> n = node) (map fst (edges cfg))) (nodes cfg) \<and>
     (sink cfg, source cfg) \<in> set (map fst (edges cfg)) \<and>
     list_all (\<lambda>b. b \<noteq> 0) (perf_thresholds cfg) \<and>
     length (perf_thresholds cfg) \<le> length (alpha_thresholds cfg) \<and>
     list_all (\<lambda>e. e \<noteq> 0) (cvar_epsilons cfg) \<and>
     length (cvar_thresholds cfg) \<le> length (cvar_epsilons cfg)"

definition example_flow :: "(edge \<times> real) list" where
  "example_flow = [((0, 1), 12), ((0, 2), 11), ((1, 3), 12), ((2, 4), 11),
                   ((4, 3), 7), ((4, 5), 4), ((3, 5), 19), ((5, 0), 23)]"

definition example_point :: "var \<Rightarrow> real" where
  "example_point v =
     (case v of
        X n m \<Rightarrow> 99
      | Y n m sc \<Rightarrow> (case map_of example_flow (n, m) of Some f \<Rightarrow> f | None \<Rightarrow> 0)
      | Indicator sc i \<Rightarrow> 1
      | Cvar_beta i \<Rightarrow> 0
      | Cvar_nu sc i \<Rightarrow> 0)"

section \<open>Properties of the scenario table\<close>

lemma getitem_Inr_iff: "getitem d k = Inr c \<longleftrightarrow> map_of d k = Some c"
  by (simp add: getitem_def split: option.splits)

lemma randint_range:
  assumes "randint g a b = Inr (v, g')"
  shows "a \<le> v \<and> v \<le> b"
proof -
  from assms have ab: "a \<le> b" and v: "v = a + int (g 0 mod nat (b - a + 1))"
    by (auto simp: randint_def split: if_splits)
  have "g 0 mod nat (b - a + 1) < nat (b - a + 1)"
    using ab by (intro mod_less_divisor) simp
  then show ?thesis using ab v by linarith
qed

lemma randint_onto:
  assumes "a \<le> v" "v \<le> b"
  shows "randint (\<lambda>_. nat (v - a)) a b = Inr (v, \<lambda>_. nat (v - a))"
  using assms by (simp add: randint_def)

lemma xi_value_ok:
  assumes "xi_value cfg e g = Inr (v, g')" "shifted g0 g"
  shows "entry_ok cfg g0 e v \<and> shifted g0 g'"
proof -
  from assms(2) obtain n where g: "g = (\<lambda>i. g0 (i + n))" by (auto simp: shifted_def)
  show ?thesis
  proof (cases "e = (source cfg, sink cfg)")
    case True
    with assms show ?thesis
      by (auto simp: xi_value_def entry_ok_def getitem_Inr_iff split: sum.splits)
  next
    case False
    with assms(1) obtain c where c: "map_of (edges cfg) e = Some c"
      and r: "randint g 0 c = Inr (v, g')"
      by (auto simp: xi_value_def getitem_Inr_iff split: sum.splits)
    from r have c0: "0 \<le> c" and v: "v = int (g 0 mod nat (c + 1))"
      and g': "g' = (\<lambda>i. g (Suc i))"
      by (auto simp: randint_def split: if_splits)
    have "shifted g0 g'" unfolding shifted_def g' g by (rule exI[of _ "Suc n"]) simp
    moreover have "entry_ok cfg g0 e v"
      unfolding entry_ok_def using False c c0 v g by auto
    ultimately show ?thesis by simp
  qed
qed

lemma xi_scenarios_ok:
  "xi_scenarios cfg e scs st = Inr st' \<Longrightarrow> table_ok cfg g0 (fst st) \<Longrightarrow> shifted g0 (snd st)
   \<Longrightarrow> table_ok cfg g0 (fst st') \<and> shifted g0 (snd st')"
proof (induction scs arbitrary: st)
  case Nil
  then show ?case by simp
next
  case (Cons sc scs)
  from Cons.prems(1) obtain v g' where
    xv: "xi_value cfg e (snd st) = Inr (v, g')" and
    rest: "xi_scenarios cfg e scs (AList.update (fst e, snd e, sc) v (fst st), g') = Inr st'"
    by (auto split: sum.splits)
  from xi_value_ok[OF xv Cons.prems(3)] have ev: "entry_ok cfg g0 e v" and sh: "shifted g0 g'"
    by simp_all
  have "table_ok cfg g0 (AList.update (fst e, snd e, sc) v (fst st))"
    using Cons.prems(2) ev
    by (auto simp: table_ok_def update_conv' split: if_splits)
  with Cons.IH[OF rest] sh show ?case by simp
qed

lemma xi_edges_ok:
  "xi_edges cfg es st = Inr st' \<Longrightarrow> table_ok cfg g0 (fst st) \<Longrightarrow> shifted g0 (snd st)
   \<Longrightarrow> table_ok cfg g0 (fst st') \<and> shifted g0 (snd st')"
proof (induction es arbitrary: st)
  case Nil
  then show ?case by simp
next
  case (Cons e es)
  from Cons.prems(1) obtain st1 where
    a: "xi_scenarios cfg e [0..<num_scenarios cfg] st = Inr st1" and
    b: "xi_edges cfg es st1 = Inr st'"
    by (auto split: sum.splits)
  from xi_scenarios_ok[OF a Cons.prems(2,3)] Cons.IH[OF b] show ?case by simp
qed

lemma xi_table_ok:
  assumes "xi g cfg = Inr (tbl, g')"
  shows "table_ok cfg g tbl"
proof -
  have "table_ok cfg g (fst ([], g))" by (simp add: table_ok_def)
  moreover have "shifted g (snd ([], g))" unfolding shifted_def by (rule exI[of _ 0]) simp
  ultimately show ?thesis
    using xi_edges_ok[of cfg "map fst (edges cfg)" "([], g)" "(tbl, g')" g] assms
    by (simp add: xi_def)
qed

lemma xi_scenarios_keys:
  "xi_scenarios cfg e scs st = Inr st' \<Longrightarrow>
   fst ` set (fst st') = fst ` set (fst st) \<union> (\<lambda>sc. (fst e, snd e, sc)) ` set scs
   \<and> (distinct (map fst (fst st)) \<longrightarrow> distinct (map fst (fst st')))"
proof (induction scs arbitrary: st)
  case Nil
  then show ?case by simp
next
  case (Cons sc scs)
  from Cons.prems(1) obtain v g' where
    rest: "xi_scenarios cfg e scs (AList.update (fst e, snd e, sc) v (fst st), g') = Inr st'"
    by (auto split: sum.splits)
  from Cons.IH[OF rest] show ?case
    by (auto simp: dom_update distinct_update)
qed

lemma xi_edges_keys:
  "xi_edges cfg es st = Inr st' \<Longrightarrow>
   fst ` set (fst st') =
     fst ` set (fst st) \<union> {(n, m, sc). (n, m) \<in> set es \<and> sc < num_scenarios cfg}
   \<and> (distinct (map fst (fst st)) \<longrightarrow> distinct (map fst (fst st')))"
proof (induction es arbitrary: st)
  case Nil
  then show ?case by simp
next
  case (Cons e es)
  from Cons.prems(1) obtain st1 where
    a: "xi_scenarios cfg e [0..<num_scenarios cfg] st = Inr st1" and
    b: "xi_edges cfg es st1 = Inr st'"
    by (auto split: sum.splits)
  from xi_scenarios_keys[OF a] Cons.IH[OF b] show ?case
    by (cases e) auto
qed

lemma xi_keys:
  assumes "xi g cfg = Inr (tbl, g')"
  shows "fst ` set tbl = {(n, m, sc). (n, m) \<in> fst ` set (edges cfg) \<and> sc < num_scenarios cfg}"
    and "distinct (map fst tbl)"
  using xi_edges_keys[of cfg "map fst (edges cfg)" "([], g)" "(tbl, g')"] assms
  by (simp_all add: xi_def)

lemma xi_value_total:
  "map_of (edges cfg) e = Some c \<Longrightarrow> e = (source cfg, sink cfg) \<or> 0 \<le> c
   \<Longrightarrow> \<exists>v g'. xi_value cfg e g = Inr (v, g')"
  by (auto simp: xi_value_def getitem_def randint_def)

lemma xi_scenarios_total:
  "map_of (edges cfg) e = Some c \<Longrightarrow> e = (source cfg, sink cfg) \<or> 0 \<le> c
   \<Longrightarrow> \<exists>st'. xi_scenarios cfg e scs st = Inr st'"
proof (induction scs arbitrary: st)
  case Nil
  then show ?case by simp
next
  case (Cons sc scs)
  from xi_value_total[OF Cons.prems, of "snd st"] obtain v g' where
    "xi_value cfg e (snd st) = Inr (v, g')" by blast
  with Cons.IH[OF Cons.prems] show ?case by simp
qed

lemma xi_edges_total:
  "capacities_ok cfg es \<Longrightarrow> \<exists>st'. xi_edges cfg es st = Inr st'"
proof (induction es arbitrary: st)
  case Nil
  then show ?case by simp
next
  case (Cons e es)
  from Cons.prems obtain c where c: "map_of (edges cfg) e = Some c"
    "e = (source cfg, sink cfg) \<or> 0 \<le> c"
    by (auto simp: capacities_ok_def split: option.splits)
  from xi_scenarios_total[OF c] obtain st1 where
    "xi_scenarios cfg e [0..<num_scenarios cfg] st = Inr st1" by blast
  moreover from Cons.prems have "capacities_ok cfg es" by (simp add: capacities_ok_def)
  ultimately show ?case using Cons.IH[of st1] by simp
qed

lemma xi_total:
  assumes "capacities_ok cfg (map fst (edges cfg))"
  shows "\<exists>tbl g'. xi g cfg = Inr (tbl, g')"
  using xi_edges_total[OF assms, of "([], g)"] by (auto simp: xi_def)

lemma xi_entry:
  assumes "xi g cfg = Inr (tbl, g')" "(n, m) \<in> fst ` set (edges cfg)" "sc < num_scenarios cfg"
  shows "\<exists>v. map_of tbl (n, m, sc) = Some v \<and> entry_ok cfg g (n, m) v"
proof -
  from xi_keys(1)[OF assms(1)] assms(2,3) have "(n, m, sc) \<in> fst ` set tbl" by blast
  then obtain v where v: "map_of tbl (n, m, sc) = Some v"
    by (cases "map_of tbl (n, m, sc)") (auto simp: map_of_eq_None_iff)
  with xi_table_ok[OF assms(1)] show ?thesis by (auto simp: table_ok_def)
qed


lemma example_capacities_ok: "capacities_ok example (map fst (edges example))"
  by (simp add: capacities_ok_def example_def)

subsection \<open>The position of every draw\<close>










text \<open>
  C10. On the example network the pair (source, sink) = (0, 5) is not a key of
  the capacity dictionary (reading it raises KeyError), no listed edge equals
  it, and still the table is built without an exception for every generator
  state: its keys are pairwise distinct and are exactly the triples of a listed
  edge and a scenario below \<open>num_scenarios\<close>, so each such pair has one integer
  value.
\<close>

theorem xi_example_total:
  "getitem (edges example) (source example, sink example) = Inl KeyError \<and>
   (source example, sink example) \<notin> fst ` set (edges example) \<and>
   (\<exists>tbl g'. xi g example = Inr (tbl, g') \<and> distinct (map fst tbl) \<and>
      fst ` set tbl =
        {(n, m, sc). (n, m) \<in> fst ` set (edges example) \<and> sc < num_scenarios example})"
proof -
  from xi_total[OF example_capacities_ok, of g] obtain tbl g' where
    x: "xi g example = Inr (tbl, g')" by blast
  have "getitem (edges example) (source example, sink example) = Inl KeyError"
    by (simp add: example_def getitem_def)
  moreover have "(source example, sink example) \<notin> fst ` set (edges example)"
    by (simp add: example_def)
  ultimately show ?thesis using x xi_keys[OF x] by blast
qed

theorem xi_example_total_witness:
  "\<exists>tbl g'. xi (\<lambda>_. 0) example = Inr (tbl, g') \<and> distinct (map fst tbl) \<and>
     (5, 0, 42) \<in> fst ` set tbl"
proof -
  from xi_example_total[of "\<lambda>_. 0"] obtain tbl g' where
    x: "xi (\<lambda>_. 0) example = Inr (tbl, g')" and d: "distinct (map fst tbl)" and
    k: "fst ` set tbl =
        {(n, m, sc). (n, m) \<in> fst ` set (edges example) \<and> sc < num_scenarios example}"
    by blast
  have "(5, 0) \<in> fst ` set (edges example)" "42 < num_scenarios example"
    by (simp_all add: example_def)
  with k have "(5, 0, 42) \<in> fst ` set tbl" by blast
  with x d show ?thesis by blast
qed

text \<open>
  C1. The claim asks that the return edge (5, 0) of the example network keeps
  its capacity 99 in every scenario. The comprehension tests the iterated edge
  against the pair (source, sink) = (0, 5), so for the edge (5, 0) it takes the
  random branch: for every generator state each entry of the edge is a raw draw
  reduced modulo 100, the value of \<open>randint 0 99\<close>, and with a generator whose
  draws are all 0 the entry of scenario 0 is 0, not 99.
\<close>

theorem xi_return_edge_is_drawn:
  "(\<forall>g. \<exists>tbl g'. xi g example = Inr (tbl, g') \<and>
      (\<forall>sc<num_scenarios example. \<exists>k. map_of tbl (5, 0, sc) = Some (int (g k mod 100)))) \<and>
   (\<forall>g. xi_value example (5, 0) g = randint g 0 99) \<and>
   (\<exists>tbl g'. xi (\<lambda>_. 0) example = Inr (tbl, g') \<and> map_of tbl (5, 0, 0) = Some 0) \<and>
   map_of (edges example) (5, 0) = Some 99"
proof -
  have ne: "((5, 0) :: edge) \<noteq> (source example, sink example)" by (simp add: example_def)
  have key: "(5, 0) \<in> fst ` set (edges example)" by (simp add: example_def)
  have cap: "map_of (edges example) (5, 0) = Some 99" by (simp add: example_def)
  have drawn: "\<exists>tbl g'. xi g example = Inr (tbl, g') \<and>
      (\<forall>sc<num_scenarios example. \<exists>k. map_of tbl (5, 0, sc) = Some (int (g k mod 100)))" for g
  proof -
    from xi_total[OF example_capacities_ok, of g] obtain tbl g' where
      x: "xi g example = Inr (tbl, g')" by blast
    have "\<exists>k. map_of tbl (5, 0, sc) = Some (int (g k mod 100))"
      if "sc < num_scenarios example" for sc
    proof -
      from xi_entry[OF x key that] obtain v where v: "map_of tbl (5, 0, sc) = Some v"
        and ok: "entry_ok example g (5, 0) v" by blast
      from ok ne cap obtain k where "v = int (g k mod 100)" by (auto simp: entry_ok_def)
      with v show ?thesis by blast
    qed
    with x show ?thesis by blast
  qed
  have a: "\<forall>g. xi_value example (5, 0) g = randint g 0 99"
    by (simp add: xi_value_def example_def getitem_def)
  from drawn[of "\<lambda>_. 0"] obtain tbl g' where x: "xi (\<lambda>_. 0) example = Inr (tbl, g')"
    and d: "\<forall>sc<num_scenarios example. \<exists>k. map_of tbl (5, 0, sc) = Some (int ((\<lambda>_. 0) k mod 100))"
    by blast
  have "0 < num_scenarios example" by (simp add: example_def)
  with d have "map_of tbl (5, 0, 0) = Some 0" by auto
  with x have z: "\<exists>tbl g'. xi (\<lambda>_. 0) example = Inr (tbl, g') \<and> map_of tbl (5, 0, 0) = Some 0"
    by blast
  from drawn a z cap show ?thesis by blast
qed

theorem xi_return_edge_is_drawn_witness:
  "\<exists>tbl g'. xi (\<lambda>_. 7) example = Inr (tbl, g') \<and> map_of tbl (5, 0, 42) = Some 7 \<and>
     map_of (edges example) (5, 0) = Some 99"
proof -
  from xi_return_edge_is_drawn obtain tbl g' where
    x: "xi (\<lambda>_. 7) example = Inr (tbl, g')" and
    d: "\<forall>sc<num_scenarios example. \<exists>k. map_of tbl (5, 0, sc) = Some (int ((\<lambda>_. 7) k mod 100))"
    and c: "map_of (edges example) (5, 0) = Some 99"
    by blast
  have "42 < num_scenarios example" by (simp add: example_def)
  with d have "map_of tbl (5, 0, 42) = Some 7" by auto
  with x c show ?thesis by blast
qed

section \<open>Exceptions, sums and constraint construction\<close>

lemma andthen_simps [simp]:
  "andthen (Inl err) f = Inl err" "andthen (Inr a) f = f a"
  by (simp_all add: andthen_def)

lemma andthen_Inr_iff: "andthen r f = Inr b \<longleftrightarrow> (\<exists>a. r = Inr a \<and> f a = Inr b)"
  by (cases r) simp_all

lemma list_getitem_Inr: "list_getitem xs i = Inr a \<longleftrightarrow> i < length xs \<and> a = xs ! i"
  by (auto simp: list_getitem_def)

lemma truediv_Inr: "truediv a c = Inr e \<longleftrightarrow> c \<noteq> 0 \<and> e = Over a c"
  by (auto simp: truediv_def)

lemma collect_Inr:
  "collect f idx = Inr res \<Longrightarrow> (\<And>i a. i \<in> set idx \<Longrightarrow> f i = Inr a \<Longrightarrow> a = h i)
   \<Longrightarrow> res = map (\<lambda>i. (i, h i)) idx \<and> (\<forall>i\<in>set idx. f i = Inr (h i))"
proof (induction idx arbitrary: res)
  case Nil
  then show ?case by simp
next
  case (Cons i idx)
  from Cons.prems(1) obtain a rest where a: "f i = Inr a" and r: "collect f idx = Inr rest"
    and res: "res = (i, a) # rest"
    by (auto split: sum.splits)
  from Cons.prems(2)[of i a] a have "a = h i" by simp
  moreover have "rest = map (\<lambda>i. (i, h i)) idx \<and> (\<forall>i\<in>set idx. f i = Inr (h i))"
  proof (rule Cons.IH[OF r])
    fix j b assume "j \<in> set idx" "f j = Inr b"
    then show "b = h j" using Cons.prems(2)[of j b] by simp
  qed
  ultimately show ?case using a res by simp
qed

lemma collect_total:
  "(\<And>i. i \<in> set idx \<Longrightarrow> f i = Inr (h i)) \<Longrightarrow> collect f idx = Inr (map (\<lambda>i. (i, h i)) idx)"
  by (induction idx) simp_all

lemma sum_from_Inr:
  "sum_from acc f idx = Inr e \<Longrightarrow> (\<And>i a. i \<in> set idx \<Longrightarrow> f i = Inr a \<Longrightarrow> a = h i)
   \<Longrightarrow> e = foldl Plus acc (map h idx) \<and> (\<forall>i\<in>set idx. f i = Inr (h i))"
proof (induction idx arbitrary: acc)
  case Nil
  then show ?case by simp
next
  case (Cons i idx)
  from Cons.prems(1) obtain a where a: "f i = Inr a"
    and r: "sum_from (Plus acc a) f idx = Inr e"
    by (auto split: sum.splits)
  from Cons.prems(2)[of i a] a have "a = h i" by simp
  moreover have "e = foldl Plus (Plus acc a) (map h idx) \<and> (\<forall>i\<in>set idx. f i = Inr (h i))"
  proof (rule Cons.IH[OF r])
    fix j b assume "j \<in> set idx" "f j = Inr b"
    then show "b = h j" using Cons.prems(2)[of j b] by simp
  qed
  ultimately show ?case using a by simp
qed

lemma sum_from_total:
  "(\<And>i. i \<in> set idx \<Longrightarrow> f i = Inr (h i)) \<Longrightarrow> sum_from acc f idx = Inr (foldl Plus acc (map h idx))"
  by (induction idx arbitrary: acc) simp_all

lemma var_getitem_Inr: "var_getitem m v = Inr a \<longleftrightarrow> a = V v \<and> v \<in> fst ` set (model_vars m)"
  by (auto simp: var_getitem_def)

lemma py_sum_vars_Inr:
  assumes "py_sum (\<lambda>i. var_getitem m (f i)) idx = Inr e"
  shows "e = sum_vars (map f idx) \<and> (\<forall>i\<in>set idx. f i \<in> fst ` set (model_vars m))"
proof -
  from assms have s: "sum_from (Num 0) (\<lambda>i. var_getitem m (f i)) idx = Inr e"
    by (simp add: py_sum_def)
  have "e = foldl Plus (Num 0) (map (\<lambda>i. V (f i)) idx)
        \<and> (\<forall>i\<in>set idx. var_getitem m (f i) = Inr (V (f i)))"
  proof (rule sum_from_Inr[OF s])
    fix i a assume "i \<in> set idx" "var_getitem m (f i) = Inr a"
    then show "a = V (f i)" by (simp add: var_getitem_Inr)
  qed
  then show ?thesis by (simp add: sum_vars_def var_getitem_Inr comp_def)
qed

lemma py_sum_vars_total:
  assumes "\<And>i. i \<in> set idx \<Longrightarrow> f i \<in> fst ` set (model_vars m)"
  shows "py_sum (\<lambda>i. var_getitem m (f i)) idx = Inr (sum_vars (map f idx))"
proof -
  have "sum_from (Num 0) (\<lambda>i. var_getitem m (f i)) idx = Inr (foldl Plus (Num 0) (map (\<lambda>i. V (f i)) idx))"
    by (rule sum_from_total) (use assms in \<open>simp add: var_getitem_Inr\<close>)
  then show ?thesis by (simp add: py_sum_def sum_vars_def comp_def)
qed

lemma eval_foldl_Plus: "eval \<rho> (foldl Plus acc es) = eval \<rho> acc + sum_list (map (eval \<rho>) es)"
  by (induction es arbitrary: acc) simp_all

lemma eval_sum_vars: "eval \<rho> (sum_vars vs) = sum_list (map \<rho> vs)"
  by (simp add: sum_vars_def eval_foldl_Plus comp_def)

lemma is_const_foldl_Plus: "is_const (foldl Plus acc es) \<longleftrightarrow> is_const acc \<and> (\<forall>e\<in>set es. is_const e)"
  by (induction es arbitrary: acc) auto

lemma is_const_sum_vars: "is_const (sum_vars vs) \<longleftrightarrow> vs = []"
  by (auto simp: sum_vars_def is_const_foldl_Plus)

lemma sum_list_scenarios: "sum_list (map f [0..<n]) = (\<Sum>sc<n. f sc)"
  by (simp add: sum_list_distinct_conv_sum_set atLeast0LessThan)

lemma checked_Inr: "checked r = Inr c \<longleftrightarrow> r = Inr c \<and> \<not> trivial c"
  by (cases r) (auto simp: checked_def)

lemma Constraint_Inr:
  assumes "Constraint name idx rule m = Inr m'"
    and "\<forall>i\<in>set idx. \<forall>r. rule i = Inr r \<longrightarrow> r = h i"
  shows "m' = m\<lparr>model_constraints := model_constraints m @ map (\<lambda>i. (name i, h i)) idx\<rparr>"
    and "\<forall>i\<in>set idx. rule i = Inr (h i) \<and> \<not> trivial (h i)"
proof -
  from assms(1) obtain cs where cs: "collect (\<lambda>i. checked (rule i)) idx = Inr cs"
    and m': "m' = m\<lparr>model_constraints := model_constraints m @ map (\<lambda>(i, c). (name i, c)) cs\<rparr>"
    by (auto simp: Constraint_def andthen_Inr_iff)
  have "cs = map (\<lambda>i. (i, h i)) idx \<and> (\<forall>i\<in>set idx. checked (rule i) = Inr (h i))"
  proof (rule collect_Inr[OF cs])
    fix i c assume "i \<in> set idx" "checked (rule i) = Inr c"
    then show "c = h i" using assms(2) by (simp add: checked_Inr)
  qed
  then have a: "cs = map (\<lambda>i. (i, h i)) idx" and b: "\<forall>i\<in>set idx. checked (rule i) = Inr (h i)"
    by simp_all
  from a m' show "m' = m\<lparr>model_constraints := model_constraints m @ map (\<lambda>i. (name i, h i)) idx\<rparr>"
    by (simp add: comp_def)
  from b show "\<forall>i\<in>set idx. rule i = Inr (h i) \<and> \<not> trivial (h i)"
    by (simp add: checked_Inr)
qed

lemma Constraint_total:
  assumes "\<And>i. i \<in> set idx \<Longrightarrow> rule i = Inr (h i) \<and> \<not> trivial (h i)"
  shows "Constraint name idx rule m =
         Inr (m\<lparr>model_constraints := model_constraints m @ map (\<lambda>i. (name i, h i)) idx\<rparr>)"
proof -
  have "collect (\<lambda>i. checked (rule i)) idx = Inr (map (\<lambda>i. (i, h i)) idx)"
    by (rule collect_total) (use assms in \<open>simp add: checked_Inr\<close>)
  then show ?thesis by (simp add: Constraint_def comp_def)
qed

lemma Objective_Inr:
  "Objective name sns rule m = Inr m' \<longleftrightarrow>
     (\<exists>e. rule = Inr e \<and> m' = m\<lparr>model_objectives := model_objectives m @
        [\<lparr>obj_name = name, obj_sense = sns, obj_expr = e, obj_active = True\<rparr>]\<rparr>)"
  by (auto simp: Objective_def andthen_Inr_iff)

lemma Var_fields [simp]:
  "model_nodes (Var vs d m) = model_nodes m"
  "model_edges (Var vs d m) = model_edges m"
  "model_scenarios (Var vs d m) = model_scenarios m"
  "model_s (Var vs d m) = model_s m"
  "model_t (Var vs d m) = model_t m"
  "model_flow_capacity (Var vs d m) = model_flow_capacity m"
  "model_xi (Var vs d m) = model_xi m"
  "model_type1_con_set (Var vs d m) = model_type1_con_set m"
  "model_cvar_con_set (Var vs d m) = model_cvar_con_set m"
  "model_vars (Var vs d m) = model_vars m @ map (\<lambda>v. (v, d)) vs"
  "model_fixed (Var vs d m) = model_fixed m"
  "model_constraints (Var vs d m) = model_constraints m"
  "model_objectives (Var vs d m) = model_objectives m"
  by (simp_all add: Var_def)

lemma product_Nil2: "List.product xs [] = []"
  by (induction xs) simp_all

section \<open>What a cell that succeeds has built\<close>

lemma con_flow_balance_Inr:
  assumes "con_flow_balance mdl (node, sc) = Inr r"
  shows "r = flow_balance_rel (model_edges mdl) (node, sc)"
proof -
  from assms obtain lhs rhs where
    l: "py_sum (\<lambda>e. var_getitem mdl (case e of (n, m) \<Rightarrow> Y n m sc))
          (filter (\<lambda>(n, m). m = node) (model_edges mdl)) = Inr lhs"
    and r: "py_sum (\<lambda>e. var_getitem mdl (case e of (n, m) \<Rightarrow> Y n m sc))
          (filter (\<lambda>(n, m). n = node) (model_edges mdl)) = Inr rhs"
    and e: "r = EQ lhs rhs"
    by (auto simp: con_flow_balance_def andthen_Inr_iff Let_def case_prod_unfold)
  from py_sum_vars_Inr[OF l] py_sum_vars_Inr[OF r] e show ?thesis
    by (simp add: flow_balance_rel_def)
qed

lemma con_max_flow_capacity_Inr:
  assumes "con_max_flow_capacity mdl ((n, m), sc) = Inr r"
  shows "r = max_flow_capacity_rel (model_flow_capacity mdl) ((n, m), sc)"
    "map_of (model_flow_capacity mdl) (n, m) \<noteq> None"
  using assms
  by (auto simp: con_max_flow_capacity_def andthen_Inr_iff var_getitem_Inr getitem_Inr_iff
      max_flow_capacity_rel_def)

lemma con_eff_flow_capacity_Inr:
  assumes "con_eff_flow_capacity mdl ((n, m), sc) = Inr r"
  shows "r = eff_flow_capacity_rel (model_xi mdl) ((n, m), sc)"
    "map_of (model_xi mdl) (n, m, sc) \<noteq> None"
  using assms
  by (auto simp: con_eff_flow_capacity_def andthen_Inr_iff var_getitem_Inr getitem_Inr_iff
      eff_flow_capacity_rel_def)

lemma core_model_Inr:
  assumes "core_model cfg tbl = Inr m'"
  shows "m' = \<lparr> model_nodes = nodes cfg,
                 model_edges = map fst (edges cfg),
                 model_scenarios = [0..<num_scenarios cfg],
                 model_s = source cfg,
                 model_t = sink cfg,
                 model_flow_capacity = edges cfg,
                 model_xi = tbl,
                 model_type1_con_set = [],
                 model_cvar_con_set = [],
                 model_vars = core_vars cfg,
                 model_fixed = [],
                 model_constraints = core_constraints cfg tbl,
                 model_objectives = [budget_objective cfg] \<rparr>"
    and "\<forall>n m sc. (n, m) \<in> fst ` set (edges cfg) \<longrightarrow> sc < num_scenarios cfg \<longrightarrow>
           map_of tbl (n, m, sc) \<noteq> None"
proof -
  define m0 where "m0 = \<lparr> model_nodes = nodes cfg,
                 model_edges = map fst (edges cfg),
                 model_scenarios = [0..<num_scenarios cfg],
                 model_s = source cfg,
                 model_t = sink cfg,
                 model_flow_capacity = edges cfg,
                 model_xi = tbl,
                 model_type1_con_set = [],
                 model_cvar_con_set = [],
                 model_vars = [],
                 model_fixed = [],
                 model_constraints = [],
                 model_objectives = [] \<rparr>"
  define m1 where "m1 = Var (map (\<lambda>(n, m). X n m) (model_edges m0)) NonNegativeReals m0"
  define m2 where "m2 = Var (map (\<lambda>((n, m), scenario). Y n m scenario)
                      (List.product (model_edges m1) (model_scenarios m1)))
                 NonNegativeReals m1"
  from assms obtain m3 m4 m5 where
    c1: "Constraint (\<lambda>(node, scenario). Con_flow_balance node scenario)
                    (List.product (model_nodes m2) (model_scenarios m2))
                    (con_flow_balance m2) m2 = Inr m3"
    and c2: "Constraint (\<lambda>((n, m), scenario). Con_max_flow_capacity n m scenario)
                    (List.product (model_edges m3) (model_scenarios m3))
                    (con_max_flow_capacity m3) m3 = Inr m4"
    and c3: "Constraint (\<lambda>((n, m), scenario). Con_eff_flow_capacity n m scenario)
                    (List.product (model_edges m4) (model_scenarios m4))
                    (con_eff_flow_capacity m4) m4 = Inr m5"
    and c4: "Objective Obj_min_budget minimize (obj_min_budget m5) m5 = Inr m'"
    unfolding core_model_def Let_def m0_def[symmetric] m1_def[symmetric] m2_def[symmetric]
    by (auto simp: andthen_Inr_iff)
  have f2: "model_nodes m2 = nodes cfg" "model_edges m2 = map fst (edges cfg)"
    "model_scenarios m2 = [0..<num_scenarios cfg]" "model_flow_capacity m2 = edges cfg"
    "model_xi m2 = tbl" "model_vars m2 = core_vars cfg" "model_constraints m2 = []"
    by (simp_all add: m2_def m1_def m0_def core_vars_def comp_def case_prod_unfold)
  have h1: "\<forall>i\<in>set (List.product (model_nodes m2) (model_scenarios m2)). \<forall>r. con_flow_balance m2 i = Inr r \<longrightarrow> r = flow_balance_rel (model_edges m2) i"
    using con_flow_balance_Inr by auto
  note k1 = Constraint_Inr[OF c1, of "flow_balance_rel (model_edges m2)", OF h1]
  have f3: "model_edges m3 = map fst (edges cfg)"
    "model_scenarios m3 = [0..<num_scenarios cfg]" "model_flow_capacity m3 = edges cfg"
    "model_xi m3 = tbl"
    using k1(1) f2 by simp_all
  have h2: "\<forall>i\<in>set (List.product (model_edges m3) (model_scenarios m3)). \<forall>r. con_max_flow_capacity m3 i = Inr r \<longrightarrow> r = max_flow_capacity_rel (model_flow_capacity m3) i"
    using con_max_flow_capacity_Inr(1) by auto
  note k2 = Constraint_Inr[OF c2, of "max_flow_capacity_rel (model_flow_capacity m3)", OF h2]
  have f4: "model_edges m4 = map fst (edges cfg)"
    "model_scenarios m4 = [0..<num_scenarios cfg]" "model_flow_capacity m4 = edges cfg"
    "model_xi m4 = tbl"
    using k2(1) f3 by simp_all
  have h3: "\<forall>i\<in>set (List.product (model_edges m4) (model_scenarios m4)). \<forall>r. con_eff_flow_capacity m4 i = Inr r \<longrightarrow> r = eff_flow_capacity_rel (model_xi m4) i"
    using con_eff_flow_capacity_Inr(1) by auto
  note k3 = Constraint_Inr[OF c3, of "eff_flow_capacity_rel (model_xi m4)", OF h3]
  have f5: "model_edges m5 = map fst (edges cfg)" "model_vars m5 = model_vars m4"
    using k3(1) f4 by simp_all
  from c4 obtain e where e: "obj_min_budget m5 = Inr e"
    and m': "m' = m5\<lparr>model_objectives := model_objectives m5 @
        [\<lparr>obj_name = Obj_min_budget, obj_sense = minimize, obj_expr = e, obj_active = True\<rparr>]\<rparr>"
    by (auto simp: Objective_Inr)
  from e have "py_sum (\<lambda>e. var_getitem m5 (case e of (n, m) \<Rightarrow> X n m)) (map fst (edges cfg)) = Inr e"
    by (simp add: obj_min_budget_def f5 case_prod_unfold)
  from py_sum_vars_Inr[OF this] have e': "e = sum_vars (map (\<lambda>(n, m). X n m) (map fst (edges cfg)))"
    by simp
  show "m' = \<lparr> model_nodes = nodes cfg,
                 model_edges = map fst (edges cfg),
                 model_scenarios = [0..<num_scenarios cfg],
                 model_s = source cfg,
                 model_t = sink cfg,
                 model_flow_capacity = edges cfg,
                 model_xi = tbl,
                 model_type1_con_set = [],
                 model_cvar_con_set = [],
                 model_vars = core_vars cfg,
                 model_fixed = [],
                 model_constraints = core_constraints cfg tbl,
                 model_objectives = [budget_objective cfg] \<rparr>"
  proof -
    have e1: "m3 = m2\<lparr>model_constraints :=
           map (\<lambda>i. (case i of (node, sc) \<Rightarrow> Con_flow_balance node sc,
                      flow_balance_rel (map fst (edges cfg)) i))
             (List.product (nodes cfg) [0..<num_scenarios cfg])\<rparr>"
      using k1(1) by (simp add: f2)
    have e2: "m4 = m3\<lparr>model_constraints := model_constraints m3 @
           map (\<lambda>i. (case i of ((n, m), sc) \<Rightarrow> Con_max_flow_capacity n m sc,
                      max_flow_capacity_rel (edges cfg) i))
             (List.product (map fst (edges cfg)) [0..<num_scenarios cfg])\<rparr>"
      using k2(1) by (simp add: f3 case_prod_unfold)
    have e3: "m5 = m4\<lparr>model_constraints := model_constraints m4 @
           map (\<lambda>i. (case i of ((n, m), sc) \<Rightarrow> Con_eff_flow_capacity n m sc,
                      eff_flow_capacity_rel tbl i))
             (List.product (map fst (edges cfg)) [0..<num_scenarios cfg])\<rparr>"
      using k3(1) by (simp add: f4 case_prod_unfold)
    show ?thesis
      by (simp add: m' e' e3 e2 e1 m2_def m1_def m0_def Var_def core_constraints_def
          core_vars_def budget_objective_def comp_def case_prod_unfold)
  qed
  show "\<forall>n m sc. (n, m) \<in> fst ` set (edges cfg) \<longrightarrow> sc < num_scenarios cfg \<longrightarrow>
           map_of tbl (n, m, sc) \<noteq> None"
  proof (intro allI impI)
    fix n m sc assume "(n, m) \<in> fst ` set (edges cfg)" "sc < num_scenarios cfg"
    then have "((n, m), sc) \<in> set (List.product (model_edges m4) (model_scenarios m4))"
      by (simp add: f4)
    with k3(2) have "con_eff_flow_capacity m4 ((n, m), sc) = Inr (eff_flow_capacity_rel (model_xi m4) ((n, m), sc))"
      by blast
    from con_eff_flow_capacity_Inr(2)[OF this] show "map_of tbl (n, m, sc) \<noteq> None"
      by (simp add: f4)
  qed
qed

lemma con_indicator_Inr:
  assumes "con_indicator cfg m (sc, i) = Inr r"
  shows "r = indicator_rel cfg m (sc, i)" "i < length (perf_thresholds cfg)"
    "perf_thresholds cfg ! i \<noteq> 0" "Y (model_t m) (model_s m) sc \<in> fst ` set (model_vars m)"
    "Indicator sc i \<in> fst ` set (model_vars m)"
  using assms
  by (auto simp: con_indicator_def andthen_Inr_iff var_getitem_Inr list_getitem_Inr
      truediv_Inr indicator_rel_def)

lemma con_type1_service_level_Inr:
  assumes "con_type1_service_level cfg m i = Inr r"
  shows "r = type1_rel cfg m i" "i < length (alpha_thresholds cfg)" "num_scenarios cfg \<noteq> 0"
proof -
  from assms obtain total lhs alpha where
    t: "py_sum (\<lambda>scenario. var_getitem m (Indicator scenario i)) (model_scenarios m) = Inr total"
    and d: "truediv total (real (num_scenarios cfg)) = Inr lhs"
    and a: "list_getitem (alpha_thresholds cfg) i = Inr alpha"
    and r: "r = GE lhs (Num alpha)"
    by (auto simp: con_type1_service_level_def andthen_Inr_iff)
  from py_sum_vars_Inr[OF t] have "total = sum_vars (map (\<lambda>sc. Indicator sc i) (model_scenarios m))"
    by simp
  with d a r show "r = type1_rel cfg m i" "i < length (alpha_thresholds cfg)" "num_scenarios cfg \<noteq> 0"
    by (simp_all add: truediv_Inr list_getitem_Inr type1_rel_def)
qed

lemma type1_cell_Inr:
  assumes "type1_cell cfg m = Inr m'"
  shows "m' = m\<lparr>model_type1_con_set := [0..<length (perf_thresholds cfg)],
                model_vars := model_vars m @ indicator_vars cfg m,
                model_constraints := model_constraints m @ type1_constraints cfg m\<rparr>"
    and "length (perf_thresholds cfg) \<le> length (alpha_thresholds cfg)"
    and "perf_thresholds cfg \<noteq> [] \<longrightarrow> num_scenarios cfg \<noteq> 0"
    and "\<forall>i<length (perf_thresholds cfg). model_scenarios m \<noteq> [] \<longrightarrow> perf_thresholds cfg ! i \<noteq> 0"
proof -
  define N where "N = length (perf_thresholds cfg)"
  define m1 where "m1 = m\<lparr>model_type1_con_set := [0..<N]\<rparr>"
  define m2 where "m2 = Var (map (\<lambda>(scenario, i). Indicator scenario i)
                      (List.product (model_scenarios m1) (model_type1_con_set m1))) Binary m1"
  from assms obtain m3 where
    c1: "Constraint (\<lambda>(scenario, i). Con_indicator scenario i)
           (List.product (model_scenarios m2) (model_type1_con_set m2))
           (con_indicator cfg m2) m2 = Inr m3"
    and c2: "Constraint Con_type1_service_level (model_type1_con_set m3)
           (con_type1_service_level cfg m3) m3 = Inr m'"
    unfolding type1_cell_def Let_def N_def[symmetric] m1_def[symmetric] m2_def[symmetric]
    by (auto simp: andthen_Inr_iff)
  have h1: "\<forall>i\<in>set (List.product (model_scenarios m2) (model_type1_con_set m2)). \<forall>r. con_indicator cfg m2 i = Inr r \<longrightarrow> r = indicator_rel cfg m2 i"
    using con_indicator_Inr(1) by auto
  note k1 = Constraint_Inr[OF c1, of "indicator_rel cfg m2", OF h1]
  have f2: "model_scenarios m2 = model_scenarios m" "model_type1_con_set m2 = [0..<N]"
    "model_t m2 = model_t m" "model_s m2 = model_s m"
    "model_vars m2 = model_vars m @ indicator_vars cfg m"
    "model_constraints m2 = model_constraints m"
    by (simp_all add: m2_def m1_def indicator_vars_def N_def comp_def case_prod_unfold)
  have ir: "indicator_rel cfg m2 = indicator_rel cfg m"
    by (simp add: indicator_rel_def f2 fun_eq_iff)
  have f3: "model_scenarios m3 = model_scenarios m" "model_type1_con_set m3 = [0..<N]"
    using k1(1) f2 by simp_all
  have h2: "\<forall>i\<in>set (model_type1_con_set m3). \<forall>r. con_type1_service_level cfg m3 i = Inr r \<longrightarrow> r = type1_rel cfg m3 i"
    using con_type1_service_level_Inr(1) by auto
  note k2 = Constraint_Inr[OF c2, of "type1_rel cfg m3", OF h2]
  have tr: "type1_rel cfg m3 = type1_rel cfg m"
    by (simp add: type1_rel_def f3 fun_eq_iff)
  show "m' = m\<lparr>model_type1_con_set := [0..<length (perf_thresholds cfg)],
                model_vars := model_vars m @ indicator_vars cfg m,
                model_constraints := model_constraints m @ type1_constraints cfg m\<rparr>"
  proof -
    have e1: "m3 = m2\<lparr>model_constraints := model_constraints m @
           map (\<lambda>i. (case i of (sc, i) \<Rightarrow> Con_indicator sc i, indicator_rel cfg m i))
             (List.product (model_scenarios m) [0..<N])\<rparr>"
      using k1(1) by (simp only: ir f2)
    have e2: "m' = m3\<lparr>model_constraints := model_constraints m3 @
           map (\<lambda>i. (Con_type1_service_level i, type1_rel cfg m i)) [0..<N]\<rparr>"
      using k2(1) by (simp only: tr f3)
    show ?thesis
      by (simp add: e2 e1 m2_def m1_def Var_def type1_constraints_def indicator_vars_def N_def
        comp_def case_prod_unfold)
  qed
  from k2(2) f3 have "\<forall>i<N. con_type1_service_level cfg m3 i = Inr (type1_rel cfg m3 i)" by simp
  then have a: "\<forall>i<N. i < length (alpha_thresholds cfg) \<and> num_scenarios cfg \<noteq> 0"
    using con_type1_service_level_Inr(2,3) by blast
  then show "length (perf_thresholds cfg) \<le> length (alpha_thresholds cfg)"
    unfolding N_def by (metis less_irrefl_nat not_le_imp_less)
  from a show "perf_thresholds cfg \<noteq> [] \<longrightarrow> num_scenarios cfg \<noteq> 0"
    unfolding N_def by (metis length_greater_0_conv)
  show "\<forall>i<length (perf_thresholds cfg). model_scenarios m \<noteq> [] \<longrightarrow> perf_thresholds cfg ! i \<noteq> 0"
  proof (intro allI impI)
    fix i assume i: "i < length (perf_thresholds cfg)" and ne: "model_scenarios m \<noteq> []"
    then obtain sc where "sc \<in> set (model_scenarios m)" by (cases "model_scenarios m") auto
    with i have "(sc, i) \<in> set (List.product (model_scenarios m2) (model_type1_con_set m2))"
      by (simp add: f2 N_def)
    with k1(2) have "con_indicator cfg m2 (sc, i) = Inr (indicator_rel cfg m2 (sc, i))" by blast
    from con_indicator_Inr(3)[OF this] show "perf_thresholds cfg ! i \<noteq> 0" .
  qed
qed

lemma con_type2_service_level_Inr:
  assumes "con_type2_service_level cfg m u = Inr r"
  shows "r = type2_rel cfg m" "num_scenarios cfg \<noteq> 0"
    "\<forall>sc\<in>set (model_scenarios m). Y (model_t m) (model_s m) sc \<in> fst ` set (model_vars m)"
proof -
  from assms obtain total lhs where
    t: "py_sum (\<lambda>scenario. var_getitem m (Y (model_t m) (model_s m) scenario)) (model_scenarios m) = Inr total"
    and d: "truediv total (real (num_scenarios cfg)) = Inr lhs"
    and r: "r = GE lhs (Num (perf_target cfg * beta_threshold cfg))"
    by (auto simp: con_type2_service_level_def andthen_Inr_iff)
  from py_sum_vars_Inr[OF t] d r
  show "r = type2_rel cfg m" "num_scenarios cfg \<noteq> 0"
    "\<forall>sc\<in>set (model_scenarios m). Y (model_t m) (model_s m) sc \<in> fst ` set (model_vars m)"
    by (auto simp: truediv_def type2_rel_def split: if_splits)
qed

lemma type2_cell_Inr:
  assumes "type2_cell cfg m = Inr m'"
  shows "m' = m\<lparr>model_constraints := model_constraints m @ [(Con_type2_service_level, type2_rel cfg m)]\<rparr>"
    and "num_scenarios cfg \<noteq> 0"
    and "\<forall>sc\<in>set (model_scenarios m). Y (model_t m) (model_s m) sc \<in> fst ` set (model_vars m)"
proof -
  have h: "\<forall>i\<in>set [()]. \<forall>r. con_type2_service_level cfg m i = Inr r \<longrightarrow> r = type2_rel cfg m"
    using con_type2_service_level_Inr(1) by blast
  note c = Constraint_Inr[OF assms[unfolded type2_cell_def], of "\<lambda>_. type2_rel cfg m", OF h]
  from c(1) show "m' = m\<lparr>model_constraints := model_constraints m @ [(Con_type2_service_level, type2_rel cfg m)]\<rparr>"
    by simp
  from c(2) have r: "con_type2_service_level cfg m () = Inr (type2_rel cfg m)" by simp
  from con_type2_service_level_Inr(2)[OF r] show "num_scenarios cfg \<noteq> 0" .
  from con_type2_service_level_Inr(3)[OF r]
  show "\<forall>sc\<in>set (model_scenarios m). Y (model_t m) (model_s m) sc \<in> fst ` set (model_vars m)" .
qed

lemma con_cvar_main_Inr:
  assumes "con_cvar_main cfg m i = Inr r"
  shows "r = cvar_main_rel cfg m i" "i < length (cvar_epsilons cfg)"
    "real (num_scenarios cfg) * cvar_epsilons cfg ! i \<noteq> 0"
proof -
  from assms obtain total eps mean zeta where
    t: "py_sum (\<lambda>scenario. var_getitem m (Cvar_nu scenario i)) (model_scenarios m) = Inr total"
    and e: "list_getitem (cvar_epsilons cfg) i = Inr eps"
    and d: "truediv total (real (num_scenarios cfg) * eps) = Inr mean"
    and z: "list_getitem (cvar_thresholds cfg) i = Inr zeta"
    and r: "r = LE (Plus (V (Cvar_beta i)) mean) (Num zeta)"
    by (auto simp: con_cvar_main_def andthen_Inr_iff var_getitem_Inr)
  from py_sum_vars_Inr[OF t] have "total = sum_vars (map (\<lambda>sc. Cvar_nu sc i) (model_scenarios m))"
    by simp
  with e d z r show "r = cvar_main_rel cfg m i" "i < length (cvar_epsilons cfg)"
    "real (num_scenarios cfg) * cvar_epsilons cfg ! i \<noteq> 0"
    by (simp_all add: truediv_Inr list_getitem_Inr cvar_main_rel_def)
qed

lemma con_cvar_aux_Inr:
  assumes "con_cvar_aux cfg m (sc, i) = Inr r"
  shows "r = cvar_aux_rel cfg m (sc, i)"
  using assms
  by (auto simp: con_cvar_aux_def andthen_Inr_iff var_getitem_Inr cvar_aux_rel_def Let_def)

lemma cvar_cell_Inr:
  assumes "cvar_cell cfg m = Inr m'"
  shows "m' = m\<lparr>model_cvar_con_set := [0..<length (cvar_thresholds cfg)],
                model_vars := model_vars m @ cvar_vars cfg m,
                model_constraints := model_constraints m @ cvar_constraints cfg m\<rparr>"
    and "\<forall>i<length (cvar_thresholds cfg). i < length (cvar_epsilons cfg) \<and>
            real (num_scenarios cfg) * cvar_epsilons cfg ! i \<noteq> 0"
proof -
  define N where "N = length (cvar_thresholds cfg)"
  define m1 where "m1 = m\<lparr>model_cvar_con_set := [0..<N]\<rparr>"
  define m2 where "m2 = Var (map Cvar_beta (model_cvar_con_set m1)) Reals m1"
  define m3 where "m3 = Var (map (\<lambda>(scenario, i). Cvar_nu scenario i)
                      (List.product (model_scenarios m2) (model_cvar_con_set m2)))
                 NonNegativeReals m2"
  from assms obtain m4 where
    c1: "Constraint Con_cvar_main (model_cvar_con_set m3) (con_cvar_main cfg m3) m3 = Inr m4"
    and c2: "Constraint (\<lambda>(scenario, i). Con_cvar_aux scenario i)
           (List.product (model_scenarios m4) (model_cvar_con_set m4))
           (con_cvar_aux cfg m4) m4 = Inr m'"
    unfolding cvar_cell_def Let_def N_def[symmetric] m1_def[symmetric] m2_def[symmetric]
      m3_def[symmetric]
    by (auto simp: andthen_Inr_iff)
  have h1: "\<forall>i\<in>set (model_cvar_con_set m3). \<forall>r. con_cvar_main cfg m3 i = Inr r \<longrightarrow> r = cvar_main_rel cfg m3 i"
    using con_cvar_main_Inr(1) by auto
  note k1 = Constraint_Inr[OF c1, of "cvar_main_rel cfg m3", OF h1]
  have f3: "model_scenarios m3 = model_scenarios m" "model_cvar_con_set m3 = [0..<N]"
    "model_t m3 = model_t m" "model_s m3 = model_s m"
    "model_vars m3 = model_vars m @ cvar_vars cfg m"
    "model_constraints m3 = model_constraints m"
    by (simp_all add: m3_def m2_def m1_def cvar_vars_def N_def comp_def case_prod_unfold)
  have mr: "cvar_main_rel cfg m3 = cvar_main_rel cfg m"
    by (simp add: cvar_main_rel_def f3 fun_eq_iff)
  have f4: "model_scenarios m4 = model_scenarios m" "model_cvar_con_set m4 = [0..<N]"
    "model_t m4 = model_t m" "model_s m4 = model_s m"
    using k1(1) f3 by simp_all
  have h2: "\<forall>i\<in>set (List.product (model_scenarios m4) (model_cvar_con_set m4)). \<forall>r. con_cvar_aux cfg m4 i = Inr r \<longrightarrow> r = cvar_aux_rel cfg m4 i"
    using con_cvar_aux_Inr by auto
  note k2 = Constraint_Inr[OF c2, of "cvar_aux_rel cfg m4", OF h2]
  have ar: "cvar_aux_rel cfg m4 = cvar_aux_rel cfg m"
    by (simp add: cvar_aux_rel_def f4 fun_eq_iff)
  show "m' = m\<lparr>model_cvar_con_set := [0..<length (cvar_thresholds cfg)],
                model_vars := model_vars m @ cvar_vars cfg m,
                model_constraints := model_constraints m @ cvar_constraints cfg m\<rparr>"
  proof -
    have e1: "m4 = m3\<lparr>model_constraints := model_constraints m @
           map (\<lambda>i. (Con_cvar_main i, cvar_main_rel cfg m i)) [0..<N]\<rparr>"
      using k1(1) by (simp only: mr f3)
    have e2: "m' = m4\<lparr>model_constraints := model_constraints m4 @
           map (\<lambda>i. (case i of (sc, i) \<Rightarrow> Con_cvar_aux sc i, cvar_aux_rel cfg m i))
             (List.product (model_scenarios m) [0..<N])\<rparr>"
      using k2(1) by (simp only: ar f4)
    show ?thesis
      by (simp add: e2 e1 m3_def m2_def m1_def Var_def cvar_constraints_def cvar_vars_def N_def
        comp_def case_prod_unfold)
  qed
  from k1(2) f3 have "\<forall>i<N. con_cvar_main cfg m3 i = Inr (cvar_main_rel cfg m3 i)" by simp
  then show "\<forall>i<length (cvar_thresholds cfg). i < length (cvar_epsilons cfg) \<and>
            real (num_scenarios cfg) * cvar_epsilons cfg ! i \<noteq> 0"
    unfolding N_def using con_cvar_main_Inr(2,3) by blast
qed

section \<open>The notebook after each cell\<close>

lemma assemble_core_Inr:
  assumes "assemble_core g cfg = Inr m"
  shows "\<exists>tbl g'. xi g cfg = Inr (tbl, g') \<and> core_model cfg tbl = Inr m"
  using assms by (auto simp: assemble_core_def andthen_Inr_iff)

lemma assemble_type1_Inr:
  assumes "assemble_type1 g cfg = Inr m'"
  shows "\<exists>m. assemble_core g cfg = Inr m \<and> type1_cell cfg m = Inr m'"
  using assms by (auto simp: assemble_type1_def andthen_Inr_iff)

lemma assemble_type2_Inr:
  assumes "assemble_type2 g cfg = Inr m'"
  shows "\<exists>m. assemble_type1 g cfg = Inr m \<and> type2_cell cfg m = Inr m'"
  using assms by (auto simp: assemble_type2_def andthen_Inr_iff)

lemma assemble_Inr:
  assumes "assemble g cfg = Inr m'"
  shows "\<exists>m. assemble_type2 g cfg = Inr m \<and> cvar_cell cfg m = Inr m'"
  using assms by (auto simp: assemble_def andthen_Inr_iff)

lemma assemble_stages:
  assumes "assemble g cfg = Inr m"
  obtains m0 m1 m2 where "assemble_core g cfg = Inr m0" "type1_cell cfg m0 = Inr m1"
    "assemble_type1 g cfg = Inr m1" "type2_cell cfg m1 = Inr m2"
    "assemble_type2 g cfg = Inr m2" "cvar_cell cfg m2 = Inr m"
proof -
  from assemble_Inr[OF assms] obtain m2 where
    a2: "assemble_type2 g cfg = Inr m2" and c: "cvar_cell cfg m2 = Inr m" by blast
  from assemble_type2_Inr[OF a2] obtain m1 where
    a1: "assemble_type1 g cfg = Inr m1" and t2: "type2_cell cfg m1 = Inr m2" by blast
  from assemble_type1_Inr[OF a1] obtain m0 where
    a0: "assemble_core g cfg = Inr m0" and t1: "type1_cell cfg m0 = Inr m1" by blast
  from a0 t1 a1 t2 a2 c that show thesis by blast
qed

lemma assemble_core_fields:
  assumes "assemble_core g cfg = Inr m"
  shows "model_scenarios m = [0..<num_scenarios cfg]" "model_t m = sink cfg"
    "model_s m = source cfg" "model_edges m = map fst (edges cfg)" "model_fixed m = []"
    "model_vars m = core_vars cfg" "model_objectives m = [budget_objective cfg]"
    "model_nodes m = nodes cfg"
proof -
  from assemble_core_Inr[OF assms] obtain tbl g' where "core_model cfg tbl = Inr m" by blast
  from core_model_Inr(1)[OF this]
  show "model_scenarios m = [0..<num_scenarios cfg]" "model_t m = sink cfg"
    "model_s m = source cfg" "model_edges m = map fst (edges cfg)" "model_fixed m = []"
    "model_vars m = core_vars cfg" "model_objectives m = [budget_objective cfg]"
    "model_nodes m = nodes cfg"
    by simp_all
qed

lemma assemble_type1_fields:
  assumes "assemble_type1 g cfg = Inr m"
  shows "model_scenarios m = [0..<num_scenarios cfg]" "model_t m = sink cfg"
    "model_s m = source cfg" "model_edges m = map fst (edges cfg)" "model_fixed m = []"
    "model_objectives m = [budget_objective cfg]"
proof -
  from assemble_type1_Inr[OF assms] obtain m0 where
    a: "assemble_core g cfg = Inr m0" and b: "type1_cell cfg m0 = Inr m" by blast
  from type1_cell_Inr(1)[OF b] assemble_core_fields[OF a]
  show "model_scenarios m = [0..<num_scenarios cfg]" "model_t m = sink cfg"
    "model_s m = source cfg" "model_edges m = map fst (edges cfg)" "model_fixed m = []"
    "model_objectives m = [budget_objective cfg]"
    by simp_all
qed

lemma assemble_type2_fields:
  assumes "assemble_type2 g cfg = Inr m"
  shows "model_scenarios m = [0..<num_scenarios cfg]" "model_t m = sink cfg"
    "model_s m = source cfg" "model_edges m = map fst (edges cfg)" "model_fixed m = []"
    "model_objectives m = [budget_objective cfg]"
proof -
  from assemble_type2_Inr[OF assms] obtain m0 where
    a: "assemble_type1 g cfg = Inr m0" and b: "type2_cell cfg m0 = Inr m" by blast
  from type2_cell_Inr(1)[OF b] assemble_type1_fields[OF a]
  show "model_scenarios m = [0..<num_scenarios cfg]" "model_t m = sink cfg"
    "model_s m = source cfg" "model_edges m = map fst (edges cfg)" "model_fixed m = []"
    "model_objectives m = [budget_objective cfg]"
    by simp_all
qed

lemma assemble_sink_inflow:
  assumes "assemble g cfg = Inr m"
  shows "model_scenarios m = [0..<num_scenarios cfg]" "model_t m = sink cfg"
    "model_s m = source cfg" "model_edges m = map fst (edges cfg)" "model_fixed m = []"
    "model_objectives m = [budget_objective cfg]" "num_scenarios cfg \<noteq> 0"
    "\<forall>sc<num_scenarios cfg. Y (sink cfg) (source cfg) sc \<in> fst ` set (model_vars m)"
proof -
  from assemble_stages[OF assms] obtain m0 m1 m2 where
    a1: "assemble_type1 g cfg = Inr m1" and t2: "type2_cell cfg m1 = Inr m2" and
    a2: "assemble_type2 g cfg = Inr m2" and c: "cvar_cell cfg m2 = Inr m" by blast
  note e = cvar_cell_Inr(1)[OF c]
  note f = assemble_type2_fields[OF a2]
  from e f show "model_scenarios m = [0..<num_scenarios cfg]" "model_t m = sink cfg"
    "model_s m = source cfg" "model_edges m = map fst (edges cfg)" "model_fixed m = []"
    "model_objectives m = [budget_objective cfg]"
    by simp_all
  from type2_cell_Inr(2)[OF t2] show "num_scenarios cfg \<noteq> 0" .
  from type2_cell_Inr(3)[OF t2] assemble_type1_fields[OF a1]
  have "\<forall>sc<num_scenarios cfg. Y (sink cfg) (source cfg) sc \<in> fst ` set (model_vars m1)"
    by simp
  moreover have "model_vars m = model_vars m1 @ cvar_vars cfg m2"
    using e type2_cell_Inr(1)[OF t2] by simp
  ultimately show "\<forall>sc<num_scenarios cfg. Y (sink cfg) (source cfg) sc \<in> fst ` set (model_vars m)"
    by auto
qed

lemma feasible_extend:
  assumes "model_vars m' = model_vars m @ vs" "model_constraints m' = model_constraints m @ cs"
    "model_fixed m' = model_fixed m"
  shows "feasible m' \<rho> \<longleftrightarrow>
         feasible m \<rho> \<and> (\<forall>(v, d)\<in>set vs. in_domain d (\<rho> v)) \<and> (\<forall>(c, r)\<in>set cs. holds \<rho> r)"
  unfolding feasible_def assms by (auto simp: list_all_iff)

lemma holds_type2_rel:
  "holds \<rho> (type2_rel cfg m) \<longleftrightarrow>
     perf_target cfg * beta_threshold cfg \<le>
       (1 / real (num_scenarios cfg)) *
       sum_list (map (\<lambda>sc. \<rho> (Y (model_t m) (model_s m) sc)) (model_scenarios m))"
  by (simp add: type2_rel_def eval_sum_vars comp_def)

lemma type2_cell_feasible_iff:
  assumes "type2_cell cfg m = Inr m'"
  shows "feasible m' \<rho> \<longleftrightarrow> feasible m \<rho> \<and> holds \<rho> (type2_rel cfg m)"
proof -
  note e = type2_cell_Inr(1)[OF assms]
  have "feasible m' \<rho> \<longleftrightarrow>
         feasible m \<rho> \<and> (\<forall>(v, d)\<in>set []. in_domain d (\<rho> v)) \<and>
         (\<forall>(c, r)\<in>set [(Con_type2_service_level, type2_rel cfg m)]. holds \<rho> r)"
    by (rule feasible_extend) (simp_all add: e)
  then show ?thesis by simp
qed

lemma indicator_vars_sem:
  "(\<forall>(v, d)\<in>set (indicator_vars cfg m). in_domain d (\<rho> v)) \<longleftrightarrow>
   (\<forall>i<length (perf_thresholds cfg). \<forall>sc\<in>set (model_scenarios m).
      \<rho> (Indicator sc i) = 0 \<or> \<rho> (Indicator sc i) = 1)"
  by (simp add: indicator_vars_def ball_Un case_prod_unfold) force

lemma type1_constraints_sem:
  "(\<forall>(c, r)\<in>set (type1_constraints cfg m). holds \<rho> r) \<longleftrightarrow>
   (\<forall>i<length (perf_thresholds cfg).
      (\<forall>sc\<in>set (model_scenarios m).
         \<rho> (Indicator sc i) \<le> \<rho> (Y (model_t m) (model_s m) sc) / perf_thresholds cfg ! i) \<and>
      alpha_thresholds cfg ! i \<le>
        (1 / real (num_scenarios cfg)) *
        sum_list (map (\<lambda>sc. \<rho> (Indicator sc i)) (model_scenarios m)))"
  by (simp add: type1_constraints_def indicator_rel_def type1_rel_def eval_sum_vars comp_def
      ball_Un case_prod_unfold) force

lemma assemble_type1_feasible_iff:
  assumes "assemble_core g cfg = Inr m" "type1_cell cfg m = Inr m'"
  shows "feasible m' \<rho> \<longleftrightarrow>
         feasible m \<rho> \<and>
         (\<forall>i<length (perf_thresholds cfg).
            (\<forall>sc<num_scenarios cfg.
               (\<rho> (Indicator sc i) = 0 \<or> \<rho> (Indicator sc i) = 1) \<and>
               \<rho> (Indicator sc i) \<le> \<rho> (Y (sink cfg) (source cfg) sc) / perf_thresholds cfg ! i) \<and>
            alpha_thresholds cfg ! i \<le>
              (1 / real (num_scenarios cfg)) * (\<Sum>sc<num_scenarios cfg. \<rho> (Indicator sc i)))"
proof -
  note e = type1_cell_Inr(1)[OF assms(2)]
  have "feasible m' \<rho> \<longleftrightarrow>
         feasible m \<rho> \<and> (\<forall>(v, d)\<in>set (indicator_vars cfg m). in_domain d (\<rho> v)) \<and>
         (\<forall>(c, r)\<in>set (type1_constraints cfg m). holds \<rho> r)"
    by (rule feasible_extend) (simp_all add: e)
  also have "\<dots> \<longleftrightarrow> feasible m \<rho> \<and>
         (\<forall>i<length (perf_thresholds cfg).
            (\<forall>sc<num_scenarios cfg.
               (\<rho> (Indicator sc i) = 0 \<or> \<rho> (Indicator sc i) = 1) \<and>
               \<rho> (Indicator sc i) \<le> \<rho> (Y (sink cfg) (source cfg) sc) / perf_thresholds cfg ! i) \<and>
            alpha_thresholds cfg ! i \<le>
              (1 / real (num_scenarios cfg)) * (\<Sum>sc<num_scenarios cfg. \<rho> (Indicator sc i)))"
    unfolding indicator_vars_sem type1_constraints_sem assemble_core_fields[OF assms(1)]
      sum_list_scenarios
    by (simp add: atLeast0LessThan) blast
  finally show ?thesis .
qed

lemma cvar_vars_sem:
  "(\<forall>(v, d)\<in>set (cvar_vars cfg m). in_domain d (\<rho> v)) \<longleftrightarrow>
   (\<forall>i<length (cvar_thresholds cfg). \<forall>sc\<in>set (model_scenarios m). 0 \<le> \<rho> (Cvar_nu sc i))"
  by (simp add: cvar_vars_def ball_Un case_prod_unfold) force

lemma cvar_constraints_sem:
  "(\<forall>(c, r)\<in>set (cvar_constraints cfg m). holds \<rho> r) \<longleftrightarrow>
   (\<forall>i<length (cvar_thresholds cfg).
      (\<forall>sc\<in>set (model_scenarios m).
         (perf_target cfg - \<rho> (Y (model_t m) (model_s m) sc)) - \<rho> (Cvar_beta i)
           \<le> \<rho> (Cvar_nu sc i)) \<and>
      \<rho> (Cvar_beta i) +
        (1 / (real (num_scenarios cfg) * cvar_epsilons cfg ! i)) *
        sum_list (map (\<lambda>sc. \<rho> (Cvar_nu sc i)) (model_scenarios m))
        \<le> cvar_thresholds cfg ! i)"
  by (simp add: cvar_constraints_def cvar_main_rel_def cvar_aux_rel_def eval_sum_vars comp_def
      ball_Un case_prod_unfold) force

lemma assemble_feasible_iff:
  assumes "assemble_type2 g cfg = Inr m" "cvar_cell cfg m = Inr m'"
  shows "feasible m' \<rho> \<longleftrightarrow>
         feasible m \<rho> \<and>
         (\<forall>i<length (cvar_thresholds cfg).
            (\<forall>sc<num_scenarios cfg.
               0 \<le> \<rho> (Cvar_nu sc i) \<and>
               (perf_target cfg - \<rho> (Y (sink cfg) (source cfg) sc)) - \<rho> (Cvar_beta i)
                 \<le> \<rho> (Cvar_nu sc i)) \<and>
            \<rho> (Cvar_beta i) +
              (1 / (real (num_scenarios cfg) * cvar_epsilons cfg ! i)) *
              (\<Sum>sc<num_scenarios cfg. \<rho> (Cvar_nu sc i))
              \<le> cvar_thresholds cfg ! i)"
proof -
  note e = cvar_cell_Inr(1)[OF assms(2)]
  have "feasible m' \<rho> \<longleftrightarrow>
         feasible m \<rho> \<and> (\<forall>(v, d)\<in>set (cvar_vars cfg m). in_domain d (\<rho> v)) \<and>
         (\<forall>(c, r)\<in>set (cvar_constraints cfg m). holds \<rho> r)"
    by (rule feasible_extend) (simp_all add: e)
  also have "\<dots> \<longleftrightarrow> feasible m \<rho> \<and>
         (\<forall>i<length (cvar_thresholds cfg).
            (\<forall>sc<num_scenarios cfg.
               0 \<le> \<rho> (Cvar_nu sc i) \<and>
               (perf_target cfg - \<rho> (Y (sink cfg) (source cfg) sc)) - \<rho> (Cvar_beta i)
                 \<le> \<rho> (Cvar_nu sc i)) \<and>
            \<rho> (Cvar_beta i) +
              (1 / (real (num_scenarios cfg) * cvar_epsilons cfg ! i)) *
              (\<Sum>sc<num_scenarios cfg. \<rho> (Cvar_nu sc i))
              \<le> cvar_thresholds cfg ! i)"
    unfolding cvar_vars_sem cvar_constraints_sem assemble_type2_fields[OF assms(1)]
      sum_list_scenarios
    by (simp add: atLeast0LessThan) blast
  finally show ?thesis .
qed

lemma core_vars_sem:
  "list_all (\<lambda>(v, d). in_domain d (\<rho> v)) (core_vars cfg) \<longleftrightarrow>
   (\<forall>n m. (n, m) \<in> fst ` set (edges cfg) \<longrightarrow> 0 \<le> \<rho> (X n m) \<and>
      (\<forall>sc<num_scenarios cfg. 0 \<le> \<rho> (Y n m sc)))"
  by (simp add: core_vars_def list_all_iff ball_Un case_prod_unfold) force

lemma flow_balance_sem:
  "list_all (\<lambda>(c, r). holds \<rho> r)
     (map (\<lambda>(node, sc). (Con_flow_balance node sc, flow_balance_rel es (node, sc)))
        (List.product ns [0..<S])) \<longleftrightarrow>
   (\<forall>sc<S. \<forall>node\<in>set ns.
      sum_list (map (\<lambda>(n, m). \<rho> (Y n m sc)) (filter (\<lambda>(n, m). m = node) es)) =
      sum_list (map (\<lambda>(n, m). \<rho> (Y n m sc)) (filter (\<lambda>(n, m). n = node) es)))"
  by (simp add: list_all_iff flow_balance_rel_def eval_sum_vars comp_def case_prod_unfold
      atLeast0LessThan) blast

lemma max_flow_capacity_sem:
  "list_all (\<lambda>(c, r). holds \<rho> r)
     (map (\<lambda>((n, m), sc). (Con_max_flow_capacity n m sc, max_flow_capacity_rel caps ((n, m), sc)))
        (List.product es [0..<S])) \<longleftrightarrow>
   (\<forall>sc<S. \<forall>n m. (n, m) \<in> set es \<longrightarrow>
      \<rho> (Y n m sc) \<le> real_of_int (the (map_of caps (n, m))))"
  by (simp add: list_all_iff max_flow_capacity_rel_def case_prod_unfold) force

lemma eff_flow_capacity_sem:
  "list_all (\<lambda>(c, r). holds \<rho> r)
     (map (\<lambda>((n, m), sc). (Con_eff_flow_capacity n m sc, eff_flow_capacity_rel tbl ((n, m), sc)))
        (List.product es [0..<S])) \<longleftrightarrow>
   (\<forall>sc<S. \<forall>n m. (n, m) \<in> set es \<longrightarrow>
      \<rho> (Y n m sc) \<le> real_of_int (the (map_of tbl (n, m, sc))) + \<rho> (X n m))"
  by (simp add: list_all_iff eff_flow_capacity_rel_def case_prod_unfold) force

lemma core_constraints_sem:
  "list_all (\<lambda>(c, r). holds \<rho> r) (core_constraints cfg tbl) \<longleftrightarrow>
   (\<forall>sc<num_scenarios cfg.
      (\<forall>node\<in>set (nodes cfg).
         sum_list (map (\<lambda>(n, m). \<rho> (Y n m sc)) (filter (\<lambda>(n, m). m = node) (map fst (edges cfg)))) =
         sum_list (map (\<lambda>(n, m). \<rho> (Y n m sc)) (filter (\<lambda>(n, m). n = node) (map fst (edges cfg))))) \<and>
      (\<forall>n m. (n, m) \<in> fst ` set (edges cfg) \<longrightarrow>
         \<rho> (Y n m sc) \<le> real_of_int (the (map_of (edges cfg) (n, m))) \<and>
         \<rho> (Y n m sc) \<le> real_of_int (the (map_of tbl (n, m, sc))) + \<rho> (X n m)))"
  unfolding core_constraints_def list_all_append flow_balance_sem max_flow_capacity_sem
    eff_flow_capacity_sem
  by (simp only: set_map) blast

lemma core_model_feasible_iff:
  assumes c: "core_model cfg tbl = Inr m"
  shows "feasible m \<rho> \<longleftrightarrow>
        (\<forall>n m'. (n, m') \<in> fst ` set (edges cfg) \<longrightarrow> 0 \<le> \<rho> (X n m')) \<and>
        (\<forall>sc<num_scenarios cfg.
           (\<forall>node\<in>set (nodes cfg).
              sum_list (map (\<lambda>(n, m'). \<rho> (Y n m' sc))
                         (filter (\<lambda>(n, m'). m' = node) (map fst (edges cfg)))) =
              sum_list (map (\<lambda>(n, m'). \<rho> (Y n m' sc))
                         (filter (\<lambda>(n, m'). n = node) (map fst (edges cfg))))) \<and>
           (\<forall>n m'. (n, m') \<in> fst ` set (edges cfg) \<longrightarrow>
              (\<exists>c x. map_of (edges cfg) (n, m') = Some c \<and> map_of tbl (n, m', sc) = Some x \<and>
                0 \<le> \<rho> (Y n m' sc) \<and>
                \<rho> (Y n m' sc) \<le> real_of_int c \<and>
                \<rho> (Y n m' sc) \<le> real_of_int x + \<rho> (X n m'))))" (is "_ \<longleftrightarrow> ?R")
proof -
  note e = core_model_Inr(1)[OF c]
  have look: "\<exists>c x. map_of (edges cfg) (n, m') = Some c \<and> map_of tbl (n, m', sc) = Some x"
    if "(n, m') \<in> fst ` set (edges cfg)" "sc < num_scenarios cfg" for n m' sc
  proof -
    from that(1) have "map_of (edges cfg) (n, m') \<noteq> None" by (simp add: map_of_eq_None_iff)
    moreover from core_model_Inr(2)[OF c] that have "map_of tbl (n, m', sc) \<noteq> None" by blast
    ultimately show ?thesis by auto
  qed
  have edge: "(\<exists>c. map_of (edges cfg) (n, m') = Some c \<and>
                  (\<exists>x. map_of tbl (n, m', sc) = Some x \<and>
                0 \<le> \<rho> (Y n m' sc) \<and>
                \<rho> (Y n m' sc) \<le> real_of_int c \<and>
                \<rho> (Y n m' sc) \<le> real_of_int x + \<rho> (X n m'))) \<longleftrightarrow>
               (0 \<le> \<rho> (Y n m' sc) \<and>
                \<rho> (Y n m' sc) \<le> real_of_int (the (map_of (edges cfg) (n, m'))) \<and>
                \<rho> (Y n m' sc) \<le> real_of_int (the (map_of tbl (n, m', sc))) + \<rho> (X n m'))"
    if "(n, m') \<in> fst ` set (edges cfg)" "sc < num_scenarios cfg" for n m' sc
    using look[OF that] by auto
  have "feasible m \<rho> \<longleftrightarrow> list_all (\<lambda>(v, d). in_domain d (\<rho> v)) (core_vars cfg) \<and>
        list_all (\<lambda>(c, r). holds \<rho> r) (core_constraints cfg tbl)"
    by (simp add: feasible_def e)
  also have "\<dots> \<longleftrightarrow> ?R"
    unfolding core_vars_sem core_constraints_sem
    by (simp add: edge cong: conj_cong) blast
  finally show ?thesis .
qed

section \<open>Assembly of a well-formed configuration succeeds\<close>

lemma con_flow_balance_total:
  assumes "\<forall>(n, m)\<in>set (model_edges mdl). Y n m sc \<in> fst ` set (model_vars mdl)"
  shows "con_flow_balance mdl (node, sc) = Inr (flow_balance_rel (model_edges mdl) (node, sc))"
proof -
  have a: "py_sum (\<lambda>e. var_getitem mdl (case e of (n, m) \<Rightarrow> Y n m sc)) es =
           Inr (sum_vars (map (\<lambda>(n, m). Y n m sc) es))"
    if "set es \<subseteq> set (model_edges mdl)" for es
    by (rule py_sum_vars_total) (use assms that in auto)
  have "set (filter (\<lambda>(n, m). m = node) (model_edges mdl)) \<subseteq> set (model_edges mdl)"
    "set (filter (\<lambda>(n, m). n = node) (model_edges mdl)) \<subseteq> set (model_edges mdl)"
    by auto
  from a[OF this(1)] a[OF this(2)] show ?thesis
    by (simp add: con_flow_balance_def Let_def flow_balance_rel_def case_prod_unfold)
qed

lemma trivial_flow_balance_rel:
  "trivial (flow_balance_rel es (node, sc)) \<longleftrightarrow> (\<forall>(n, m)\<in>set es. m \<noteq> node \<and> n \<noteq> node)"
  by (auto simp: flow_balance_rel_def is_const_sum_vars filter_empty_conv)

lemma con_max_flow_capacity_total:
  assumes "Y n m sc \<in> fst ` set (model_vars mdl)" "map_of (model_flow_capacity mdl) (n, m) \<noteq> None"
  shows "con_max_flow_capacity mdl ((n, m), sc) =
         Inr (max_flow_capacity_rel (model_flow_capacity mdl) ((n, m), sc))"
  using assms
  by (auto simp: con_max_flow_capacity_def var_getitem_def getitem_def max_flow_capacity_rel_def)

lemma con_eff_flow_capacity_total:
  assumes "Y n m sc \<in> fst ` set (model_vars mdl)" "X n m \<in> fst ` set (model_vars mdl)"
    "map_of (model_xi mdl) (n, m, sc) \<noteq> None"
  shows "con_eff_flow_capacity mdl ((n, m), sc) =
         Inr (eff_flow_capacity_rel (model_xi mdl) ((n, m), sc))"
  using assms
  by (auto simp: con_eff_flow_capacity_def var_getitem_def getitem_def eff_flow_capacity_rel_def)

lemma core_vars_keys:
  "fst ` set (core_vars cfg) =
     {X n m | n m. (n, m) \<in> fst ` set (edges cfg)} \<union>
     {Y n m sc | n m sc. (n, m) \<in> fst ` set (edges cfg) \<and> sc < num_scenarios cfg}"
  by (auto simp: core_vars_def image_iff; force)

lemma core_model_total:
  assumes tbl: "\<forall>n m sc. (n, m) \<in> fst ` set (edges cfg) \<longrightarrow> sc < num_scenarios cfg \<longrightarrow>
                  map_of tbl (n, m, sc) \<noteq> None"
    and touch: "\<forall>node\<in>set (nodes cfg). \<exists>(n, m)\<in>fst ` set (edges cfg). m = node \<or> n = node"
  shows "\<exists>m. core_model cfg tbl = Inr m"
proof -
  define m0 where "m0 = \<lparr> model_nodes = nodes cfg,
                 model_edges = map fst (edges cfg),
                 model_scenarios = [0..<num_scenarios cfg],
                 model_s = source cfg,
                 model_t = sink cfg,
                 model_flow_capacity = edges cfg,
                 model_xi = tbl,
                 model_type1_con_set = [],
                 model_cvar_con_set = [],
                 model_vars = [],
                 model_fixed = [],
                 model_constraints = [],
                 model_objectives = [] \<rparr>"
  define m1 where "m1 = Var (map (\<lambda>(n, m). X n m) (model_edges m0)) NonNegativeReals m0"
  define m2 where "m2 = Var (map (\<lambda>((n, m), scenario). Y n m scenario)
                      (List.product (model_edges m1) (model_scenarios m1)))
                 NonNegativeReals m1"
  have f2: "model_nodes m2 = nodes cfg" "model_edges m2 = map fst (edges cfg)"
    "model_scenarios m2 = [0..<num_scenarios cfg]" "model_flow_capacity m2 = edges cfg"
    "model_xi m2 = tbl" "model_vars m2 = core_vars cfg"
    by (simp_all add: m2_def m1_def m0_def core_vars_def comp_def case_prod_unfold)
  define m3 where "m3 = m2\<lparr>model_constraints := model_constraints m2 @
      map (\<lambda>i. (case i of (node, scenario) \<Rightarrow> Con_flow_balance node scenario,
                 flow_balance_rel (model_edges m2) i))
        (List.product (model_nodes m2) (model_scenarios m2))\<rparr>"
  have c1: "Constraint (\<lambda>(node, scenario). Con_flow_balance node scenario)
                    (List.product (model_nodes m2) (model_scenarios m2))
                    (con_flow_balance m2) m2 = Inr m3"
    unfolding m3_def
  proof (rule Constraint_total)
    fix i assume a: "i \<in> set (List.product (model_nodes m2) (model_scenarios m2))"
    obtain node sc where i: "i = (node, sc)" by (cases i)
    with a have n: "node \<in> set (nodes cfg)" and s: "sc < num_scenarios cfg"
      by (simp_all add: f2)
    have "con_flow_balance m2 (node, sc) = Inr (flow_balance_rel (model_edges m2) (node, sc))"
      by (rule con_flow_balance_total) (use s in \<open>auto simp: f2 core_vars_keys\<close>)
    moreover from touch n have "\<not> trivial (flow_balance_rel (model_edges m2) (node, sc))"
      by (simp add: trivial_flow_balance_rel f2 case_prod_unfold)
    ultimately show "con_flow_balance m2 i = Inr (flow_balance_rel (model_edges m2) i) \<and>
                     \<not> trivial (flow_balance_rel (model_edges m2) i)"
      by (simp add: i)
  qed
  have f3: "model_edges m3 = map fst (edges cfg)"
    "model_scenarios m3 = [0..<num_scenarios cfg]" "model_flow_capacity m3 = edges cfg"
    "model_xi m3 = tbl" "model_vars m3 = core_vars cfg"
    by (simp_all add: m3_def f2)
  define m4 where "m4 = m3\<lparr>model_constraints := model_constraints m3 @
      map (\<lambda>i. ((\<lambda>((n, m), scenario). Con_max_flow_capacity n m scenario) i,
                 max_flow_capacity_rel (model_flow_capacity m3) i))
        (List.product (model_edges m3) (model_scenarios m3))\<rparr>"
  have c2: "Constraint (\<lambda>((n, m), scenario). Con_max_flow_capacity n m scenario)
                    (List.product (model_edges m3) (model_scenarios m3))
                    (con_max_flow_capacity m3) m3 = Inr m4"
    unfolding m4_def
  proof (rule Constraint_total)
    fix i assume a: "i \<in> set (List.product (model_edges m3) (model_scenarios m3))"
    obtain n m sc where i: "i = ((n, m), sc)" by (metis surj_pair)
    with a have e: "(n, m) \<in> fst ` set (edges cfg)" and s: "sc < num_scenarios cfg"
      by (simp_all add: f3)
    have "con_max_flow_capacity m3 ((n, m), sc) =
          Inr (max_flow_capacity_rel (model_flow_capacity m3) ((n, m), sc))"
      by (rule con_max_flow_capacity_total)
         (use e s in \<open>auto simp: f3 core_vars_keys map_of_eq_None_iff\<close>)
    then show "con_max_flow_capacity m3 i = Inr (max_flow_capacity_rel (model_flow_capacity m3) i)
               \<and> \<not> trivial (max_flow_capacity_rel (model_flow_capacity m3) i)"
      by (simp add: i max_flow_capacity_rel_def)
  qed
  have f4: "model_edges m4 = map fst (edges cfg)"
    "model_scenarios m4 = [0..<num_scenarios cfg]"
    "model_xi m4 = tbl" "model_vars m4 = core_vars cfg"
    by (simp_all add: m4_def f3)
  define m5 where "m5 = m4\<lparr>model_constraints := model_constraints m4 @
      map (\<lambda>i. ((\<lambda>((n, m), scenario). Con_eff_flow_capacity n m scenario) i,
                 eff_flow_capacity_rel (model_xi m4) i))
        (List.product (model_edges m4) (model_scenarios m4))\<rparr>"
  have c3: "Constraint (\<lambda>((n, m), scenario). Con_eff_flow_capacity n m scenario)
                    (List.product (model_edges m4) (model_scenarios m4))
                    (con_eff_flow_capacity m4) m4 = Inr m5"
    unfolding m5_def
  proof (rule Constraint_total)
    fix i assume a: "i \<in> set (List.product (model_edges m4) (model_scenarios m4))"
    obtain n m sc where i: "i = ((n, m), sc)" by (metis surj_pair)
    with a have e: "(n, m) \<in> fst ` set (edges cfg)" and s: "sc < num_scenarios cfg"
      by (simp_all add: f4)
    have "con_eff_flow_capacity m4 ((n, m), sc) =
          Inr (eff_flow_capacity_rel (model_xi m4) ((n, m), sc))"
      by (rule con_eff_flow_capacity_total) (use e s tbl in \<open>auto simp: f4 core_vars_keys\<close>)
    then show "con_eff_flow_capacity m4 i = Inr (eff_flow_capacity_rel (model_xi m4) i)
               \<and> \<not> trivial (eff_flow_capacity_rel (model_xi m4) i)"
      by (simp add: i eff_flow_capacity_rel_def)
  qed
  have f5: "model_edges m5 = map fst (edges cfg)" "model_vars m5 = core_vars cfg"
    by (simp_all add: m5_def f4)
  have "py_sum (\<lambda>e. var_getitem m5 (case e of (n, m) \<Rightarrow> X n m)) (model_edges m5) =
        Inr (sum_vars (map (\<lambda>(n, m). X n m) (model_edges m5)))"
    by (rule py_sum_vars_total) (auto simp: f5 core_vars_keys)
  then have "\<exists>e. obj_min_budget m5 = Inr e"
    by (simp add: obj_min_budget_def case_prod_unfold)
  then obtain e where e: "obj_min_budget m5 = Inr e" by blast
  show ?thesis
    unfolding core_model_def Let_def m0_def[symmetric] m1_def[symmetric] m2_def[symmetric]
    by (simp add: c1 c2 c3 e Objective_def)
qed

lemma type1_cell_total:
  assumes sc: "model_scenarios m = [0..<num_scenarios cfg]" and S: "0 < num_scenarios cfg"
    and y: "\<forall>sc<num_scenarios cfg. Y (model_t m) (model_s m) sc \<in> fst ` set (model_vars m)"
    and b: "\<forall>b\<in>set (perf_thresholds cfg). b \<noteq> 0"
    and len: "length (perf_thresholds cfg) \<le> length (alpha_thresholds cfg)"
  shows "\<exists>m'. type1_cell cfg m = Inr m'"
proof -
  define N where "N = length (perf_thresholds cfg)"
  define m1 where "m1 = m\<lparr>model_type1_con_set := [0..<N]\<rparr>"
  define m2 where "m2 = Var (map (\<lambda>(scenario, i). Indicator scenario i)
                      (List.product (model_scenarios m1) (model_type1_con_set m1))) Binary m1"
  have f2: "model_scenarios m2 = [0..<num_scenarios cfg]" "model_type1_con_set m2 = [0..<N]"
    "model_t m2 = model_t m" "model_s m2 = model_s m"
    "model_vars m2 = model_vars m @ indicator_vars cfg m"
    by (simp_all add: m2_def m1_def indicator_vars_def N_def sc comp_def case_prod_unfold)
  have iv: "Indicator s i \<in> fst ` set (model_vars m2)" if "s < num_scenarios cfg" "i < N" for s i
    using that by (force simp: f2 indicator_vars_def sc N_def image_iff)
  have yv: "Y (model_t m) (model_s m) s \<in> fst ` set (model_vars m2)"
    if "s < num_scenarios cfg" for s
    using that y by (auto simp: f2)
  define m3 where "m3 = m2\<lparr>model_constraints := model_constraints m2 @
      map (\<lambda>i. (case i of (scenario, i) \<Rightarrow> Con_indicator scenario i, indicator_rel cfg m2 i))
        (List.product (model_scenarios m2) (model_type1_con_set m2))\<rparr>"
  have c1: "Constraint (\<lambda>(scenario, i). Con_indicator scenario i)
           (List.product (model_scenarios m2) (model_type1_con_set m2))
           (con_indicator cfg m2) m2 = Inr m3"
    unfolding m3_def
  proof (rule Constraint_total)
    fix j assume a: "j \<in> set (List.product (model_scenarios m2) (model_type1_con_set m2))"
    obtain s i where j: "j = (s, i)" by (cases j)
    with a have s: "s < num_scenarios cfg" and i: "i < N" by (simp_all add: f2)
    from i b have "perf_thresholds cfg ! i \<noteq> 0" by (simp add: N_def)
    with iv[OF s i] yv[OF s] i
    show "con_indicator cfg m2 j = Inr (indicator_rel cfg m2 j) \<and> \<not> trivial (indicator_rel cfg m2 j)"
      by (simp add: j con_indicator_def var_getitem_def list_getitem_def truediv_def
          indicator_rel_def f2(3,4) N_def)
  qed
  have f3: "model_scenarios m3 = [0..<num_scenarios cfg]" "model_type1_con_set m3 = [0..<N]"
    "model_vars m3 = model_vars m2"
    by (simp_all add: m3_def f2)
  have c2: "Constraint Con_type1_service_level (model_type1_con_set m3)
           (con_type1_service_level cfg m3) m3 =
         Inr (m3\<lparr>model_constraints := model_constraints m3 @
               map (\<lambda>i. (Con_type1_service_level i, type1_rel cfg m3 i))
                 (model_type1_con_set m3)\<rparr>)"
  proof (rule Constraint_total)
    fix i assume "i \<in> set (model_type1_con_set m3)"
    then have i: "i < N" by (simp add: f3)
    have "py_sum (\<lambda>scenario. var_getitem m3 (Indicator scenario i)) (model_scenarios m3) =
          Inr (sum_vars (map (\<lambda>sc. Indicator sc i) (model_scenarios m3)))"
      by (rule py_sum_vars_total) (use iv i in \<open>simp add: f3\<close>)
    moreover from i len have "i < length (alpha_thresholds cfg)" by (simp add: N_def)
    moreover from S have "[0..<num_scenarios cfg] \<noteq> []" by simp
    ultimately show "con_type1_service_level cfg m3 i = Inr (type1_rel cfg m3 i) \<and>
          \<not> trivial (type1_rel cfg m3 i)"
      using S by (simp add: con_type1_service_level_def truediv_def list_getitem_def
          type1_rel_def is_const_sum_vars f3)
  qed
  show ?thesis
    unfolding type1_cell_def Let_def N_def[symmetric] m1_def[symmetric] m2_def[symmetric]
    by (simp add: c1 c2)
qed

lemma type2_cell_total:
  assumes sc: "model_scenarios m = [0..<num_scenarios cfg]" and S: "0 < num_scenarios cfg"
    and y: "\<forall>sc<num_scenarios cfg. Y (model_t m) (model_s m) sc \<in> fst ` set (model_vars m)"
  shows "\<exists>m'. type2_cell cfg m = Inr m'"
proof -
  have "Constraint (\<lambda>u. Con_type2_service_level) [()] (con_type2_service_level cfg m) m =
        Inr (m\<lparr>model_constraints := model_constraints m @
               map (\<lambda>i. (Con_type2_service_level, type2_rel cfg m)) [()]\<rparr>)"
  proof (rule Constraint_total)
    fix u :: unit
    have "py_sum (\<lambda>scenario. var_getitem m (Y (model_t m) (model_s m) scenario))
            (model_scenarios m) =
          Inr (sum_vars (map (\<lambda>sc. Y (model_t m) (model_s m) sc) (model_scenarios m)))"
      by (rule py_sum_vars_total) (use y in \<open>simp add: sc\<close>)
    moreover from S have "[0..<num_scenarios cfg] \<noteq> []" by simp
    ultimately show "con_type2_service_level cfg m u = Inr (type2_rel cfg m) \<and>
          \<not> trivial (type2_rel cfg m)"
      using S by (simp add: con_type2_service_level_def truediv_def type2_rel_def
          is_const_sum_vars sc)
  qed
  then show ?thesis by (simp add: type2_cell_def)
qed

lemma cvar_cell_total:
  assumes sc: "model_scenarios m = [0..<num_scenarios cfg]" and S: "0 < num_scenarios cfg"
    and y: "\<forall>sc<num_scenarios cfg. Y (model_t m) (model_s m) sc \<in> fst ` set (model_vars m)"
    and e: "\<forall>e\<in>set (cvar_epsilons cfg). e \<noteq> 0"
    and len: "length (cvar_thresholds cfg) \<le> length (cvar_epsilons cfg)"
  shows "\<exists>m'. cvar_cell cfg m = Inr m'"
proof -
  define N where "N = length (cvar_thresholds cfg)"
  define m1 where "m1 = m\<lparr>model_cvar_con_set := [0..<N]\<rparr>"
  define m2 where "m2 = Var (map Cvar_beta (model_cvar_con_set m1)) Reals m1"
  define m3 where "m3 = Var (map (\<lambda>(scenario, i). Cvar_nu scenario i)
                      (List.product (model_scenarios m2) (model_cvar_con_set m2)))
                 NonNegativeReals m2"
  have f3: "model_scenarios m3 = [0..<num_scenarios cfg]" "model_cvar_con_set m3 = [0..<N]"
    "model_t m3 = model_t m" "model_s m3 = model_s m"
    "model_vars m3 = model_vars m @ cvar_vars cfg m"
    by (simp_all add: m3_def m2_def m1_def cvar_vars_def N_def sc comp_def case_prod_unfold)
  have bv: "Cvar_beta i \<in> fst ` set (model_vars m3)" if "i < N" for i
    using that by (force simp: f3 cvar_vars_def N_def image_iff)
  have nv: "Cvar_nu s i \<in> fst ` set (model_vars m3)" if "s < num_scenarios cfg" "i < N" for s i
    using that by (force simp: f3 cvar_vars_def sc N_def image_iff)
  have yv: "Y (model_t m) (model_s m) s \<in> fst ` set (model_vars m3)"
    if "s < num_scenarios cfg" for s
    using that y by (auto simp: f3)
  define m4 where "m4 = m3\<lparr>model_constraints := model_constraints m3 @
      map (\<lambda>i. (Con_cvar_main i, cvar_main_rel cfg m3 i)) (model_cvar_con_set m3)\<rparr>"
  have c1: "Constraint Con_cvar_main (model_cvar_con_set m3) (con_cvar_main cfg m3) m3 = Inr m4"
    unfolding m4_def
  proof (rule Constraint_total)
    fix i assume "i \<in> set (model_cvar_con_set m3)"
    then have i: "i < N" by (simp add: f3)
    have "py_sum (\<lambda>scenario. var_getitem m3 (Cvar_nu scenario i)) (model_scenarios m3) =
          Inr (sum_vars (map (\<lambda>sc. Cvar_nu sc i) (model_scenarios m3)))"
      by (rule py_sum_vars_total) (use nv i in \<open>simp add: f3\<close>)
    moreover from i len have il: "i < length (cvar_epsilons cfg)" by (simp add: N_def)
    moreover from il e have "cvar_epsilons cfg ! i \<noteq> 0" by simp
    ultimately show "con_cvar_main cfg m3 i = Inr (cvar_main_rel cfg m3 i) \<and>
          \<not> trivial (cvar_main_rel cfg m3 i)"
      using S i bv[OF i] by (simp add: con_cvar_main_def truediv_def list_getitem_def
          var_getitem_def cvar_main_rel_def N_def f3(1))
  qed
  have f4: "model_scenarios m4 = [0..<num_scenarios cfg]" "model_cvar_con_set m4 = [0..<N]"
    "model_t m4 = model_t m" "model_s m4 = model_s m" "model_vars m4 = model_vars m3"
    by (simp_all add: m4_def f3)
  have c2: "Constraint (\<lambda>(scenario, i). Con_cvar_aux scenario i)
           (List.product (model_scenarios m4) (model_cvar_con_set m4))
           (con_cvar_aux cfg m4) m4 =
         Inr (m4\<lparr>model_constraints := model_constraints m4 @
               map (\<lambda>i. (case i of (scenario, i) \<Rightarrow> Con_cvar_aux scenario i,
                          cvar_aux_rel cfg m4 i))
                 (List.product (model_scenarios m4) (model_cvar_con_set m4))\<rparr>)"
  proof (rule Constraint_total)
    fix j assume a: "j \<in> set (List.product (model_scenarios m4) (model_cvar_con_set m4))"
    obtain s i where j: "j = (s, i)" by (cases j)
    with a have s: "s < num_scenarios cfg" and i: "i < N" by (simp_all add: f4)
    from bv[OF i] nv[OF s i] yv[OF s]
    show "con_cvar_aux cfg m4 j = Inr (cvar_aux_rel cfg m4 j) \<and> \<not> trivial (cvar_aux_rel cfg m4 j)"
      by (simp add: j con_cvar_aux_def var_getitem_def cvar_aux_rel_def Let_def f4)
  qed
  show ?thesis
    unfolding cvar_cell_def Let_def N_def[symmetric] m1_def[symmetric] m2_def[symmetric]
      m3_def[symmetric]
    by (simp add: c1 c2)
qed

lemma assemble_total:
  assumes "well_formed cfg"
  shows "\<exists>m. assemble g cfg = Inr m"
proof -
  from assms have cap: "capacities_ok cfg (map fst (edges cfg))" and S: "0 < num_scenarios cfg"
    and touch: "\<forall>node\<in>set (nodes cfg). \<exists>(n, m)\<in>fst ` set (edges cfg). m = node \<or> n = node"
    and ts: "(sink cfg, source cfg) \<in> fst ` set (edges cfg)"
    and b: "\<forall>b\<in>set (perf_thresholds cfg). b \<noteq> 0"
    and lb: "length (perf_thresholds cfg) \<le> length (alpha_thresholds cfg)"
    and e: "\<forall>e\<in>set (cvar_epsilons cfg). e \<noteq> 0"
    and le: "length (cvar_thresholds cfg) \<le> length (cvar_epsilons cfg)"
    by (auto simp: well_formed_def list_all_iff list_ex_iff)
  from xi_total[OF cap, of g] obtain tbl g' where x: "xi g cfg = Inr (tbl, g')" by blast
  have "\<forall>n m sc. (n, m) \<in> fst ` set (edges cfg) \<longrightarrow> sc < num_scenarios cfg \<longrightarrow>
                  map_of tbl (n, m, sc) \<noteq> None"
    using xi_entry[OF x] by fastforce
  from core_model_total[OF this touch] obtain m0 where c: "core_model cfg tbl = Inr m0" by blast
  have a0: "assemble_core g cfg = Inr m0" by (simp add: assemble_core_def x c)
  note f0 = assemble_core_fields[OF a0]
  have y0: "\<forall>sc<num_scenarios cfg. Y (model_t m0) (model_s m0) sc \<in> fst ` set (model_vars m0)"
    using ts by (auto simp: f0 core_vars_keys)
  from type1_cell_total[OF f0(1) S y0 b lb] obtain m1 where t1: "type1_cell cfg m0 = Inr m1"
    by blast
  have a1: "assemble_type1 g cfg = Inr m1" by (simp add: assemble_type1_def a0 t1)
  note f1 = assemble_type1_fields[OF a1]
  have y1: "\<forall>sc<num_scenarios cfg. Y (model_t m1) (model_s m1) sc \<in> fst ` set (model_vars m1)"
    using y0 by (auto simp: f1 f0 type1_cell_Inr(1)[OF t1])
  from type2_cell_total[OF f1(1) S y1] obtain m2 where t2: "type2_cell cfg m1 = Inr m2" by blast
  have a2: "assemble_type2 g cfg = Inr m2" by (simp add: assemble_type2_def a1 t2)
  note f2 = assemble_type2_fields[OF a2]
  have y2: "\<forall>sc<num_scenarios cfg. Y (model_t m2) (model_s m2) sc \<in> fst ` set (model_vars m2)"
    using y1 by (auto simp: f2 f1 type2_cell_Inr(1)[OF t2])
  from cvar_cell_total[OF f2(1) S y2 e le] obtain m where cv: "cvar_cell cfg m2 = Inr m" by blast
  then show ?thesis by (auto simp: assemble_def a2)
qed

section \<open>The example network assembles and has a feasible point\<close>

lemma example_well_formed: "well_formed example"
  by (simp add: well_formed_def capacities_ok_def example_def)

lemma xi_example_nonneg:
  assumes "xi g example = Inr (tbl, g')" "(n, m) \<in> fst ` set (edges example)"
    "sc < num_scenarios example"
  shows "\<exists>x. map_of tbl (n, m, sc) = Some x \<and> 0 \<le> x"
proof -
  from xi_entry[OF assms] obtain v where v: "map_of tbl (n, m, sc) = Some v"
    and ok: "entry_ok example g (n, m) v" by blast
  from assms(2) have "(n, m) \<noteq> (source example, sink example)" by (auto simp: example_def)
  with ok have "0 \<le> v" by (auto simp: entry_ok_def)
  with v show ?thesis by blast
qed

lemma example_core_feasible:
  assumes "assemble_core g example = Inr m"
  shows "feasible m example_point"
proof -
  from assemble_core_Inr[OF assms] obtain tbl g' where
    x: "xi g example = Inr (tbl, g')" and c: "core_model example tbl = Inr m" by blast
  have bal: "\<forall>node\<in>set (nodes example).
              sum_list (map (\<lambda>(n, m'). example_point (Y n m' sc))
                         (filter (\<lambda>(n, m'). m' = node) (map fst (edges example)))) =
              sum_list (map (\<lambda>(n, m'). example_point (Y n m' sc))
                         (filter (\<lambda>(n, m'). n = node) (map fst (edges example))))" for sc
    by (simp add: example_def example_point_def example_flow_def)
  have cap: "\<exists>c x. map_of (edges example) (n, m') = Some c \<and> map_of tbl (n, m', sc) = Some x \<and>
                0 \<le> example_point (Y n m' sc) \<and>
                example_point (Y n m' sc) \<le> real_of_int c \<and>
                example_point (Y n m' sc) \<le> real_of_int x + example_point (X n m')"
    if e: "(n, m') \<in> fst ` set (edges example)" and s: "sc < num_scenarios example" for n m' sc
  proof -
    from xi_example_nonneg[OF x e s] obtain xv where xv: "map_of tbl (n, m', sc) = Some xv"
      and x0: "0 \<le> xv" by blast
    from e have "\<exists>c. map_of (edges example) (n, m') = Some c \<and>
                0 \<le> example_point (Y n m' sc) \<and>
                example_point (Y n m' sc) \<le> real_of_int c \<and>
                example_point (Y n m' sc) \<le> 99"
      by (auto simp: example_def example_point_def example_flow_def)
    then obtain cv where "map_of (edges example) (n, m') = Some cv"
      "0 \<le> example_point (Y n m' sc)" "example_point (Y n m' sc) \<le> real_of_int cv"
      "example_point (Y n m' sc) \<le> 99" by blast
    moreover have "example_point (X n m') = 99" by (simp add: example_point_def)
    ultimately show ?thesis using xv x0 by auto
  qed
  have x0: "\<forall>n m'. (n, m') \<in> fst ` set (edges example) \<longrightarrow> 0 \<le> example_point (X n m')"
    by (simp add: example_point_def)
  show ?thesis
    unfolding core_model_feasible_iff[OF c] using x0 bal cap by blast
qed

lemma example_feasible:
  assumes "assemble g example = Inr m"
  shows "feasible m example_point"
proof -
  from assemble_stages[OF assms] obtain m0 m1 m2 where
    a0: "assemble_core g example = Inr m0" and t1: "type1_cell example m0 = Inr m1" and
    a1: "assemble_type1 g example = Inr m1" and t2: "type2_cell example m1 = Inr m2" and
    a2: "assemble_type2 g example = Inr m2" and c: "cvar_cell example m2 = Inr m" by blast
  have f0: "feasible m0 example_point" by (rule example_core_feasible[OF a0])
  have sums: "(\<Sum>sc<num_scenarios example. example_point (Indicator sc i)) = 100"
    "(\<Sum>sc<num_scenarios example. example_point (Cvar_nu sc i)) = 0"
    "(\<Sum>sc<num_scenarios example. example_point (Y (sink example) (source example) sc)) = 2300"
    for i
    by (simp_all add: example_def example_point_def example_flow_def)
  have f1: "feasible m1 example_point"
    unfolding assemble_type1_feasible_iff[OF a0 t1] sums
    using f0 by (auto simp: example_def example_point_def example_flow_def less_Suc_eq)
  have f2: "feasible m2 example_point"
    unfolding type2_cell_feasible_iff[OF t2] holds_type2_rel assemble_type1_fields[OF a1]
      sum_list_scenarios sums
    using f1 by (simp add: example_def)
  show ?thesis
    unfolding assemble_feasible_iff[OF a2 c] sums
    using f2 by (auto simp: example_def example_point_def example_flow_def less_Suc_eq)
qed

section \<open>The small configuration, evaluated\<close>

lemmas eval_defs = xi_def xi_value_def getitem_def randint_def
  assemble_def assemble_type2_def assemble_type1_def assemble_core_def
  core_model_def type1_cell_def type2_cell_def cvar_cell_def
  Constraint_def checked_def Var_def Objective_def var_getitem_def py_sum_def
  con_flow_balance_def con_max_flow_capacity_def con_eff_flow_capacity_def obj_min_budget_def
  con_indicator_def con_type1_service_level_def con_type2_service_level_def
  con_cvar_main_def con_cvar_aux_def truediv_def list_getitem_def Let_def

lemma tiny_core_assembles: "\<not> isl (assemble_core (\<lambda>_. 3) tiny)"
  by (simp add: tiny_def eval_defs)

lemma tiny_type1_assembles: "\<not> isl (assemble_type1 (\<lambda>_. 3) tiny)"
  by (simp add: tiny_def eval_defs)

lemma tiny_type2_assembles: "\<not> isl (assemble_type2 (\<lambda>_. 3) tiny)"
  by (simp add: tiny_def eval_defs)

lemma tiny_assembles: "\<not> isl (assemble (\<lambda>_. 3) tiny)"
  by (simp add: tiny_def eval_defs)

lemma tiny_point_feasible: "feasible (projr (assemble (\<lambda>_. 3) tiny)) tiny_point"
  by (simp add: tiny_def eval_defs feasible_def tiny_point_def)

section \<open>Core model\<close>

text \<open>
  C6. After the core cell the model has the variables \<open>x\<close> (one per edge) and
  \<open>y\<close> (one per edge and scenario), all non-negative reals, and one constraint
  per node and scenario (flow balance), per edge and scenario (capacity ceiling)
  and per edge and scenario (effective capacity), in this order. A point is
  feasible exactly when every \<open>x\<close> and \<open>y\<close> is non-negative and, in every scenario,
  at every node the sum of \<open>y\<close> over the entering edges equals the sum over the
  leaving edges, and on every edge \<open>y\<close> is at most the capacity and at most \<open>\<xi>\<close>
  plus \<open>x\<close>.
\<close>

theorem core_model_contains:
  assumes "assemble_core g cfg = Inr m"
  shows "\<exists>tbl g'. xi g cfg = Inr (tbl, g') \<and>
     model_vars m =
        map (\<lambda>(n, m'). (X n m', NonNegativeReals)) (map fst (edges cfg)) @
        map (\<lambda>((n, m'), sc). (Y n m' sc, NonNegativeReals))
          (List.product (map fst (edges cfg)) [0..<num_scenarios cfg]) \<and>
     map fst (model_constraints m) =
        map (\<lambda>(node, sc). Con_flow_balance node sc)
          (List.product (nodes cfg) [0..<num_scenarios cfg]) @
        map (\<lambda>((n, m'), sc). Con_max_flow_capacity n m' sc)
          (List.product (map fst (edges cfg)) [0..<num_scenarios cfg]) @
        map (\<lambda>((n, m'), sc). Con_eff_flow_capacity n m' sc)
          (List.product (map fst (edges cfg)) [0..<num_scenarios cfg]) \<and>
     (\<forall>\<rho>. feasible m \<rho> \<longleftrightarrow>
        (\<forall>n m'. (n, m') \<in> fst ` set (edges cfg) \<longrightarrow> 0 \<le> \<rho> (X n m')) \<and>
        (\<forall>sc<num_scenarios cfg.
           (\<forall>node\<in>set (nodes cfg).
              sum_list (map (\<lambda>(n, m'). \<rho> (Y n m' sc))
                         (filter (\<lambda>(n, m'). m' = node) (map fst (edges cfg)))) =
              sum_list (map (\<lambda>(n, m'). \<rho> (Y n m' sc))
                         (filter (\<lambda>(n, m'). n = node) (map fst (edges cfg))))) \<and>
           (\<forall>n m'. (n, m') \<in> fst ` set (edges cfg) \<longrightarrow>
              (\<exists>c x. map_of (edges cfg) (n, m') = Some c \<and> map_of tbl (n, m', sc) = Some x \<and>
                0 \<le> \<rho> (Y n m' sc) \<and>
                \<rho> (Y n m' sc) \<le> real_of_int c \<and>
                \<rho> (Y n m' sc) \<le> real_of_int x + \<rho> (X n m')))))"
proof -
  from assemble_core_Inr[OF assms] obtain tbl g' where
    x: "xi g cfg = Inr (tbl, g')" and c: "core_model cfg tbl = Inr m" by blast
  note e = core_model_Inr(1)[OF c]
  have v: "model_vars m =
        map (\<lambda>(n, m'). (X n m', NonNegativeReals)) (map fst (edges cfg)) @
        map (\<lambda>((n, m'), sc). (Y n m' sc, NonNegativeReals))
          (List.product (map fst (edges cfg)) [0..<num_scenarios cfg])"
    by (simp add: e core_vars_def)
  have k: "map fst (model_constraints m) =
        map (\<lambda>(node, sc). Con_flow_balance node sc)
          (List.product (nodes cfg) [0..<num_scenarios cfg]) @
        map (\<lambda>((n, m'), sc). Con_max_flow_capacity n m' sc)
          (List.product (map fst (edges cfg)) [0..<num_scenarios cfg]) @
        map (\<lambda>((n, m'), sc). Con_eff_flow_capacity n m' sc)
          (List.product (map fst (edges cfg)) [0..<num_scenarios cfg])"
    by (simp add: e core_constraints_def comp_def case_prod_unfold)
  from x v k core_model_feasible_iff[OF c] show ?thesis by blast
qed

theorem core_model_contains_witness:
  "(\<exists>m tbl g'. assemble_core (\<lambda>_. 3) tiny = Inr m \<and> xi (\<lambda>_. 3) tiny = Inr (tbl, g') \<and>
     model_vars m = [(X 0 1, NonNegativeReals), (X 1 0, NonNegativeReals),
                     (Y 0 1 0, NonNegativeReals), (Y 1 0 0, NonNegativeReals)] \<and>
     map fst (model_constraints m) =
       [Con_flow_balance 0 0, Con_flow_balance 1 0,
        Con_max_flow_capacity 0 1 0, Con_max_flow_capacity 1 0 0,
        Con_eff_flow_capacity 0 1 0, Con_eff_flow_capacity 1 0 0]) \<and>
   (\<exists>m. assemble_core (\<lambda>_. 0) example = Inr m \<and>
     length (model_vars m) = 1111 \<and> length (model_constraints m) = 2800)"
proof -
  from tiny_core_assembles obtain m where a: "assemble_core (\<lambda>_. 3) tiny = Inr m"
    by (cases "assemble_core (\<lambda>_. 3) tiny") auto
  from core_model_contains[OF a] obtain tbl g' where
    b: "xi (\<lambda>_. 3) tiny = Inr (tbl, g')" and
    c: "model_vars m =
        map (\<lambda>(n, m'). (X n m', NonNegativeReals)) (map fst (edges tiny)) @
        map (\<lambda>((n, m'), sc). (Y n m' sc, NonNegativeReals))
          (List.product (map fst (edges tiny)) [0..<num_scenarios tiny])" and
    d: "map fst (model_constraints m) =
        map (\<lambda>(node, sc). Con_flow_balance node sc)
          (List.product (nodes tiny) [0..<num_scenarios tiny]) @
        map (\<lambda>((n, m'), sc). Con_max_flow_capacity n m' sc)
          (List.product (map fst (edges tiny)) [0..<num_scenarios tiny]) @
        map (\<lambda>((n, m'), sc). Con_eff_flow_capacity n m' sc)
          (List.product (map fst (edges tiny)) [0..<num_scenarios tiny])"
    by blast
  from c have c': "model_vars m = [(X 0 1, NonNegativeReals), (X 1 0, NonNegativeReals),
                     (Y 0 1 0, NonNegativeReals), (Y 1 0 0, NonNegativeReals)]"
    by (simp add: tiny_def)
  from d have d': "map fst (model_constraints m) =
       [Con_flow_balance 0 0, Con_flow_balance 1 0,
        Con_max_flow_capacity 0 1 0, Con_max_flow_capacity 1 0 0,
        Con_eff_flow_capacity 0 1 0, Con_eff_flow_capacity 1 0 0]"
    by (simp add: tiny_def)
  from a b c' d' have small: "\<exists>m tbl g'. assemble_core (\<lambda>_. 3) tiny = Inr m \<and>
     xi (\<lambda>_. 3) tiny = Inr (tbl, g') \<and>
     model_vars m = [(X 0 1, NonNegativeReals), (X 1 0, NonNegativeReals),
                     (Y 0 1 0, NonNegativeReals), (Y 1 0 0, NonNegativeReals)] \<and>
     map fst (model_constraints m) =
       [Con_flow_balance 0 0, Con_flow_balance 1 0,
        Con_max_flow_capacity 0 1 0, Con_max_flow_capacity 1 0 0,
        Con_eff_flow_capacity 0 1 0, Con_eff_flow_capacity 1 0 0]"
    by (intro exI[of _ m] exI[of _ tbl] exI[of _ g']) simp
  from assemble_total[OF example_well_formed, of "\<lambda>_. 0"] obtain mf where
    "assemble (\<lambda>_. 0) example = Inr mf" by blast
  from assemble_stages[OF this] obtain me where ae: "assemble_core (\<lambda>_. 0) example = Inr me"
    by blast
  from core_model_contains[OF ae] obtain tbl' g'' where
    ce: "model_vars me =
        map (\<lambda>(n, m'). (X n m', NonNegativeReals)) (map fst (edges example)) @
        map (\<lambda>((n, m'), sc). (Y n m' sc, NonNegativeReals))
          (List.product (map fst (edges example)) [0..<num_scenarios example])" and
    de: "map fst (model_constraints me) =
        map (\<lambda>(node, sc). Con_flow_balance node sc)
          (List.product (nodes example) [0..<num_scenarios example]) @
        map (\<lambda>((n, m'), sc). Con_max_flow_capacity n m' sc)
          (List.product (map fst (edges example)) [0..<num_scenarios example]) @
        map (\<lambda>((n, m'), sc). Con_eff_flow_capacity n m' sc)
          (List.product (map fst (edges example)) [0..<num_scenarios example])"
    by blast
  from ce have "length (model_vars me) = 1111" by (simp add: example_def)
  moreover from arg_cong[OF de, of length] have "length (model_constraints me) = 2800"
    by (simp add: example_def)
  ultimately have "\<exists>m. assemble_core (\<lambda>_. 0) example = Inr m \<and>
     length (model_vars m) = 1111 \<and> length (model_constraints m) = 2800"
    using ae by blast
  with small show ?thesis by blast
qed

section \<open>Type-I service-level constraints\<close>

text \<open>
  C3. The Type-I cell adds one binary variable per scenario and threshold, one
  constraint \<open>I(\<omega>, i) \<le> y(sink, source, \<omega>) / b\<^sub>i\<close> per scenario and threshold and
  one constraint \<open>(1 / S) \<Sum>\<^sub>\<omega> I(\<omega>, i) \<ge> \<alpha>\<^sub>i\<close> per threshold, and nothing else:
  the variable list and the list of constraint names grow by exactly these, the
  fixed variables and objectives stay, and feasibility after the cell is
  feasibility before it together with these conditions.
\<close>

theorem type1_cell_adds_indicators:
  assumes "assemble_type1 g cfg = Inr m'"
  shows "\<exists>m. assemble_core g cfg = Inr m \<and>
     model_vars m' = model_vars m @
        map (\<lambda>(sc, i). (Indicator sc i, Binary))
          (List.product [0..<num_scenarios cfg] [0..<length (perf_thresholds cfg)]) \<and>
     map fst (model_constraints m') = map fst (model_constraints m) @
        map (\<lambda>(sc, i). Con_indicator sc i)
          (List.product [0..<num_scenarios cfg] [0..<length (perf_thresholds cfg)]) @
        map Con_type1_service_level [0..<length (perf_thresholds cfg)] \<and>
     model_fixed m' = model_fixed m \<and>
     model_objectives m' = model_objectives m \<and>
     length (perf_thresholds cfg) \<le> length (alpha_thresholds cfg) \<and>
     (\<forall>\<rho>. feasible m' \<rho> \<longleftrightarrow>
         feasible m \<rho> \<and>
         (\<forall>i<length (perf_thresholds cfg).
            (\<forall>sc<num_scenarios cfg.
               (\<rho> (Indicator sc i) = 0 \<or> \<rho> (Indicator sc i) = 1) \<and>
               \<rho> (Indicator sc i) \<le> \<rho> (Y (sink cfg) (source cfg) sc) / perf_thresholds cfg ! i) \<and>
            alpha_thresholds cfg ! i \<le>
              (1 / real (num_scenarios cfg)) * (\<Sum>sc<num_scenarios cfg. \<rho> (Indicator sc i))))"
proof -
  from assemble_type1_Inr[OF assms] obtain m where
    a: "assemble_core g cfg = Inr m" and b: "type1_cell cfg m = Inr m'" by blast
  note e = type1_cell_Inr(1)[OF b]
  note f = assemble_core_fields[OF a]
  have v: "model_vars m' = model_vars m @
        map (\<lambda>(sc, i). (Indicator sc i, Binary))
          (List.product [0..<num_scenarios cfg] [0..<length (perf_thresholds cfg)])"
    by (simp add: e indicator_vars_def f(1))
  have c: "map fst (model_constraints m') = map fst (model_constraints m) @
        map (\<lambda>(sc, i). Con_indicator sc i)
          (List.product [0..<num_scenarios cfg] [0..<length (perf_thresholds cfg)]) @
        map Con_type1_service_level [0..<length (perf_thresholds cfg)]"
    by (simp add: e type1_constraints_def f(1) comp_def case_prod_unfold)
  have x: "model_fixed m' = model_fixed m" "model_objectives m' = model_objectives m"
    by (simp_all add: e)
  from a v c x type1_cell_Inr(2)[OF b] assemble_type1_feasible_iff[OF a b]
  show ?thesis by blast
qed

theorem type1_cell_adds_indicators_witness:
  "(\<exists>m' m. assemble_type1 (\<lambda>_. 3) tiny = Inr m' \<and> assemble_core (\<lambda>_. 3) tiny = Inr m \<and>
     model_vars m' = model_vars m @ [(Indicator 0 0, Binary)] \<and>
     map fst (model_constraints m') =
       map fst (model_constraints m) @ [Con_indicator 0 0, Con_type1_service_level 0]) \<and>
   (\<exists>m' m. assemble_type1 (\<lambda>_. 0) example = Inr m' \<and>
     assemble_core (\<lambda>_. 0) example = Inr m \<and>
     length (model_vars m') = length (model_vars m) + 300 \<and>
     length (model_constraints m') = length (model_constraints m) + 303 \<and>
     feasible m' example_point)"
proof -
  from tiny_type1_assembles obtain m' where a: "assemble_type1 (\<lambda>_. 3) tiny = Inr m'"
    by (cases "assemble_type1 (\<lambda>_. 3) tiny") auto
  from type1_cell_adds_indicators[OF a] obtain m where
    b: "assemble_core (\<lambda>_. 3) tiny = Inr m" and
    c: "model_vars m' = model_vars m @
        map (\<lambda>(sc, i). (Indicator sc i, Binary))
          (List.product [0..<num_scenarios tiny] [0..<length (perf_thresholds tiny)])" and
    d: "map fst (model_constraints m') = map fst (model_constraints m) @
        map (\<lambda>(sc, i). Con_indicator sc i)
          (List.product [0..<num_scenarios tiny] [0..<length (perf_thresholds tiny)]) @
        map Con_type1_service_level [0..<length (perf_thresholds tiny)]"
    by blast
  from c have c': "model_vars m' = model_vars m @ [(Indicator 0 0, Binary)]"
    by (simp add: tiny_def)
  from d have d': "map fst (model_constraints m') =
       map fst (model_constraints m) @ [Con_indicator 0 0, Con_type1_service_level 0]"
    by (simp add: tiny_def)
  from a b c' d' have small: "\<exists>m' m. assemble_type1 (\<lambda>_. 3) tiny = Inr m' \<and>
     assemble_core (\<lambda>_. 3) tiny = Inr m \<and>
     model_vars m' = model_vars m @ [(Indicator 0 0, Binary)] \<and>
     map fst (model_constraints m') =
       map fst (model_constraints m) @ [Con_indicator 0 0, Con_type1_service_level 0]"
    by blast
  from assemble_total[OF example_well_formed, of "\<lambda>_. 0"] obtain mf where
    af: "assemble (\<lambda>_. 0) example = Inr mf" by blast
  from assemble_stages[OF af] obtain me0 me' where
    a0: "assemble_core (\<lambda>_. 0) example = Inr me0" and
    ae: "assemble_type1 (\<lambda>_. 0) example = Inr me'" by blast
  from type1_cell_adds_indicators[OF ae] a0 have
    ce: "model_vars me' = model_vars me0 @
        map (\<lambda>(sc, i). (Indicator sc i, Binary))
          (List.product [0..<num_scenarios example] [0..<length (perf_thresholds example)])" and
    de: "map fst (model_constraints me') = map fst (model_constraints me0) @
        map (\<lambda>(sc, i). Con_indicator sc i)
          (List.product [0..<num_scenarios example] [0..<length (perf_thresholds example)]) @
        map Con_type1_service_level [0..<length (perf_thresholds example)]" and
    fe: "\<forall>\<rho>. feasible me' \<rho> \<longleftrightarrow>
         feasible me0 \<rho> \<and>
         (\<forall>i<length (perf_thresholds example).
            (\<forall>sc<num_scenarios example.
               (\<rho> (Indicator sc i) = 0 \<or> \<rho> (Indicator sc i) = 1) \<and>
               \<rho> (Indicator sc i)
                 \<le> \<rho> (Y (sink example) (source example) sc) / perf_thresholds example ! i) \<and>
            alpha_thresholds example ! i \<le>
              (1 / real (num_scenarios example)) *
              (\<Sum>sc<num_scenarios example. \<rho> (Indicator sc i)))"
    by auto
  from ce have l1: "length (model_vars me') = length (model_vars me0) + 300"
    by (simp add: example_def)
  from arg_cong[OF de, of length]
  have l2: "length (model_constraints me') = length (model_constraints me0) + 303"
    by (simp add: example_def)
  have "feasible me0 example_point" by (rule example_core_feasible[OF a0])
  moreover have "(\<Sum>sc<num_scenarios example. example_point (Indicator sc i)) = 100" for i
    by (simp add: example_def example_point_def)
  ultimately have "feasible me' example_point"
    unfolding fe[rule_format]
    by (auto simp: example_def example_point_def example_flow_def less_Suc_eq)
  with ae a0 l1 l2 have "\<exists>m' m. assemble_type1 (\<lambda>_. 0) example = Inr m' \<and>
     assemble_core (\<lambda>_. 0) example = Inr m \<and>
     length (model_vars m') = length (model_vars m) + 300 \<and>
     length (model_constraints m') = length (model_constraints m) + 303 \<and>
     feasible m' example_point" by blast
  with small show ?thesis by blast
qed

lemma binary_mean_one:
  fixes f :: "nat \<Rightarrow> real"
  assumes bin: "\<forall>sc<S. f sc = 0 \<or> f sc = 1"
    and mean: "1 \<le> (1 / real S) * (\<Sum>sc<S. f sc)"
    and k: "k < S"
  shows "f k = 1"
proof (rule ccontr)
  assume "f k \<noteq> 1"
  with bin k have fk: "f k = 0" by blast
  have "(\<Sum>sc<S. f sc) = (\<Sum>sc\<in>{..<S} - {k}. f sc) + f k"
    using k by (simp add: sum.remove[of "{..<S}" k])
  also have "\<dots> = (\<Sum>sc\<in>{..<S} - {k}. f sc)" using fk by simp
  also have "\<dots> \<le> (\<Sum>sc\<in>{..<S} - {k}. 1)"
    by (rule sum_mono) (use bin in auto)
  also have "\<dots> = real S - 1" using k by simp
  finally have "(\<Sum>sc<S. f sc) \<le> real S - 1" .
  moreover have "0 < real S" using k by simp
  ultimately have "(1 / real S) * (\<Sum>sc<S. f sc) < 1"
    by (simp add: field_simps)
  with mean show False by simp
qed

text \<open>
  C4. When the required probability of threshold \<open>i\<close> is 1 and its performance
  bound is positive, every feasible point of the assembled model has all
  indicators of \<open>i\<close> equal to 1 and the sink inflow at least \<open>b\<^sub>i\<close> in every
  scenario.
\<close>

theorem alpha_one_is_worst_case:
  assumes "assemble g cfg = Inr m" "feasible m \<rho>"
    and "i < length (perf_thresholds cfg)" "alpha_thresholds cfg ! i = 1"
    and "0 < perf_thresholds cfg ! i" "sc < num_scenarios cfg"
  shows "\<rho> (Indicator sc i) = 1 \<and> perf_thresholds cfg ! i \<le> \<rho> (Y (sink cfg) (source cfg) sc)"
proof -
  from assemble_stages[OF assms(1)] obtain m0 m1 m2 where
    a0: "assemble_core g cfg = Inr m0" and t1: "type1_cell cfg m0 = Inr m1" and
    a1: "assemble_type1 g cfg = Inr m1" and t2: "type2_cell cfg m1 = Inr m2" and
    a2: "assemble_type2 g cfg = Inr m2" and c: "cvar_cell cfg m2 = Inr m" by blast
  from assms(2) have "feasible m2 \<rho>" by (simp add: assemble_feasible_iff[OF a2 c])
  then have "feasible m1 \<rho>" by (simp add: type2_cell_feasible_iff[OF t2])
  with assemble_type1_feasible_iff[OF a0 t1, of \<rho>] assms(3)
  have bin: "\<forall>sc<num_scenarios cfg. \<rho> (Indicator sc i) = 0 \<or> \<rho> (Indicator sc i) = 1"
    and le: "\<forall>sc<num_scenarios cfg.
              \<rho> (Indicator sc i) \<le> \<rho> (Y (sink cfg) (source cfg) sc) / perf_thresholds cfg ! i"
    and mean: "alpha_thresholds cfg ! i \<le>
              (1 / real (num_scenarios cfg)) * (\<Sum>sc<num_scenarios cfg. \<rho> (Indicator sc i))"
    by blast+
  from mean assms(4) have
    "1 \<le> (1 / real (num_scenarios cfg)) * (\<Sum>sc<num_scenarios cfg. \<rho> (Indicator sc i))" by simp
  from binary_mean_one[of "num_scenarios cfg" "\<lambda>sc. \<rho> (Indicator sc i)", OF bin this assms(6)]
  have one: "\<rho> (Indicator sc i) = 1" .
  with le assms(6) have "1 \<le> \<rho> (Y (sink cfg) (source cfg) sc) / perf_thresholds cfg ! i" by auto
  with assms(5) have "perf_thresholds cfg ! i \<le> \<rho> (Y (sink cfg) (source cfg) sc)"
    by (simp add: pos_le_divide_eq)
  with one show ?thesis by simp
qed

theorem alpha_one_is_worst_case_witness:
  "(\<exists>m. assemble (\<lambda>_. 3) tiny = Inr m \<and> feasible m tiny_point \<and>
     0 < length (perf_thresholds tiny) \<and> alpha_thresholds tiny ! 0 = 1 \<and>
     0 < perf_thresholds tiny ! 0 \<and> 0 < num_scenarios tiny \<and>
     tiny_point (Indicator 0 0) = 1 \<and>
     perf_thresholds tiny ! 0 \<le> tiny_point (Y (sink tiny) (source tiny) 0)) \<and>
   (\<exists>m. assemble (\<lambda>_. 0) example = Inr m \<and> feasible m example_point \<and>
     2 < length (perf_thresholds example) \<and> alpha_thresholds example ! 2 = 1 \<and>
     0 < perf_thresholds example ! 2 \<and> 99 < num_scenarios example \<and>
     example_point (Indicator 99 2) = 1 \<and>
     perf_thresholds example ! 2 \<le> example_point (Y (sink example) (source example) 99))"
proof -
  let ?m = "projr (assemble (\<lambda>_. 3) tiny)"
  from tiny_assembles have a: "assemble (\<lambda>_. 3) tiny = Inr ?m" by simp
  have h: "0 < length (perf_thresholds tiny)" "alpha_thresholds tiny ! 0 = 1"
    "0 < perf_thresholds tiny ! 0" "0 < num_scenarios tiny"
    by (simp_all add: tiny_def)
  from alpha_one_is_worst_case[OF a tiny_point_feasible h]
  have "tiny_point (Indicator 0 0) = 1 \<and>
        perf_thresholds tiny ! 0 \<le> tiny_point (Y (sink tiny) (source tiny) 0)" .
  with a tiny_point_feasible h have small: "\<exists>m. assemble (\<lambda>_. 3) tiny = Inr m \<and>
     feasible m tiny_point \<and>
     0 < length (perf_thresholds tiny) \<and> alpha_thresholds tiny ! 0 = 1 \<and>
     0 < perf_thresholds tiny ! 0 \<and> 0 < num_scenarios tiny \<and>
     tiny_point (Indicator 0 0) = 1 \<and>
     perf_thresholds tiny ! 0 \<le> tiny_point (Y (sink tiny) (source tiny) 0)" by blast
  from assemble_total[OF example_well_formed, of "\<lambda>_. 0"] obtain me where
    ae: "assemble (\<lambda>_. 0) example = Inr me" by blast
  note fe = example_feasible[OF ae]
  have he: "2 < length (perf_thresholds example)" "alpha_thresholds example ! 2 = 1"
    "0 < perf_thresholds example ! 2" "99 < num_scenarios example"
    by (simp_all add: example_def)
  from alpha_one_is_worst_case[OF ae fe he]
  have "example_point (Indicator 99 2) = 1 \<and>
        perf_thresholds example ! 2 \<le> example_point (Y (sink example) (source example) 99)" .
  with ae fe he have "\<exists>m. assemble (\<lambda>_. 0) example = Inr m \<and> feasible m example_point \<and>
     2 < length (perf_thresholds example) \<and> alpha_thresholds example ! 2 = 1 \<and>
     0 < perf_thresholds example ! 2 \<and> 99 < num_scenarios example \<and>
     example_point (Indicator 99 2) = 1 \<and>
     perf_thresholds example ! 2 \<le> example_point (Y (sink example) (source example) 99)"
    by blast
  with small show ?thesis by blast
qed

section \<open>Type-II service-level constraint\<close>

text \<open>
  C9. The Type-II cell adds exactly one constraint and no variable: the mean of
  \<open>y\<close> at the edge (sink, source) over the scenarios is at least
  \<open>perf_target * beta_threshold\<close>.
\<close>

theorem type2_cell_adds_mean_constraint:
  assumes "assemble_type2 g cfg = Inr m'"
  shows "\<exists>m r. assemble_type1 g cfg = Inr m \<and>
           m' = m\<lparr>model_constraints := model_constraints m @ [(Con_type2_service_level, r)]\<rparr> \<and>
           model_vars m' = model_vars m \<and>
           (\<forall>\<rho>. holds \<rho> r \<longleftrightarrow>
              perf_target cfg * beta_threshold cfg \<le>
              (1 / real (num_scenarios cfg)) *
              (\<Sum>sc<num_scenarios cfg. \<rho> (Y (sink cfg) (source cfg) sc)))"
proof -
  from assemble_type2_Inr[OF assms] obtain m where
    a: "assemble_type1 g cfg = Inr m" and b: "type2_cell cfg m = Inr m'" by blast
  let ?r = "type2_rel cfg m"
  from type2_cell_Inr(1)[OF b]
  have e: "m' = m\<lparr>model_constraints := model_constraints m @ [(Con_type2_service_level, ?r)]\<rparr>" .
  then have v: "model_vars m' = model_vars m" by simp
  have "\<forall>\<rho>. holds \<rho> ?r \<longleftrightarrow>
              perf_target cfg * beta_threshold cfg \<le>
              (1 / real (num_scenarios cfg)) *
              (\<Sum>sc<num_scenarios cfg. \<rho> (Y (sink cfg) (source cfg) sc))"
    by (simp only: holds_type2_rel assemble_type1_fields[OF a] sum_list_scenarios) simp
  with a e v show ?thesis by blast
qed

theorem type2_cell_adds_mean_constraint_witness:
  "(\<exists>m' m r. assemble_type2 (\<lambda>_. 3) tiny = Inr m' \<and> assemble_type1 (\<lambda>_. 3) tiny = Inr m \<and>
     m' = m\<lparr>model_constraints := model_constraints m @ [(Con_type2_service_level, r)]\<rparr> \<and>
     holds (\<lambda>_. 3) r) \<and>
   (\<exists>m' m r. assemble_type2 (\<lambda>_. 0) example = Inr m' \<and>
     assemble_type1 (\<lambda>_. 0) example = Inr m \<and>
     m' = m\<lparr>model_constraints := model_constraints m @ [(Con_type2_service_level, r)]\<rparr> \<and>
     holds example_point r \<and> \<not> holds (\<lambda>_. 17) r)"
proof -
  from tiny_type2_assembles obtain m' where a: "assemble_type2 (\<lambda>_. 3) tiny = Inr m'"
    by (cases "assemble_type2 (\<lambda>_. 3) tiny") auto
  from type2_cell_adds_mean_constraint[OF a] obtain m r where
    b: "assemble_type1 (\<lambda>_. 3) tiny = Inr m" and
    c: "m' = m\<lparr>model_constraints := model_constraints m @ [(Con_type2_service_level, r)]\<rparr>" and
    d: "\<forall>\<rho>. holds \<rho> r \<longleftrightarrow>
              perf_target tiny * beta_threshold tiny \<le>
              (1 / real (num_scenarios tiny)) *
              (\<Sum>sc<num_scenarios tiny. \<rho> (Y (sink tiny) (source tiny) sc))"
    by blast
  from d have "holds (\<lambda>_. 3) r" by (simp add: tiny_def)
  with a b c have small: "\<exists>m' m r. assemble_type2 (\<lambda>_. 3) tiny = Inr m' \<and>
     assemble_type1 (\<lambda>_. 3) tiny = Inr m \<and>
     m' = m\<lparr>model_constraints := model_constraints m @ [(Con_type2_service_level, r)]\<rparr> \<and>
     holds (\<lambda>_. 3) r" by blast
  from assemble_total[OF example_well_formed, of "\<lambda>_. 0"] obtain mf where
    "assemble (\<lambda>_. 0) example = Inr mf" by blast
  from assemble_stages[OF this] obtain me' where
    ae: "assemble_type2 (\<lambda>_. 0) example = Inr me'" by blast
  from type2_cell_adds_mean_constraint[OF ae] obtain me re where
    be: "assemble_type1 (\<lambda>_. 0) example = Inr me" and
    ce: "me' = me\<lparr>model_constraints := model_constraints me @ [(Con_type2_service_level, re)]\<rparr>"
    and de: "\<forall>\<rho>. holds \<rho> re \<longleftrightarrow>
              perf_target example * beta_threshold example \<le>
              (1 / real (num_scenarios example)) *
              (\<Sum>sc<num_scenarios example. \<rho> (Y (sink example) (source example) sc))"
    by blast
  from de have "holds example_point re" "\<not> holds (\<lambda>_. 17) re"
    by (simp_all add: example_def example_point_def example_flow_def)
  with ae be ce have "\<exists>m' m r. assemble_type2 (\<lambda>_. 0) example = Inr m' \<and>
     assemble_type1 (\<lambda>_. 0) example = Inr m \<and>
     m' = m\<lparr>model_constraints := model_constraints m @ [(Con_type2_service_level, r)]\<rparr> \<and>
     holds example_point r \<and> \<not> holds (\<lambda>_. 17) r" by blast
  with small show ?thesis by blast
qed

section \<open>CVaR constraints\<close>

text \<open>
  C5. The CVaR cell adds, per constraint \<open>i\<close>, a free variable \<open>\<beta>\<^sub>i\<close> and, per
  scenario, a non-negative \<open>\<nu>(\<omega>, i)\<close> with \<open>\<nu>(\<omega>, i) \<ge> (target - y(\<omega>)) - \<beta>\<^sub>i\<close>,
  and the one constraint \<open>\<beta>\<^sub>i + (1 / (S \<epsilon>\<^sub>i)) \<Sum>\<^sub>\<omega> \<nu>(\<omega>, i) \<le> \<zeta>\<^sub>i\<close>; with one
  scenario this is \<open>\<beta>\<^sub>i + \<nu> / \<epsilon>\<^sub>i \<le> \<zeta>\<^sub>i\<close> with the single
  \<open>\<nu> \<ge> loss - \<beta>\<^sub>i\<close>, \<open>\<nu> \<ge> 0\<close>.
\<close>

theorem cvar_cell_adds_epigraph:
  assumes "assemble g cfg = Inr m'"
  shows "\<exists>m. assemble_type2 g cfg = Inr m \<and>
     model_vars m' = model_vars m @
        map (\<lambda>i. (Cvar_beta i, Reals)) [0..<length (cvar_thresholds cfg)] @
        map (\<lambda>(sc, i). (Cvar_nu sc i, NonNegativeReals))
          (List.product [0..<num_scenarios cfg] [0..<length (cvar_thresholds cfg)]) \<and>
     map fst (model_constraints m') = map fst (model_constraints m) @
        map Con_cvar_main [0..<length (cvar_thresholds cfg)] @
        map (\<lambda>(sc, i). Con_cvar_aux sc i)
          (List.product [0..<num_scenarios cfg] [0..<length (cvar_thresholds cfg)]) \<and>
     model_fixed m' = model_fixed m \<and>
     model_objectives m' = model_objectives m \<and>
     (\<forall>\<rho>. feasible m' \<rho> \<longleftrightarrow>
         feasible m \<rho> \<and>
         (\<forall>i<length (cvar_thresholds cfg).
            (\<forall>sc<num_scenarios cfg.
               0 \<le> \<rho> (Cvar_nu sc i) \<and>
               (perf_target cfg - \<rho> (Y (sink cfg) (source cfg) sc)) - \<rho> (Cvar_beta i)
                 \<le> \<rho> (Cvar_nu sc i)) \<and>
            \<rho> (Cvar_beta i) +
              (1 / (real (num_scenarios cfg) * cvar_epsilons cfg ! i)) *
              (\<Sum>sc<num_scenarios cfg. \<rho> (Cvar_nu sc i))
              \<le> cvar_thresholds cfg ! i)) \<and>
     (num_scenarios cfg = 1 \<longrightarrow>
        (\<forall>\<rho>. feasible m' \<rho> \<longleftrightarrow>
           feasible m \<rho> \<and>
           (\<forall>i<length (cvar_thresholds cfg).
              0 \<le> \<rho> (Cvar_nu 0 i) \<and>
              (perf_target cfg - \<rho> (Y (sink cfg) (source cfg) 0)) - \<rho> (Cvar_beta i)
                 \<le> \<rho> (Cvar_nu 0 i) \<and>
              \<rho> (Cvar_beta i) + \<rho> (Cvar_nu 0 i) / cvar_epsilons cfg ! i
                 \<le> cvar_thresholds cfg ! i)))"
proof -
  from assemble_Inr[OF assms] obtain m where
    a: "assemble_type2 g cfg = Inr m" and b: "cvar_cell cfg m = Inr m'" by blast
  note e = cvar_cell_Inr(1)[OF b]
  note f = assemble_type2_fields[OF a]
  have v: "model_vars m' = model_vars m @
        map (\<lambda>i. (Cvar_beta i, Reals)) [0..<length (cvar_thresholds cfg)] @
        map (\<lambda>(sc, i). (Cvar_nu sc i, NonNegativeReals))
          (List.product [0..<num_scenarios cfg] [0..<length (cvar_thresholds cfg)])"
    by (simp add: e cvar_vars_def f(1))
  have c: "map fst (model_constraints m') = map fst (model_constraints m) @
        map Con_cvar_main [0..<length (cvar_thresholds cfg)] @
        map (\<lambda>(sc, i). Con_cvar_aux sc i)
          (List.product [0..<num_scenarios cfg] [0..<length (cvar_thresholds cfg)])"
    by (simp add: e cvar_constraints_def f(1) comp_def case_prod_unfold)
  have x: "model_fixed m' = model_fixed m" "model_objectives m' = model_objectives m"
    by (simp_all add: e)
  note s = assemble_feasible_iff[OF a b]
  have one: "num_scenarios cfg = 1 \<longrightarrow>
        (\<forall>\<rho>. feasible m' \<rho> \<longleftrightarrow>
           feasible m \<rho> \<and>
           (\<forall>i<length (cvar_thresholds cfg).
              0 \<le> \<rho> (Cvar_nu 0 i) \<and>
              (perf_target cfg - \<rho> (Y (sink cfg) (source cfg) 0)) - \<rho> (Cvar_beta i)
                 \<le> \<rho> (Cvar_nu 0 i) \<and>
              \<rho> (Cvar_beta i) + \<rho> (Cvar_nu 0 i) / cvar_epsilons cfg ! i
                 \<le> cvar_thresholds cfg ! i))"
  proof (intro impI allI)
    fix \<rho> assume S: "num_scenarios cfg = 1"
    show "feasible m' \<rho> \<longleftrightarrow>
           feasible m \<rho> \<and>
           (\<forall>i<length (cvar_thresholds cfg).
              0 \<le> \<rho> (Cvar_nu 0 i) \<and>
              (perf_target cfg - \<rho> (Y (sink cfg) (source cfg) 0)) - \<rho> (Cvar_beta i)
                 \<le> \<rho> (Cvar_nu 0 i) \<and>
              \<rho> (Cvar_beta i) + \<rho> (Cvar_nu 0 i) / cvar_epsilons cfg ! i
                 \<le> cvar_thresholds cfg ! i)"
      unfolding s S by simp
  qed
  from a v c x s one show ?thesis by blast
qed

theorem cvar_cell_adds_epigraph_witness:
  "(\<exists>m' m. assemble (\<lambda>_. 3) tiny = Inr m' \<and> assemble_type2 (\<lambda>_. 3) tiny = Inr m \<and>
     model_vars m' = model_vars m @ [(Cvar_beta 0, Reals), (Cvar_nu 0 0, NonNegativeReals)] \<and>
     map fst (model_constraints m') =
       map fst (model_constraints m) @ [Con_cvar_main 0, Con_cvar_aux 0 0] \<and>
     (feasible m' tiny_point \<longleftrightarrow>
        feasible m tiny_point \<and>
        0 \<le> tiny_point (Cvar_nu 0 0) \<and>
        (3 - tiny_point (Y 1 0 0)) - tiny_point (Cvar_beta 0) \<le> tiny_point (Cvar_nu 0 0) \<and>
        tiny_point (Cvar_beta 0) + tiny_point (Cvar_nu 0 0) / 0.5 \<le> 2)) \<and>
   (\<exists>m' m. assemble (\<lambda>_. 0) example = Inr m' \<and> assemble_type2 (\<lambda>_. 0) example = Inr m \<and>
     length (model_vars m') = length (model_vars m) + 202 \<and>
     length (model_constraints m') = length (model_constraints m) + 202 \<and>
     feasible m' example_point)"
proof -
  let ?m = "projr (assemble (\<lambda>_. 3) tiny)"
  from tiny_assembles have a: "assemble (\<lambda>_. 3) tiny = Inr ?m" by simp
  have S: "num_scenarios tiny = 1" by (simp add: tiny_def)
  from cvar_cell_adds_epigraph[OF a] S obtain m where
    b: "assemble_type2 (\<lambda>_. 3) tiny = Inr m" and
    c: "model_vars ?m = model_vars m @
        map (\<lambda>i. (Cvar_beta i, Reals)) [0..<length (cvar_thresholds tiny)] @
        map (\<lambda>(sc, i). (Cvar_nu sc i, NonNegativeReals))
          (List.product [0..<num_scenarios tiny] [0..<length (cvar_thresholds tiny)])" and
    d: "map fst (model_constraints ?m) = map fst (model_constraints m) @
        map Con_cvar_main [0..<length (cvar_thresholds tiny)] @
        map (\<lambda>(sc, i). Con_cvar_aux sc i)
          (List.product [0..<num_scenarios tiny] [0..<length (cvar_thresholds tiny)])" and
    e: "\<forall>\<rho>. feasible ?m \<rho> \<longleftrightarrow>
           feasible m \<rho> \<and>
           (\<forall>i<length (cvar_thresholds tiny).
              0 \<le> \<rho> (Cvar_nu 0 i) \<and>
              (perf_target tiny - \<rho> (Y (sink tiny) (source tiny) 0)) - \<rho> (Cvar_beta i)
                 \<le> \<rho> (Cvar_nu 0 i) \<and>
              \<rho> (Cvar_beta i) + \<rho> (Cvar_nu 0 i) / cvar_epsilons tiny ! i
                 \<le> cvar_thresholds tiny ! i)"
    by blast
  from c have c': "model_vars ?m =
      model_vars m @ [(Cvar_beta 0, Reals), (Cvar_nu 0 0, NonNegativeReals)]"
    by (simp add: tiny_def)
  from d have d': "map fst (model_constraints ?m) =
       map fst (model_constraints m) @ [Con_cvar_main 0, Con_cvar_aux 0 0]"
    by (simp add: tiny_def)
  from e have e': "feasible ?m tiny_point \<longleftrightarrow>
        feasible m tiny_point \<and>
        0 \<le> tiny_point (Cvar_nu 0 0) \<and>
        (3 - tiny_point (Y 1 0 0)) - tiny_point (Cvar_beta 0) \<le> tiny_point (Cvar_nu 0 0) \<and>
        tiny_point (Cvar_beta 0) + tiny_point (Cvar_nu 0 0) / 0.5 \<le> 2"
    by (simp add: tiny_def)
  from a b c' d' e' have small: "\<exists>m' m. assemble (\<lambda>_. 3) tiny = Inr m' \<and>
     assemble_type2 (\<lambda>_. 3) tiny = Inr m \<and>
     model_vars m' = model_vars m @ [(Cvar_beta 0, Reals), (Cvar_nu 0 0, NonNegativeReals)] \<and>
     map fst (model_constraints m') =
       map fst (model_constraints m) @ [Con_cvar_main 0, Con_cvar_aux 0 0] \<and>
     (feasible m' tiny_point \<longleftrightarrow>
        feasible m tiny_point \<and>
        0 \<le> tiny_point (Cvar_nu 0 0) \<and>
        (3 - tiny_point (Y 1 0 0)) - tiny_point (Cvar_beta 0) \<le> tiny_point (Cvar_nu 0 0) \<and>
        tiny_point (Cvar_beta 0) + tiny_point (Cvar_nu 0 0) / 0.5 \<le> 2)" by blast
  from assemble_total[OF example_well_formed, of "\<lambda>_. 0"] obtain me' where
    ae: "assemble (\<lambda>_. 0) example = Inr me'" by blast
  from cvar_cell_adds_epigraph[OF ae] obtain me where
    be: "assemble_type2 (\<lambda>_. 0) example = Inr me" and
    ce: "model_vars me' = model_vars me @
        map (\<lambda>i. (Cvar_beta i, Reals)) [0..<length (cvar_thresholds example)] @
        map (\<lambda>(sc, i). (Cvar_nu sc i, NonNegativeReals))
          (List.product [0..<num_scenarios example] [0..<length (cvar_thresholds example)])" and
    de: "map fst (model_constraints me') = map fst (model_constraints me) @
        map Con_cvar_main [0..<length (cvar_thresholds example)] @
        map (\<lambda>(sc, i). Con_cvar_aux sc i)
          (List.product [0..<num_scenarios example] [0..<length (cvar_thresholds example)])"
    by blast
  from ce have l1: "length (model_vars me') = length (model_vars me) + 202"
    by (simp add: example_def)
  from arg_cong[OF de, of length]
  have l2: "length (model_constraints me') = length (model_constraints me) + 202"
    by (simp add: example_def)
  from ae be l1 l2 example_feasible[OF ae]
  have "\<exists>m' m. assemble (\<lambda>_. 0) example = Inr m' \<and> assemble_type2 (\<lambda>_. 0) example = Inr m \<and>
     length (model_vars m') = length (model_vars m) + 202 \<and>
     length (model_constraints m') = length (model_constraints m) + 202 \<and>
     feasible m' example_point" by blast
  with small show ?thesis by blast
qed

section \<open>The second solve\<close>

lemma phase2_Inr:
  assumes "assemble g cfg = Inr m"
  shows "phase2 cfg \<rho> m = Inr (m\<lparr>
      model_fixed := map (\<lambda>(n, m'). (X n m', \<rho> (X n m'))) (map fst (edges cfg)),
      model_objectives :=
        [(budget_objective cfg)\<lparr>obj_active := False\<rparr>,
         \<lparr>obj_name = Obj_max_flow, obj_sense = maximize,
          obj_expr = Over (sum_vars (map (\<lambda>sc. Y (sink cfg) (source cfg) sc)
                                       [0..<num_scenarios cfg]))
                          (real (num_scenarios cfg)),
          obj_active = True\<rparr>]\<rparr>)"
proof -
  note f = assemble_sink_inflow[OF assms]
  define m2 where "m2 = deactivate Obj_min_budget (fix_x \<rho> m)"
  have m2: "m2 = m\<lparr>
      model_fixed := map (\<lambda>(n, m'). (X n m', \<rho> (X n m'))) (map fst (edges cfg)),
      model_objectives := [(budget_objective cfg)\<lparr>obj_active := False\<rparr>]\<rparr>"
    by (simp add: m2_def deactivate_def fix_x_def f budget_objective_def)
  have "py_sum (\<lambda>scenario. var_getitem m2 (Y (model_t m2) (model_s m2) scenario))
          (model_scenarios m2) =
        Inr (sum_vars (map (\<lambda>sc. Y (model_t m2) (model_s m2) sc) (model_scenarios m2)))"
    by (rule py_sum_vars_total) (use f in \<open>simp add: m2\<close>)
  then have "obj_max_flow cfg m2 =
        Inr (Over (sum_vars (map (\<lambda>sc. Y (sink cfg) (source cfg) sc) [0..<num_scenarios cfg]))
                  (real (num_scenarios cfg)))"
    using f by (simp add: obj_max_flow_def truediv_def m2)
  then show ?thesis
    unfolding phase2_def Let_def m2_def[symmetric]
    by (simp add: Objective_def m2)
qed

text \<open>
  C2. If the first solve returns a feasible point of the assembled model, then
  fixing every \<open>x\<close> at its value, deactivating the budget objective and adding
  the objective that maximises the mean sink inflow succeeds, leaves the
  constraints and variables as they were, and the same point is feasible for
  the resulting model.
\<close>

theorem phase2_inherits_feasible_point:
  assumes "assemble g cfg = Inr m" "feasible m \<rho>"
  shows "\<exists>m2 e. phase2 cfg \<rho> m = Inr m2 \<and> feasible m2 \<rho> \<and>
     model_constraints m2 = model_constraints m \<and>
     model_vars m2 = model_vars m \<and>
     model_fixed m2 = map (\<lambda>(n, m'). (X n m', \<rho> (X n m'))) (map fst (edges cfg)) \<and>
     filter obj_active (model_objectives m2) =
       [\<lparr>obj_name = Obj_max_flow, obj_sense = maximize, obj_expr = e, obj_active = True\<rparr>] \<and>
     (\<forall>\<rho>'. eval \<rho>' e =
        (1 / real (num_scenarios cfg)) *
        (\<Sum>sc<num_scenarios cfg. \<rho>' (Y (sink cfg) (source cfg) sc)))"
proof -
  let ?e = "Over (sum_vars (map (\<lambda>sc. Y (sink cfg) (source cfg) sc) [0..<num_scenarios cfg]))
                 (real (num_scenarios cfg))"
  let ?m2 = "m\<lparr>
      model_fixed := map (\<lambda>(n, m'). (X n m', \<rho> (X n m'))) (map fst (edges cfg)),
      model_objectives :=
        [(budget_objective cfg)\<lparr>obj_active := False\<rparr>,
         \<lparr>obj_name = Obj_max_flow, obj_sense = maximize, obj_expr = ?e, obj_active = True\<rparr>]\<rparr>"
  have p: "phase2 cfg \<rho> m = Inr ?m2" by (rule phase2_Inr[OF assms(1)])
  have "list_all (\<lambda>(v, c). \<rho> v = c)
          (map (\<lambda>(n, m'). (X n m', \<rho> (X n m'))) (map fst (edges cfg)))"
    by (simp add: list_all_iff case_prod_unfold)
  with assms(2) have f: "feasible ?m2 \<rho>" by (simp add: feasible_def)
  have o: "filter obj_active (model_objectives ?m2) =
       [\<lparr>obj_name = Obj_max_flow, obj_sense = maximize, obj_expr = ?e, obj_active = True\<rparr>]"
    by simp
  have ev: "\<forall>\<rho>'. eval \<rho>' ?e =
        (1 / real (num_scenarios cfg)) *
        (\<Sum>sc<num_scenarios cfg. \<rho>' (Y (sink cfg) (source cfg) sc))"
    by (simp add: eval_sum_vars comp_def sum_list_scenarios)
  from p f o ev show ?thesis by (intro exI[of _ ?m2] exI[of _ ?e]) simp
qed

theorem phase2_inherits_feasible_point_witness:
  "(\<exists>m m2. assemble (\<lambda>_. 3) tiny = Inr m \<and> feasible m tiny_point \<and>
     phase2 tiny tiny_point m = Inr m2 \<and> feasible m2 tiny_point \<and>
     model_constraints m2 = model_constraints m) \<and>
   (\<exists>m m2. assemble (\<lambda>_. 0) example = Inr m \<and> feasible m example_point \<and>
     phase2 example example_point m = Inr m2 \<and> feasible m2 example_point \<and>
     model_constraints m2 = model_constraints m)"
proof -
  let ?m = "projr (assemble (\<lambda>_. 3) tiny)"
  from tiny_assembles have a: "assemble (\<lambda>_. 3) tiny = Inr ?m" by simp
  from phase2_inherits_feasible_point[OF a tiny_point_feasible] obtain m2 where
    "phase2 tiny tiny_point ?m = Inr m2" "feasible m2 tiny_point"
    "model_constraints m2 = model_constraints ?m" by blast
  with a tiny_point_feasible have small: "\<exists>m m2. assemble (\<lambda>_. 3) tiny = Inr m \<and>
     feasible m tiny_point \<and> phase2 tiny tiny_point m = Inr m2 \<and> feasible m2 tiny_point \<and>
     model_constraints m2 = model_constraints m" by blast
  from assemble_total[OF example_well_formed, of "\<lambda>_. 0"] obtain me where
    ae: "assemble (\<lambda>_. 0) example = Inr me" by blast
  note fe = example_feasible[OF ae]
  from phase2_inherits_feasible_point[OF ae fe] obtain me2 where
    "phase2 example example_point me = Inr me2" "feasible me2 example_point"
    "model_constraints me2 = model_constraints me" by blast
  with ae fe have "\<exists>m m2. assemble (\<lambda>_. 0) example = Inr m \<and> feasible m example_point \<and>
     phase2 example example_point m = Inr m2 \<and> feasible m2 example_point \<and>
     model_constraints m2 = model_constraints m" by blast
  with small show ?thesis by blast
qed

section \<open>Malformed configurations\<close>

text \<open>
  C7, as stated: a configuration with an edge that refers to a node outside the
  node list should be rejected during assembly. It is not: for the three-edge
  network whose edge (1, 2) leaves the node list [0, 1], assembly returns a
  model.
\<close>

theorem undeclared_node_is_accepted:
  "2 \<notin> set (nodes stray) \<and> (1, 2) \<in> fst ` set (edges stray) \<and>
   \<not> isl (assemble (\<lambda>_. 0) stray)"
  by (simp add: stray_def eval_defs)

lemma xi_edges_no_scenarios:
  "num_scenarios cfg = 0 \<Longrightarrow> xi_edges cfg es st = Inr st"
  by (induction es arbitrary: st) simp_all

lemma core_model_no_scenarios:
  assumes "num_scenarios cfg = 0"
  shows "\<exists>m. core_model cfg tbl = Inr m \<and> model_scenarios m = []"
proof -
  define m0 where "m0 = \<lparr> model_nodes = nodes cfg,
                 model_edges = map fst (edges cfg),
                 model_scenarios = [],
                 model_s = source cfg,
                 model_t = sink cfg,
                 model_flow_capacity = edges cfg,
                 model_xi = tbl,
                 model_type1_con_set = [],
                 model_cvar_con_set = [],
                 model_vars = map (\<lambda>v. (v, NonNegativeReals)) (map (\<lambda>(n, m). X n m) (map fst (edges cfg))),
                 model_fixed = [],
                 model_constraints = [],
                 model_objectives = [] \<rparr>"
  have "py_sum (\<lambda>e. var_getitem m0 (case e of (n, m) \<Rightarrow> X n m)) (model_edges m0) =
        Inr (sum_vars (map (\<lambda>(n, m). X n m) (model_edges m0)))"
    by (rule py_sum_vars_total) (force simp: m0_def image_iff)
  then have "\<exists>e. obj_min_budget m0 = Inr e"
    by (simp add: obj_min_budget_def case_prod_unfold)
  then obtain e where e: "obj_min_budget m0 = Inr e" by blast
  have "core_model cfg tbl = Inr (m0\<lparr>model_objectives :=
          [\<lparr>obj_name = Obj_min_budget, obj_sense = minimize, obj_expr = e, obj_active = True\<rparr>]\<rparr>)"
    using e unfolding core_model_def Let_def
    by (simp add: assms product_Nil2 Constraint_def Var_def Objective_def m0_def)
  then show ?thesis by (auto simp: m0_def)
qed

lemma type1_cell_no_scenarios:
  assumes "num_scenarios cfg = 0" "model_scenarios m = []"
  shows "type1_cell cfg m = Inl ZeroDivisionError \<or>
         (\<exists>m'. type1_cell cfg m = Inr m' \<and> model_scenarios m' = [])"
proof (cases "perf_thresholds cfg = []")
  case True
  then show ?thesis
    by (simp add: type1_cell_def Let_def assms Constraint_def Var_def)
next
  case False
  then have u: "[0..<length (perf_thresholds cfg)] = 0 # [1..<length (perf_thresholds cfg)]"
    by (simp add: upt_conv_Cons)
  have "type1_cell cfg m = Inl ZeroDivisionError"
    unfolding type1_cell_def Let_def
    by (simp add: assms u Constraint_def Var_def checked_def con_type1_service_level_def
        py_sum_def truediv_def)
  then show ?thesis by simp
qed

lemma type2_cell_no_scenarios:
  assumes "num_scenarios cfg = 0" "model_scenarios m = []"
  shows "type2_cell cfg m = Inl ZeroDivisionError"
  by (simp add: type2_cell_def Constraint_def checked_def con_type2_service_level_def
      py_sum_def truediv_def assms)

lemma assemble_no_scenarios:
  assumes "num_scenarios cfg = 0"
  shows "assemble g cfg = Inl ZeroDivisionError"
proof -
  have x: "xi g cfg = Inr ([], g)" by (simp add: xi_def xi_edges_no_scenarios[OF assms])
  from core_model_no_scenarios[OF assms, of "[]"] obtain m0 where
    c: "core_model cfg [] = Inr m0" and s0: "model_scenarios m0 = []" by blast
  have a0: "assemble_core g cfg = Inr m0" by (simp add: assemble_core_def x c)
  from type1_cell_no_scenarios[OF assms s0]
  have "assemble_type2 g cfg = Inl ZeroDivisionError"
  proof
    assume "type1_cell cfg m0 = Inl ZeroDivisionError"
    then show ?thesis by (simp add: assemble_type2_def assemble_type1_def a0)
  next
    assume "\<exists>m'. type1_cell cfg m0 = Inr m' \<and> model_scenarios m' = []"
    then obtain m1 where t: "type1_cell cfg m0 = Inr m1" and s1: "model_scenarios m1 = []"
      by blast
    from type2_cell_no_scenarios[OF assms s1] t show ?thesis
      by (simp add: assemble_type2_def assemble_type1_def a0)
  qed
  then show ?thesis by (simp add: assemble_def)
qed

lemma xi_value_negative:
  "map_of (edges cfg) e = Some c \<Longrightarrow> c < 0 \<Longrightarrow> e \<noteq> (source cfg, sink cfg)
   \<Longrightarrow> xi_value cfg e g = Inl ValueError"
  by (simp add: xi_value_def getitem_def randint_def)

lemma xi_value_error:
  "e \<in> fst ` set (edges cfg) \<Longrightarrow> xi_value cfg e g = Inl err \<Longrightarrow> err = ValueError"
proof -
  assume k: "e \<in> fst ` set (edges cfg)" and x: "xi_value cfg e g = Inl err"
  from k obtain c where c: "map_of (edges cfg) e = Some c"
    by (cases "map_of (edges cfg) e") (auto simp: map_of_eq_None_iff)
  with x show ?thesis
    by (auto simp: xi_value_def getitem_def randint_def split: if_splits)
qed

lemma xi_scenarios_error:
  "e \<in> fst ` set (edges cfg) \<Longrightarrow> xi_scenarios cfg e scs st = Inl err \<Longrightarrow> err = ValueError"
proof (induction scs arbitrary: st)
  case Nil
  then show ?case by simp
next
  case (Cons sc scs)
  show ?case
  proof (cases "xi_value cfg e (snd st)")
    case (Inl err')
    with Cons.prems(2) have "err' = err" by simp
    with xi_value_error[OF Cons.prems(1) Inl] show ?thesis by simp
  next
    case (Inr p)
    with Cons.prems(2) Cons.IH[OF Cons.prems(1)] show ?thesis
      by (cases p) auto
  qed
qed

lemma xi_edges_negative:
  assumes neg: "\<And>g. xi_value cfg e g = Inl ValueError" and S: "0 < num_scenarios cfg"
  shows "e \<in> set es \<Longrightarrow> set es \<subseteq> fst ` set (edges cfg)
         \<Longrightarrow> xi_edges cfg es st = Inl ValueError"
proof (induction es arbitrary: st)
  case Nil
  then show ?case by simp
next
  case (Cons e' es)
  from S have u: "[0..<num_scenarios cfg] = 0 # [1..<num_scenarios cfg]"
    by (simp add: upt_conv_Cons)
  show ?case
  proof (cases "xi_scenarios cfg e' [0..<num_scenarios cfg] st")
    case (Inl err)
    from Cons.prems(2) have "e' \<in> fst ` set (edges cfg)" by simp
    from xi_scenarios_error[OF this Inl] Inl show ?thesis by simp
  next
    case (Inr st')
    have "e' \<noteq> e"
    proof
      assume "e' = e"
      with Inr u neg[of "snd st"] show False by simp
    qed
    with Cons.prems have "e \<in> set es" "set es \<subseteq> fst ` set (edges cfg)" by auto
    from Cons.IH[OF this] Inr show ?thesis by simp
  qed
qed

lemma assemble_negative_capacity:
  assumes "map_of (edges cfg) e = Some c" "c < 0" "e \<noteq> (source cfg, sink cfg)"
    "0 < num_scenarios cfg"
  shows "assemble g cfg = Inl ValueError"
proof -
  from assms(1) have "e \<in> set (map fst (edges cfg))"
    by (metis map_of_eq_None_iff option.distinct(1) set_map)
  from xi_edges_negative[of cfg e "map fst (edges cfg)" "([], g)",
      OF xi_value_negative[OF assms(1,2,3)] assms(4) this]
  have "xi g cfg = Inl ValueError" by (simp add: xi_def)
  then show ?thesis
    by (simp add: assemble_def assemble_type2_def assemble_type1_def assemble_core_def)
qed

lemma assemble_short_alpha:
  assumes "length (alpha_thresholds cfg) < length (perf_thresholds cfg)"
  shows "isl (assemble g cfg)"
proof (rule ccontr)
  assume "\<not> isl (assemble g cfg)"
  then obtain m where "assemble g cfg = Inr m" by (cases "assemble g cfg") auto
  from assemble_stages[OF this] obtain m0 m1 where "type1_cell cfg m0 = Inr m1" by blast
  from type1_cell_Inr(2)[OF this] assms show False by simp
qed

lemma assemble_short_epsilon:
  assumes "length (cvar_epsilons cfg) < length (cvar_thresholds cfg)"
  shows "isl (assemble g cfg)"
proof (rule ccontr)
  assume "\<not> isl (assemble g cfg)"
  then obtain m where "assemble g cfg = Inr m" by (cases "assemble g cfg") auto
  from assemble_stages[OF this] obtain m2 where "cvar_cell cfg m2 = Inr m" by blast
  from cvar_cell_Inr(2)[OF this] assms show False
    by (metis less_irrefl_nat)
qed

text \<open>
  C7, amended. The notebook has no validation of its own; what stops assembly
  before the solver is a Python exception of an ordinary operation. With no
  scenario the first division by \<open>num_scenarios\<close> raises ZeroDivisionError; with
  a scenario and a negative capacity on an edge other than the pair
  (source, sink), \<open>random.randint\<close> raises ValueError; with fewer probability
  thresholds than performance thresholds, or fewer CVaR levels than CVaR
  ceilings, assembly raises as well.
\<close>

theorem assembly_stops_on_python_errors:
  "(num_scenarios cfg = 0 \<longrightarrow> assemble g cfg = Inl ZeroDivisionError) \<and>
   (0 < num_scenarios cfg \<and>
      (\<exists>e c. map_of (edges cfg) e = Some c \<and> c < 0 \<and> e \<noteq> (source cfg, sink cfg))
      \<longrightarrow> assemble g cfg = Inl ValueError) \<and>
   (length (alpha_thresholds cfg) < length (perf_thresholds cfg) \<longrightarrow> isl (assemble g cfg)) \<and>
   (length (cvar_epsilons cfg) < length (cvar_thresholds cfg) \<longrightarrow> isl (assemble g cfg))"
  using assemble_no_scenarios[of cfg g] assemble_negative_capacity[of cfg _ _ g]
    assemble_short_alpha[of cfg g] assemble_short_epsilon[of cfg g]
  by blast

theorem assembly_stops_on_python_errors_witness:
  "assemble (\<lambda>_. 3) (tiny\<lparr>num_scenarios := 0\<rparr>) = Inl ZeroDivisionError \<and>
   assemble (\<lambda>_. 3) (tiny\<lparr>edges := [((0, 1), 5), ((1, 0), - 1)]\<rparr>) = Inl ValueError \<and>
   isl (assemble (\<lambda>_. 3) (tiny\<lparr>perf_thresholds := [2, 1]\<rparr>)) \<and>
   isl (assemble (\<lambda>_. 3) (tiny\<lparr>cvar_thresholds := [2, 3]\<rparr>))"
proof -
  have "assemble (\<lambda>_. 3) (tiny\<lparr>num_scenarios := 0\<rparr>) = Inl ZeroDivisionError"
    using assembly_stops_on_python_errors[of "tiny\<lparr>num_scenarios := 0\<rparr>" "\<lambda>_. 3"]
    by simp
  moreover have "assemble (\<lambda>_. 3) (tiny\<lparr>edges := [((0, 1), 5), ((1, 0), - 1)]\<rparr>) = Inl ValueError"
  proof -
    have "\<exists>e c. map_of (edges (tiny\<lparr>edges := [((0, 1), 5), ((1, 0), - 1)]\<rparr>)) e = Some c \<and> c < 0 \<and>
            e \<noteq> (source (tiny\<lparr>edges := [((0, 1), 5), ((1, 0), - 1)]\<rparr>),
                  sink (tiny\<lparr>edges := [((0, 1), 5), ((1, 0), - 1)]\<rparr>))"
      by (intro exI[of _ "(1, 0)"] exI[of _ "- 1"]) (simp add: tiny_def)
    moreover have "0 < num_scenarios (tiny\<lparr>edges := [((0, 1), 5), ((1, 0), - 1)]\<rparr>)"
      by (simp add: tiny_def)
    ultimately show ?thesis
      using assembly_stops_on_python_errors[of "tiny\<lparr>edges := [((0, 1), 5), ((1, 0), - 1)]\<rparr>" "\<lambda>_. 3"]
      by blast
  qed
  moreover have "isl (assemble (\<lambda>_. 3) (tiny\<lparr>perf_thresholds := [2, 1]\<rparr>))"
    using assembly_stops_on_python_errors[of "tiny\<lparr>perf_thresholds := [2, 1]\<rparr>" "\<lambda>_. 3"]
    by (simp add: tiny_def)
  moreover have "isl (assemble (\<lambda>_. 3) (tiny\<lparr>cvar_thresholds := [2, 3]\<rparr>))"
    using assembly_stops_on_python_errors[of "tiny\<lparr>cvar_thresholds := [2, 3]\<rparr>" "\<lambda>_. 3"]
    by (simp add: tiny_def)
  ultimately show ?thesis by blast
qed

end
